(* ===== verification/HP_Prelude.thy ===== *)
theory HP_Prelude
  imports Complex_Main "HOL-Library.AList" "HOL-Library.Char_ord"
    "HOL-Library.List_Lexorder" "HOL-Library.Product_Lexorder"
begin

text \<open>
  The vocabulary shared by every component of the development:
  \<^item> the scalar types of the control plane (instants, money, JSON payloads);
  \<^item> the pieces of the Python language and standard library the sources use:
    insertion-ordered dictionaries, stable sorting, \<open>max\<close>/\<open>min\<close> with a key,
    \<open>repr\<close> of a string, decimal printing;
  \<^item> the computations of stateful methods that may raise: a state transformer whose
    result is an error or a value and whose state changes survive the error, exactly as
    the mutations of a Python method survive the exception it raises;
  \<^item> the weakest-precondition calculus and the frame rules the component proofs use.
\<close>

section \<open>Scalars\<close>

text \<open>
  A timezone-aware \<open>datetime\<close> is compared and subtracted as an instant: an integer
  number of microseconds. Amounts of money and fractions are Python floats; they are
  modelled by exact rationals, so rounding of binary64 arithmetic is not part of the model.
\<close>

type_synonym time = int
type_synonym usd = rat

abbreviation microseconds :: "int \<Rightarrow> int" where
  "microseconds s \<equiv> s * 1000000"

datatype json =
    JNull
  | JBool bool
  | JInt int
  | JFloat rat
  | JStr string
  | JList "json list"
  | JObj "(string \<times> json) list"

section \<open>Insertion-ordered dictionaries\<close>

text \<open>
  A Python \<open>dict\<close> keeps insertion order: assigning to a present key keeps its
  position and a new key goes to the end, which is what \<open>AList.update\<close> does.
\<close>

type_synonym ('k, 'v) dict = "('k \<times> 'v) list"

abbreviation dict_get :: "('k, 'v) dict \<Rightarrow> 'k \<Rightarrow> 'v option" where
  "dict_get d k \<equiv> map_of d k"

abbreviation dict_put :: "'k \<Rightarrow> 'v \<Rightarrow> ('k, 'v) dict \<Rightarrow> ('k, 'v) dict" where
  "dict_put k v d \<equiv> AList.update k v d"

abbreviation dict_pop :: "'k \<Rightarrow> ('k, 'v) dict \<Rightarrow> ('k, 'v) dict" where
  "dict_pop k d \<equiv> AList.delete k d"

abbreviation dict_values :: "('k, 'v) dict \<Rightarrow> 'v list" where
  "dict_values d \<equiv> map snd d"

abbreviation dict_keys :: "('k, 'v) dict \<Rightarrow> 'k list" where
  "dict_keys d \<equiv> map fst d"

definition dict_get_default :: "('k, 'v) dict \<Rightarrow> 'k \<Rightarrow> 'v \<Rightarrow> 'v" where
  "dict_get_default d k v = (case map_of d k of None \<Rightarrow> v | Some w \<Rightarrow> w)"

text \<open>A well-formed dictionary has no key twice.\<close>

abbreviation dict_ok :: "('k, 'v) dict \<Rightarrow> bool" where
  "dict_ok d \<equiv> distinct (map fst d)"

lemma dict_get_put [simp]:
  "dict_get (dict_put k v d) k' = (if k' = k then Some v else dict_get d k')"
  by (simp add: update_conv')

lemma dict_get_pop [simp]:
  "dict_get (dict_pop k d) k' = (if k' = k then None else dict_get d k')"
  by (simp add: delete_conv')

lemma dict_get_default_put [simp]:
  "dict_get_default (dict_put k v d) k' w = (if k' = k then v else dict_get_default d k' w)"
  by (simp add: dict_get_default_def)

text \<open>Every binding of a dictionary has a property.\<close>

definition dict_all :: "('k \<Rightarrow> 'v \<Rightarrow> bool) \<Rightarrow> ('k, 'v) dict \<Rightarrow> bool" where
  "dict_all P d = (\<forall>k v. dict_get d k = Some v \<longrightarrow> P k v)"

lemma dict_all_Nil [simp]: "dict_all P []"
  by (simp add: dict_all_def)

lemma dict_allD: "dict_all P d \<Longrightarrow> dict_get d k = Some v \<Longrightarrow> P k v"
  by (simp add: dict_all_def)

lemma dict_all_put [simp]: "dict_all P d \<Longrightarrow> P k v \<Longrightarrow> dict_all P (dict_put k v d)"
  by (simp add: dict_all_def)

lemma dict_all_pop [simp]: "dict_all P d \<Longrightarrow> dict_all P (dict_pop k d)"
  by (simp add: dict_all_def)

lemma dict_all_mono: "dict_all P d \<Longrightarrow> (\<And>k v. dict_get d k = Some v \<Longrightarrow> P k v \<Longrightarrow> Q k v) \<Longrightarrow> dict_all Q d"
  by (simp add: dict_all_def)

lemma dict_ok_put [simp]: "dict_ok d \<Longrightarrow> dict_ok (dict_put k v d)"
  by (rule distinct_update)

lemma dict_ok_pop [simp]: "dict_ok d \<Longrightarrow> dict_ok (dict_pop k d)"
  by (simp add: distinct_delete)

lemma dict_keys_put: "set (dict_keys (dict_put k v d)) = insert k (set (dict_keys d))"
  by (simp add: dom_map_of_conv_image_fst [symmetric] update_conv')

lemma dict_pop_filter: "dict_pop k d = filter (\<lambda>p. fst p \<noteq> k) d"
  by (auto simp: AList.delete_eq intro: filter_cong)

lemma dict_ok_filter [simp]: "dict_ok d \<Longrightarrow> dict_ok (filter P d)"
  by (induction d) auto

lemma dict_get_in_set: "dict_ok d \<Longrightarrow> (dict_get d k = Some v) = ((k, v) \<in> set d)"
  by simp

text \<open>Lookups stay lookups: the simplifier must not turn them into memberships.\<close>

declare map_of_eq_Some_iff [simp del]

lemma dict_get_filter:
  assumes "dict_ok d"
  shows "dict_get (filter P d) k =
    (case dict_get d k of None \<Rightarrow> None | Some v \<Rightarrow> if P (k, v) then Some v else None)"
  using assms
proof (induction d)
  case Nil
  show ?case by simp
next
  case (Cons p d)
  then have "dict_get d (fst p) = None"
    by (simp add: map_of_eq_None_iff)
  then have "dict_get (filter P d) (fst p) = None"
    by (auto simp: map_of_eq_None_iff)
  then show ?case
    using Cons by (cases p) (auto split: option.splits)
qed

lemma dict_put_new: "dict_get d k = None \<Longrightarrow> dict_put k v d = d @ [(k, v)]"
  by (induction d) auto

lemma dict_put_split:
  "dict_ok (xs @ (k, w) # ys) \<Longrightarrow> dict_put k v (xs @ (k, w) # ys) = xs @ (k, v) # ys"
  by (induction xs) auto

lemma fold_dict_pop: "fold dict_pop ks d = filter (\<lambda>p. fst p \<notin> set ks) d"
proof (induction ks arbitrary: d)
  case Nil
  show ?case by simp
next
  case (Cons k ks)
  have "fold dict_pop (k # ks) d = filter (\<lambda>p. fst p \<notin> set ks) (filter (\<lambda>p. fst p \<noteq> k) d)"
    using Cons by (simp add: dict_pop_filter)
  also have "\<dots> = filter (\<lambda>p. fst p \<notin> set (k # ks)) d"
    by (auto intro: filter_cong)
  finally show ?case .
qed

lemma length_filter_key:
  "dict_ok d \<Longrightarrow> length (filter (\<lambda>p. fst p = k) d) = (if dict_get d k \<noteq> None then 1 else 0)"
  by (induction d) (auto simp: filter_empty_conv map_of_eq_None_iff rev_image_eqI)

lemma dict_filter_keys:
  assumes "dict_ok d"
  shows "(k \<in> set (map fst (filter P d))) = (\<exists>v. dict_get d k = Some v \<and> P (k, v))"
proof
  assume "k \<in> set (map fst (filter P d))"
  then obtain v where "(k, v) \<in> set d" "P (k, v)" by auto
  with assms show "\<exists>v. dict_get d k = Some v \<and> P (k, v)" by auto
next
  assume "\<exists>v. dict_get d k = Some v \<and> P (k, v)"
  then obtain v where v: "dict_get d k = Some v" "P (k, v)" by blast
  then have "(k, v) \<in> set (filter P d)"
    by (auto dest: map_of_SomeD)
  then show "k \<in> set (map fst (filter P d))"
    by (metis fst_conv image_eqI list.set_map)
qed

text \<open>Deleting the keys of the selected entries one by one is filtering them out.\<close>

lemma fold_pop_filter:
  assumes "dict_ok d"
  shows "fold dict_pop (map fst (filter P d)) d = filter (\<lambda>p. \<not> P p) d"
  unfolding fold_dict_pop
proof (rule filter_cong [OF refl])
  fix p
  assume "p \<in> set d"
  then have "dict_get d (fst p) = Some (snd p)" using assms by simp
  then show "(fst p \<notin> set (map fst (filter P d))) = (\<not> P p)"
    unfolding dict_filter_keys [OF assms] by simp
qed

section \<open>Choosing and ordering\<close>

text \<open>
  \<open>max(xs, key=f)\<close> returns the first element with the largest key and raises on an
  empty list; \<open>min\<close> likewise. \<open>list.sort(key=f)\<close> is stable, as \<open>sort_key\<close> is.
\<close>

fun max_by :: "('a \<Rightarrow> 'k::linorder) \<Rightarrow> 'a list \<Rightarrow> 'a option" where
  "max_by f [] = None"
| "max_by f (x # xs) = Some (foldl (\<lambda>b y. if f b < f y then y else b) x xs)"

fun min_by :: "('a \<Rightarrow> 'k::linorder) \<Rightarrow> 'a list \<Rightarrow> 'a option" where
  "min_by f [] = None"
| "min_by f (x # xs) = Some (foldl (\<lambda>b y. if f y < f b then y else b) x xs)"

lemma foldl_max_in: "foldl (\<lambda>b y. if f b < f y then y else b) x xs \<in> insert x (set xs)"
  for f :: "'a \<Rightarrow> 'k::linorder"
proof (induction xs arbitrary: x)
  case Nil
  show ?case by simp
next
  case (Cons y ys)
  have "foldl (\<lambda>b y. if f b < f y then y else b) (if f x < f y then y else x) ys
    \<in> insert (if f x < f y then y else x) (set ys)"
    by (rule Cons.IH)
  then show ?case by (auto split: if_splits)
qed

lemma foldl_max_ge:
  fixes f :: "'a \<Rightarrow> 'k::linorder"
  shows "y \<in> insert x (set xs) \<Longrightarrow> f y \<le> f (foldl (\<lambda>b y. if f b < f y then y else b) x xs)"
proof (induction xs arbitrary: x y)
  case Nil
  then show ?case by simp
next
  case (Cons z zs)
  let ?x' = "if f x < f z then z else x"
  have up: "f w \<le> f (foldl (\<lambda>b y. if f b < f y then y else b) ?x' zs)"
    if "w \<in> insert ?x' (set zs)" for w
    using Cons.IH that by blast
  have "f x \<le> f ?x'" and "f z \<le> f ?x'" by auto
  moreover have "f ?x' \<le> f (foldl (\<lambda>b y. if f b < f y then y else b) ?x' zs)"
    by (rule up) simp
  ultimately have "f x \<le> f (foldl (\<lambda>b y. if f b < f y then y else b) ?x' zs)"
    and "f z \<le> f (foldl (\<lambda>b y. if f b < f y then y else b) ?x' zs)"
    by (blast intro: order_trans)+
  moreover have "y = x \<or> y = z \<or> y \<in> set zs"
    using Cons.prems by simp
  ultimately show ?case
    using up by auto
qed

lemma max_by_in_set: "max_by f xs = Some x \<Longrightarrow> x \<in> set xs"
  using foldl_max_in [of f "hd xs" "tl xs"] by (cases xs) auto

lemma max_by_ge: "max_by f xs = Some x \<Longrightarrow> y \<in> set xs \<Longrightarrow> f y \<le> f x"
  using foldl_max_ge [of y "hd xs" "tl xs" f] by (cases xs) auto

lemma max_by_None [simp]: "(max_by f xs = None) = (xs = [])"
  by (cases xs) auto

lemma foldl_min_in: "foldl (\<lambda>b y. if f y < f b then y else b) x xs \<in> insert x (set xs)"
  for f :: "'a \<Rightarrow> 'k::linorder"
proof (induction xs arbitrary: x)
  case Nil
  show ?case by simp
next
  case (Cons y ys)
  have "foldl (\<lambda>b y. if f y < f b then y else b) (if f y < f x then y else x) ys
    \<in> insert (if f y < f x then y else x) (set ys)"
    by (rule Cons.IH)
  then show ?case by (auto split: if_splits)
qed

lemma foldl_min_le:
  fixes f :: "'a \<Rightarrow> 'k::linorder"
  shows "y \<in> insert x (set xs) \<Longrightarrow> f (foldl (\<lambda>b y. if f y < f b then y else b) x xs) \<le> f y"
proof (induction xs arbitrary: x y)
  case Nil
  then show ?case by simp
next
  case (Cons z zs)
  let ?x' = "if f z < f x then z else x"
  have up: "f (foldl (\<lambda>b y. if f y < f b then y else b) ?x' zs) \<le> f w"
    if "w \<in> insert ?x' (set zs)" for w
    using Cons.IH that by blast
  have "f ?x' \<le> f x" and "f ?x' \<le> f z" by auto
  moreover have "f (foldl (\<lambda>b y. if f y < f b then y else b) ?x' zs) \<le> f ?x'"
    by (rule up) simp
  ultimately have "f (foldl (\<lambda>b y. if f y < f b then y else b) ?x' zs) \<le> f x"
    and "f (foldl (\<lambda>b y. if f y < f b then y else b) ?x' zs) \<le> f z"
    by (blast intro: order_trans)+
  moreover have "y = x \<or> y = z \<or> y \<in> set zs"
    using Cons.prems by simp
  ultimately show ?case
    using up by auto
qed

lemma min_by_in_set: "min_by f xs = Some x \<Longrightarrow> x \<in> set xs"
  using foldl_min_in [of f "hd xs" "tl xs"] by (cases xs) auto

lemma min_by_le: "min_by f xs = Some x \<Longrightarrow> y \<in> set xs \<Longrightarrow> f x \<le> f y"
  using foldl_min_le [of y "hd xs" "tl xs" f] by (cases xs) auto

lemma min_by_None [simp]: "(min_by f xs = None) = (xs = [])"
  by (cases xs) auto

lemma sort_key_empty [simp]: "(sort_key f xs = []) = (xs = [])"
  by (metis length_0_conv length_sort)

lemma hd_sort_key_in: "xs \<noteq> [] \<Longrightarrow> hd (sort_key f xs) \<in> set xs"
  using hd_in_set [of "sort_key f xs"] by simp

section \<open>Text\<close>

definition digit_char :: "nat \<Rightarrow> char" where
  "digit_char n = char_of (48 + n)"

fun nat_str :: "nat \<Rightarrow> string" where
  "nat_str n = (if n < 10 then [digit_char n] else nat_str (n div 10) @ [digit_char (n mod 10)])"

declare nat_str.simps [simp del]

definition int_str :: "int \<Rightarrow> string" where
  "int_str i = (if i < 0 then ''-'' @ nat_str (nat (- i)) else nat_str (nat i))"

definition hex_char :: "nat \<Rightarrow> char" where
  "hex_char n = (if n < 10 then char_of (48 + n) else char_of (87 + n))"

text \<open>
  \<open>repr\<close> of a \<open>str\<close>: the quote is a double quote only when the text has a single
  quote and no double quote; the quote, the backslash and the control characters are
  escaped. Characters are the code points below 256.
\<close>

definition repr_char :: "char \<Rightarrow> char \<Rightarrow> string" where
  "repr_char q c =
     (let n = of_char c :: nat in
      if c = q \<or> n = 92 then [CHR 0x5C, c]
      else if n = 9 then [CHR 0x5C, CHR ''t'']
      else if n = 10 then [CHR 0x5C, CHR ''n'']
      else if n = 13 then [CHR 0x5C, CHR ''r'']
      else if n < 32 \<or> (127 \<le> n \<and> n \<le> 160) \<or> n = 173
        then [CHR 0x5C, CHR ''x'', hex_char (n div 16), hex_char (n mod 16)]
      else [c])"

definition py_repr :: "string \<Rightarrow> string" where
  "py_repr s =
     (let q = (if CHR 0x27 \<in> set s \<and> CHR 0x22 \<notin> set s then CHR 0x22 else CHR 0x27)
      in q # concat (map (repr_char q) s) @ [q])"

text \<open>
  \<open>str.split(sep)\<close> with a one-character separator, \<open>str.strip()\<close> and
  \<open>int(text)\<close> on a string of ASCII digits.
\<close>

fun py_split :: "char \<Rightarrow> string \<Rightarrow> string list" where
  "py_split sep [] = [[]]"
| "py_split sep (c # cs) =
     (if c = sep then [] # py_split sep cs
      else (case py_split sep cs of [] \<Rightarrow> [[c]] | p # ps \<Rightarrow> (c # p) # ps))"

definition is_space :: "char \<Rightarrow> bool" where
  "is_space c = (let n = of_char c :: nat in
     (9 \<le> n \<and> n \<le> 13) \<or> (28 \<le> n \<and> n \<le> 32) \<or> n = 133 \<or> n = 160)"

definition py_strip :: "string \<Rightarrow> string" where
  "py_strip s = rev (dropWhile is_space (rev (dropWhile is_space s)))"

definition is_digit :: "char \<Rightarrow> bool" where
  "is_digit c = (let n = of_char c :: nat in 48 \<le> n \<and> n \<le> 57)"

definition digit_value :: "char \<Rightarrow> int" where
  "digit_value c = int (of_char c) - 48"

definition digits_value :: "string \<Rightarrow> int" where
  "digits_value s = foldl (\<lambda>n c. 10 * n + digit_value c) 0 s"

lemma digit_char_digit: "n < 10 \<Longrightarrow> is_digit (digit_char n) \<and> digit_value (digit_char n) = int n"
  by (simp add: digit_char_def is_digit_def digit_value_def)

lemma nat_str_digits: "list_all is_digit (nat_str n)"
proof (induction n rule: nat_str.induct)
  case (1 n)
  then show ?case
    by (subst nat_str.simps) (simp add: digit_char_digit)
qed

lemma nat_str_nonempty [simp]: "nat_str n \<noteq> []"
  by (subst nat_str.simps) simp

lemma digits_value_snoc: "digits_value (s @ [c]) = 10 * digits_value s + digit_value c"
  by (simp add: digits_value_def)

lemma digits_value_nat_str: "digits_value (nat_str n) = int n"
proof (induction n rule: nat_str.induct)
  case (1 n)
  show ?case
  proof (cases "n < 10")
    case True
    then show ?thesis
      by (subst nat_str.simps) (simp add: digits_value_def digit_char_digit)
  next
    case False
    with 1 have "digits_value (nat_str (n div 10)) = int (n div 10)" by simp
    with False show ?thesis
      by (subst nat_str.simps) (simp add: digits_value_snoc digit_char_digit zdiv_int zmod_int)
  qed
qed

lemma py_split_nonempty [simp]: "py_split sep s \<noteq> []"
  by (cases s) (auto split: list.splits)

lemma py_split_no_sep: "sep \<notin> set s \<Longrightarrow> py_split sep s = [s]"
  by (induction s) auto

lemma py_split_append:
  "sep \<notin> set a \<Longrightarrow> py_split sep (a @ sep # b) = a # py_split sep b"
  by (induction a) auto

lemma py_split_parts: "p \<in> set (py_split sep s) \<Longrightarrow> sep \<notin> set p"
  by (induction s arbitrary: p) (auto split: if_splits list.splits)

text \<open>\<open>a or b\<close> on optional strings: the empty string is falsy.\<close>

definition str_or :: "string option \<Rightarrow> string \<Rightarrow> string" where
  "str_or a b = (case a of None \<Rightarrow> b | Some s \<Rightarrow> if s = [] then b else s)"

definition truthy :: "string option \<Rightarrow> bool" where
  "truthy a = (case a of None \<Rightarrow> False | Some s \<Rightarrow> s \<noteq> [])"

section \<open>Methods that change state and may raise\<close>

type_synonym ('s, 'e, 'a) exec = "'s \<Rightarrow> ('e + 'a) \<times> 's"

definition returnE :: "'a \<Rightarrow> ('s, 'e, 'a) exec" where
  "returnE x s = (Inr x, s)"

definition raiseE :: "'e \<Rightarrow> ('s, 'e, 'a) exec" where
  "raiseE e s = (Inl e, s)"

definition bindE :: "('s, 'e, 'a) exec \<Rightarrow> ('a \<Rightarrow> ('s, 'e, 'b) exec) \<Rightarrow> ('s, 'e, 'b) exec" where
  "bindE m k s = (case m s of (Inl e, t) \<Rightarrow> (Inl e, t) | (Inr x, t) \<Rightarrow> k x t)"

definition thenE :: "('s, 'e, unit) exec \<Rightarrow> ('s, 'e, 'b) exec \<Rightarrow> ('s, 'e, 'b) exec" where
  "thenE m k = bindE m (\<lambda>_. k)"

definition getE :: "('s \<Rightarrow> 'a) \<Rightarrow> ('s, 'e, 'a) exec" where
  "getE f s = (Inr (f s), s)"

definition modifyE :: "('s \<Rightarrow> 's) \<Rightarrow> ('s, 'e, unit) exec" where
  "modifyE f s = (Inr (), f s)"

definition whenE :: "bool \<Rightarrow> ('s, 'e, unit) exec \<Rightarrow> ('s, 'e, unit) exec" where
  "whenE b m = (if b then m else returnE ())"

definition liftE :: "'e + 'a \<Rightarrow> ('s, 'e, 'a) exec" where
  "liftE r s = (r, s)"

text \<open>\<open>try: m except E: h\<close>, where \<open>h\<close> says which errors it handles.\<close>

definition catchE :: "('s, 'e, 'a) exec \<Rightarrow> ('e \<Rightarrow> ('s, 'e, 'a) exec option) \<Rightarrow> ('s, 'e, 'a) exec" where
  "catchE m h s = (case m s of
       (Inl e, t) \<Rightarrow> (case h e of None \<Rightarrow> (Inl e, t) | Some r \<Rightarrow> r t)
     | (Inr x, t) \<Rightarrow> (Inr x, t))"

text \<open>\<open>for x in xs: body\<close>.\<close>

fun forE :: "'a list \<Rightarrow> ('a \<Rightarrow> ('s, 'e, unit) exec) \<Rightarrow> ('s, 'e, unit) exec" where
  "forE [] f = returnE ()"
| "forE (x # xs) f = thenE (f x) (forE xs f)"

text \<open>A call on a collaborator that owns one field of the caller's state.\<close>

definition zoomE :: "('s \<Rightarrow> 't) \<Rightarrow> ('t \<Rightarrow> 's \<Rightarrow> 's) \<Rightarrow> ('d \<Rightarrow> 'e) \<Rightarrow> ('t, 'd, 'a) exec \<Rightarrow> ('s, 'e, 'a) exec" where
  "zoomE get put err m s = (case m (get s) of
       (Inl d, t) \<Rightarrow> (Inl (err d), put t s)
     | (Inr x, t) \<Rightarrow> (Inr x, put t s))"

section \<open>Weakest preconditions\<close>

definition wp :: "('s, 'e, 'a) exec \<Rightarrow> ('a \<Rightarrow> 's \<Rightarrow> bool) \<Rightarrow> ('e \<Rightarrow> 's \<Rightarrow> bool) \<Rightarrow> 's \<Rightarrow> bool" where
  "wp m Q E s = (case m s of (Inl e, t) \<Rightarrow> E e t | (Inr x, t) \<Rightarrow> Q x t)"

named_theorems wps \<open>weakest preconditions of the computations\<close>

lemma wp_return [wps]: "wp (returnE x) Q E s = Q x s"
  by (simp add: wp_def returnE_def)

lemma wp_raise [wps]: "wp (raiseE e) Q E s = E e s"
  by (simp add: wp_def raiseE_def)

lemma wp_bind [wps]: "wp (bindE m k) Q E s = wp m (\<lambda>x. wp (k x) Q E) E s"
  by (simp add: wp_def bindE_def split: prod.splits sum.splits)

lemma wp_then [wps]: "wp (thenE m k) Q E s = wp m (\<lambda>_. wp k Q E) E s"
  by (simp add: thenE_def wp_bind)

lemma wp_get [wps]: "wp (getE f) Q E s = Q (f s) s"
  by (simp add: wp_def getE_def)

lemma wp_modify [wps]: "wp (modifyE f) Q E s = Q () (f s)"
  by (simp add: wp_def modifyE_def)

lemma wp_when [wps]: "wp (whenE b m) Q E s = (if b then wp m Q E s else Q () s)"
  by (simp add: whenE_def wp_return)

lemma wp_lift [wps]: "wp (liftE r) Q E s = (case r of Inl e \<Rightarrow> E e s | Inr x \<Rightarrow> Q x s)"
  by (simp add: wp_def liftE_def)

lemma wp_if [wps]: "wp (if b then m else n) Q E s = (if b then wp m Q E s else wp n Q E s)"
  by simp

lemma wp_option [wps]:
  "wp (case x of None \<Rightarrow> m | Some y \<Rightarrow> n y) Q E s =
     (case x of None \<Rightarrow> wp m Q E s | Some y \<Rightarrow> wp (n y) Q E s)"
  by (simp split: option.splits)

text \<open>The same rules without the state, which rewrite the continuations of a computation too.\<close>

named_theorems wpf \<open>weakest preconditions as predicate transformers\<close>

lemma wpf_return [wpf]: "wp (returnE x) Q E = Q x"
  by (rule ext) (rule wp_return)

lemma wpf_raise [wpf]: "wp (raiseE e) Q E = E e"
  by (rule ext) (rule wp_raise)

lemma wpf_bind [wpf]: "wp (bindE m k) Q E = wp m (\<lambda>x. wp (k x) Q E) E"
  by (rule ext) (rule wp_bind)

lemma wpf_then [wpf]: "wp (thenE m k) Q E = wp m (\<lambda>_. wp k Q E) E"
  by (rule ext) (rule wp_then)

lemma wpf_get [wpf]: "wp (getE f) Q E = (\<lambda>s. Q (f s) s)"
  by (rule ext) (rule wp_get)

lemma wpf_modify [wpf]: "wp (modifyE f) Q E = (\<lambda>s. Q () (f s))"
  by (rule ext) (rule wp_modify)

lemma wpf_when [wpf]: "wp (whenE b m) Q E = (if b then wp m Q E else Q ())"
  by (rule ext) (simp add: wp_when)

lemma wpf_lift [wpf]: "wp (liftE r) Q E = (case r of Inl e \<Rightarrow> E e | Inr x \<Rightarrow> Q x)"
  by (rule ext) (simp add: wp_lift split: sum.split)

lemma wpf_if [wpf]: "wp (if b then m else n) Q E = (if b then wp m Q E else wp n Q E)"
  by simp

lemma wpf_option [wpf]:
  "wp (case x of None \<Rightarrow> m | Some y \<Rightarrow> n y) Q E = (case x of None \<Rightarrow> wp m Q E | Some y \<Rightarrow> wp (n y) Q E)"
  by (simp split: option.split)

lemma wpf_sum [wpf]:
  "wp (case x of Inl e \<Rightarrow> f e | Inr y \<Rightarrow> g y) Q E = (case x of Inl e \<Rightarrow> wp (f e) Q E | Inr y \<Rightarrow> wp (g y) Q E)"
  by (simp split: sum.split)

lemma wp_zoom:
  "wp (zoomE get put err m) Q E s = wp m (\<lambda>x t. Q x (put t s)) (\<lambda>d t. E (err d) (put t s)) (get s)"
  by (simp add: wp_def zoomE_def split: prod.splits sum.splits)

lemma wp_catch:
  "wp (catchE m h) Q E s = wp m Q (\<lambda>e t. case h e of None \<Rightarrow> E e t | Some r \<Rightarrow> wp r Q E t) s"
  by (simp add: wp_def catchE_def split: prod.splits sum.splits option.splits)

lemma wp_conseq:
  "wp m Q E s \<Longrightarrow> (\<And>x t. Q x t \<Longrightarrow> Q' x t) \<Longrightarrow> (\<And>e t. E e t \<Longrightarrow> E' e t) \<Longrightarrow> wp m Q' E' s"
  by (auto simp: wp_def split: prod.splits sum.splits)

lemma wp_conj: "wp m Q E s \<Longrightarrow> wp m Q' E' s \<Longrightarrow> wp m (\<lambda>x t. Q x t \<and> Q' x t) (\<lambda>e t. E e t \<and> E' e t) s"
  by (auto simp: wp_def split: prod.splits sum.splits)

lemma wp_value: "m s = (Inr x, t) \<Longrightarrow> wp m Q E s = Q x t"
  by (simp add: wp_def)

lemma wp_result: "wp m Q E s \<Longrightarrow> m s = (Inr x, t) \<Longrightarrow> Q x t"
  by (simp add: wp_def)

lemma wp_error: "wp m Q E s \<Longrightarrow> m s = (Inl e, t) \<Longrightarrow> E e t"
  by (simp add: wp_def)

section \<open>Relations every step keeps\<close>

text \<open>
  \<open>steps R m\<close>: whatever \<open>m\<close> does, returning or raising, its final state is related to
  the initial one. With a reflexive and transitive \<open>R\<close> it is compositional, which gives
  frame properties (\<open>R s t = (f t = f s)\<close>) and invariants (\<open>R s t = (I s \<longrightarrow> I t)\<close>).
\<close>

definition steps :: "('s \<Rightarrow> 's \<Rightarrow> bool) \<Rightarrow> ('s, 'e, 'a) exec \<Rightarrow> bool" where
  "steps R m = (\<forall>s. R s (snd (m s)))"

abbreviation keeps :: "('s \<Rightarrow> 'b) \<Rightarrow> ('s, 'e, 'a) exec \<Rightarrow> bool" where
  "keeps f \<equiv> steps (\<lambda>s t. f t = f s)"

abbreviation preserves :: "('s \<Rightarrow> bool) \<Rightarrow> ('s, 'e, 'a) exec \<Rightarrow> bool" where
  "preserves I \<equiv> steps (\<lambda>s t. I s \<longrightarrow> I t)"

named_theorems stepsI \<open>composition rules for relations every step keeps\<close>

lemma stepsD: "steps R m \<Longrightarrow> m s = (r, t) \<Longrightarrow> R s t"
  unfolding steps_def by (metis snd_conv)

lemma steps_return [stepsI]: "reflp R \<Longrightarrow> steps R (returnE x)"
  by (simp add: steps_def returnE_def reflp_def)

lemma steps_raise [stepsI]: "reflp R \<Longrightarrow> steps R (raiseE e)"
  by (simp add: steps_def raiseE_def reflp_def)

lemma steps_get [stepsI]: "reflp R \<Longrightarrow> steps R (getE f)"
  by (simp add: steps_def getE_def reflp_def)

lemma steps_modify: "(\<And>s. R s (f s)) \<Longrightarrow> steps R (modifyE f)"
  by (simp add: steps_def modifyE_def)

lemma steps_lift [stepsI]: "reflp R \<Longrightarrow> steps R (liftE r)"
  by (simp add: steps_def liftE_def reflp_def)

lemma steps_bind:
  assumes "transp R" and "steps R m" and "\<And>x. steps R (k x)"
  shows "steps R (bindE m k)"
  unfolding steps_def
proof
  fix s
  show "R s (snd (bindE m k s))"
  proof (cases "m s")
    case (Pair r t)
    with assms(2) have st: "R s t" by (rule stepsD)
    show ?thesis
    proof (cases r)
      case (Inl e)
      with Pair st show ?thesis by (simp add: bindE_def)
    next
      case (Inr x)
      from assms(3) have "R t (snd (k x t))" by (simp add: steps_def)
      with st assms(1) have "R s (snd (k x t))" by (blast dest: transpD)
      with Pair Inr show ?thesis by (simp add: bindE_def)
    qed
  qed
qed

lemma steps_then:
  "transp R \<Longrightarrow> steps R m \<Longrightarrow> steps R k \<Longrightarrow> steps R (thenE m k)"
  unfolding thenE_def by (rule steps_bind)

lemma steps_when: "reflp R \<Longrightarrow> (b \<Longrightarrow> steps R m) \<Longrightarrow> steps R (whenE b m)"
  by (simp add: whenE_def steps_return)

lemma steps_catch:
  assumes "transp R" and "steps R m" and "\<And>e r. h e = Some r \<Longrightarrow> steps R r"
  shows "steps R (catchE m h)"
  unfolding steps_def
proof
  fix s
  show "R s (snd (catchE m h s))"
  proof (cases "m s")
    case (Pair r t)
    with assms(2) have st: "R s t" by (rule stepsD)
    show ?thesis
    proof (cases r)
      case (Inr x)
      with Pair st show ?thesis by (simp add: catchE_def)
    next
      case (Inl e)
      show ?thesis
      proof (cases "h e")
        case None
        with Pair Inl st show ?thesis by (simp add: catchE_def)
      next
        case (Some k)
        with assms(3) have "R t (snd (k t))" by (auto simp: steps_def)
        with st assms(1) have "R s (snd (k t))" by (blast dest: transpD)
        with Pair Inl Some show ?thesis by (simp add: catchE_def)
      qed
    qed
  qed
qed

lemma steps_for:
  "reflp R \<Longrightarrow> transp R \<Longrightarrow> (\<And>x. x \<in> set xs \<Longrightarrow> steps R (f x)) \<Longrightarrow> steps R (forE xs f)"
  by (induction xs) (auto intro: steps_return steps_then)

lemma steps_zoom:
  "(\<And>s t. (\<exists>r. m (get s) = (r, t)) \<Longrightarrow> R s (put t s)) \<Longrightarrow> steps R (zoomE get put err m)"
  by (auto simp: steps_def zoomE_def split: prod.splits sum.splits)

lemma reflp_keeps [simp, intro]: "reflp (\<lambda>s t. f t = f s)"
  by (simp add: reflp_def)

lemma transp_keeps [simp, intro]: "transp (\<lambda>s t. f t = f s)"
  by (simp add: transp_def)

lemma reflp_preserves [simp, intro]: "reflp (\<lambda>s t. I s \<longrightarrow> I t)"
  by (simp add: reflp_def)

lemma transp_preserves [simp, intro]: "transp (\<lambda>s t. I s \<longrightarrow> I t)"
  by (simp add: transp_def)

lemma steps_if: "(b \<Longrightarrow> steps R m) \<Longrightarrow> (\<not> b \<Longrightarrow> steps R n) \<Longrightarrow> steps R (if b then m else n)"
  by simp

lemma steps_option:
  "(x = None \<Longrightarrow> steps R m) \<Longrightarrow> (\<And>y. x = Some y \<Longrightarrow> steps R (n y)) \<Longrightarrow>
   steps R (case x of None \<Rightarrow> m | Some y \<Rightarrow> n y)"
  by (cases x) auto

lemma steps_sum:
  "(\<And>e. x = Inl e \<Longrightarrow> steps R (f e)) \<Longrightarrow> (\<And>y. x = Inr y \<Longrightarrow> steps R (g y)) \<Longrightarrow>
   steps R (case x of Inl e \<Rightarrow> f e | Inr y \<Rightarrow> g y)"
  by (cases x) auto

lemma steps_wpI:
  assumes "\<And>s. wp m (\<lambda>_. R s) (\<lambda>_. R s) s"
  shows "steps R m"
  unfolding steps_def
proof
  fix s
  show "R s (snd (m s))"
    using assms [of s] unfolding wp_def by (cases "m s"; cases "fst (m s)") auto
qed

lemma wp_sum [wps]:
  "wp (case x of Inl e \<Rightarrow> f e | Inr y \<Rightarrow> g y) Q E s = (case x of Inl e \<Rightarrow> wp (f e) Q E s | Inr y \<Rightarrow> wp (g y) Q E s)"
  by (simp split: sum.splits)

lemma steps_conseq: "steps R m \<Longrightarrow> (\<And>s t. R s t \<Longrightarrow> R' s t) \<Longrightarrow> steps R' m"
  by (auto simp: steps_def)

end
