(* ===== verification/Tenancy.thy ===== *)
theory Tenancy
  imports HP_Prelude
begin

text \<open>
  The tenant context every store and service call carries (\<open>tenancy/context.py\<close>,
  \<open>tenancy/models.py\<close>), the in-memory tenant store (\<open>tenancy/store.py\<close>) and the tenant
  lifecycle service (\<open>tenancy/admin.py\<close>). The locale \<open>scoped_store\<close> is the
  contract the tenant-scoped stores share: reads see in-scope values only, writes outside the
  scope fail, and a write under one tenant never changes what another tenant reads.
\<close>

section \<open>Contexts\<close>

datatype role = ADMIN | APPROVER | VIEWER

record tenant_context =
  tc_tenant_id :: string
  tc_team_id :: "string option"
  tc_operator_id :: "string option"
  tc_role :: role
  tc_attribution_key :: "string option"
  tc_is_system :: bool

datatype tenancy_error =
    TenantScopeError string string
  | TenantNotFoundError string
  | TenantAlreadyExistsError string
  | TenantSuspendedError string

definition DEFAULT_TENANT_ID :: string where
  "DEFAULT_TENANT_ID = ''default''"

definition scopes :: "tenant_context \<Rightarrow> string \<Rightarrow> bool" where
  "scopes ctx tenant_id = (tc_is_system ctx \<or> tc_tenant_id ctx = tenant_id)"

definition require :: "tenant_context \<Rightarrow> string \<Rightarrow> tenancy_error + unit" where
  "require ctx tenant_id =
     (if \<not> scopes ctx tenant_id
      then Inl (TenantScopeError (tc_tenant_id ctx) (''cannot access tenant '' @ py_repr tenant_id))
      else Inr ())"

definition SYSTEM_CONTEXT :: tenant_context where
  "SYSTEM_CONTEXT = \<lparr>tc_tenant_id = ''system'', tc_team_id = None, tc_operator_id = None,
     tc_role = ADMIN, tc_attribution_key = None, tc_is_system = True\<rparr>"

definition DEFAULT_CONTEXT :: tenant_context where
  "DEFAULT_CONTEXT = \<lparr>tc_tenant_id = DEFAULT_TENANT_ID, tc_team_id = Some ''default'',
     tc_operator_id = None, tc_role = ADMIN, tc_attribution_key = Some ''default'',
     tc_is_system = False\<rparr>"

definition context_for_run :: "string \<Rightarrow> string option \<Rightarrow> string option \<Rightarrow> tenant_context" where
  "context_for_run tenant_id team_id attribution_key =
     \<lparr>tc_tenant_id = tenant_id, tc_team_id = team_id, tc_operator_id = None, tc_role = ADMIN,
      tc_attribution_key = attribution_key, tc_is_system = False\<rparr>"

lemma scopes_context_for_run [simp]: "scopes (context_for_run t team key) t' = (t = t')"
  by (simp add: scopes_def context_for_run_def)

lemma tenant_context_for_run [simp]:
  "tc_tenant_id (context_for_run t team key) = t"
  "tc_is_system (context_for_run t team key) = False"
  by (simp_all add: context_for_run_def)

lemma scopes_system [simp]: "scopes SYSTEM_CONTEXT t"
  by (simp add: scopes_def SYSTEM_CONTEXT_def)

lemma require_Inr [simp]: "(require ctx t = Inr u) = scopes ctx t"
  by (simp add: require_def)

lemma require_Inl: "(\<exists>e. require ctx t = Inl e) = (\<not> scopes ctx t)"
  by (simp add: require_def)

text \<open>A tenant's own context sees exactly the rows of that tenant.\<close>

lemma scopes_own: "\<not> tc_is_system ctx \<Longrightarrow> scopes ctx t = (tc_tenant_id ctx = t)"
  by (simp add: scopes_def)

section \<open>The contract of a tenant-scoped store\<close>

text \<open>
  \<open>put\<close> stores a value under the acting context or raises; \<open>get\<close> looks a key up in the
  scope of the acting context; \<open>owner\<close> is the tenant a value is tagged with and \<open>ok\<close> the
  store's own invariant.
\<close>

locale scoped_store =
  fixes ok :: "'st \<Rightarrow> bool"
    and get :: "'st \<Rightarrow> tenant_context \<Rightarrow> 'k \<Rightarrow> 'v option"
    and put :: "'st \<Rightarrow> tenant_context \<Rightarrow> 'v \<Rightarrow> 'e + 'st"
    and key :: "'v \<Rightarrow> 'k"
    and owner :: "'v \<Rightarrow> string"
  assumes get_scoped: "ok st \<Longrightarrow> get st ctx k = Some v \<Longrightarrow> scopes ctx (owner v)"
    and put_scoped: "put st ctx v = Inr st' \<Longrightarrow> scopes ctx (owner v)"
    and put_ok: "ok st \<Longrightarrow> put st ctx v = Inr st' \<Longrightarrow> ok st'"
    and put_get: "ok st \<Longrightarrow> put st ctx v = Inr st' \<Longrightarrow>
        get st' (context_for_run (owner v) team attr) (key v) = Some v"
    and put_other: "ok st \<Longrightarrow> put st ctx v = Inr st' \<Longrightarrow> \<not> tc_is_system rctx \<Longrightarrow>
        tc_tenant_id rctx \<noteq> owner v \<or> k \<noteq> key v \<Longrightarrow> get st' rctx k = get st rctx k"
begin

text \<open>A sequence of writes, each under its own context; a write that raises changes nothing.\<close>

fun writes :: "'st \<Rightarrow> (tenant_context \<times> 'v) list \<Rightarrow> 'st" where
  "writes st [] = st"
| "writes st ((ctx, v) # ws) = (case put st ctx v of Inl _ \<Rightarrow> writes st ws | Inr st' \<Rightarrow> writes st' ws)"

lemma writes_ok: "ok st \<Longrightarrow> ok (writes st ws)"
proof (induction ws arbitrary: st)
  case Nil
  then show ?case by simp
next
  case (Cons w ws)
  then show ?case
    by (cases w) (auto split: sum.splits intro: put_ok)
qed

text \<open>
  Isolation: whatever contexts of other tenants write, in any order and any number, a
  tenant's reads are unchanged.
\<close>

lemma writes_isolated:
  assumes "ok st" and "\<not> tc_is_system rctx"
    and "\<forall>w \<in> set ws. \<not> scopes (fst w) (tc_tenant_id rctx)"
  shows "get (writes st ws) rctx k = get st rctx k"
  using assms(1,3)
proof (induction ws arbitrary: st)
  case Nil
  then show ?case by simp
next
  case (Cons w ws)
  obtain ctx v where w: "w = (ctx, v)" by (cases w)
  show ?case
  proof (cases "put st ctx v")
    case (Inl e)
    with Cons w show ?thesis by simp
  next
    case (Inr st')
    have "owner v \<noteq> tc_tenant_id rctx"
      using put_scoped [OF Inr] Cons.prems(2) w by auto
    then have "get st' rctx k = get st rctx k"
      using put_other [OF Cons.prems(1) Inr assms(2)] by auto
    moreover have "get (writes st' ws) rctx k = get st' rctx k"
      using Cons.IH [of st'] put_ok [OF Cons.prems(1) Inr] Cons.prems(2) by auto
    ultimately show ?thesis using w Inr by simp
  qed
qed

end

section \<open>Tenants, teams and memberships\<close>

datatype tenant_status = ACTIVE | SUSPENDED

record tenant_quota =
  max_agents :: "int option"
  max_monthly_usd :: "usd option"
  max_concurrent_runs :: "int option"

record tenant =
  tn_tenant_id :: string
  tn_name :: string
  tn_created_at :: time
  tn_status :: tenant_status
  tn_quota :: tenant_quota

record team =
  tm_team_id :: string
  tm_tenant_id :: string
  tm_name :: string
  tm_attribution_key :: string
  tm_created_at :: time

record membership =
  mb_membership_id :: string
  mb_tenant_id :: string
  mb_team_id :: "string option"
  mb_operator_id :: string
  mb_role :: role
  mb_created_at :: time

record tenant_store =
  ts_tenants :: "(string, tenant) dict"
  ts_teams :: "(string \<times> string, team) dict"
  ts_memberships :: "(string, membership) dict"

definition save_tenant :: "tenant_store \<Rightarrow> tenant_context \<Rightarrow> tenant \<Rightarrow> tenancy_error + tenant_store" where
  "save_tenant st ctx t = (case require ctx (tn_tenant_id t) of
       Inl e \<Rightarrow> Inl e
     | Inr _ \<Rightarrow> Inr (st\<lparr>ts_tenants := dict_put (tn_tenant_id t) t (ts_tenants st)\<rparr>))"

definition get_tenant :: "tenant_store \<Rightarrow> tenant_context \<Rightarrow> string \<Rightarrow> tenant option" where
  "get_tenant st ctx tenant_id =
     (if \<not> scopes ctx tenant_id then None else dict_get (ts_tenants st) tenant_id)"

definition list_tenants :: "tenant_store \<Rightarrow> tenant_context \<Rightarrow> tenant list" where
  "list_tenants st ctx = sort_key tn_tenant_id
     (if tc_is_system ctx then dict_values (ts_tenants st)
      else filter (\<lambda>t. scopes ctx (tn_tenant_id t)) (dict_values (ts_tenants st)))"

definition set_status ::
  "tenant_store \<Rightarrow> tenant_context \<Rightarrow> string \<Rightarrow> tenant_status \<Rightarrow> tenancy_error + (tenant_store \<times> tenant)" where
  "set_status st ctx tenant_id status = (case require ctx tenant_id of
       Inl e \<Rightarrow> Inl e
     | Inr _ \<Rightarrow> (case dict_get (ts_tenants st) tenant_id of
           None \<Rightarrow> Inl (TenantNotFoundError tenant_id)
         | Some t \<Rightarrow> (let updated = t\<lparr>tn_status := status\<rparr> in
             Inr (st\<lparr>ts_tenants := dict_put tenant_id updated (ts_tenants st)\<rparr>, updated))))"

definition set_quota ::
  "tenant_store \<Rightarrow> tenant_context \<Rightarrow> string \<Rightarrow> tenant_quota \<Rightarrow> tenancy_error + (tenant_store \<times> tenant)" where
  "set_quota st ctx tenant_id quota = (case require ctx tenant_id of
       Inl e \<Rightarrow> Inl e
     | Inr _ \<Rightarrow> (case dict_get (ts_tenants st) tenant_id of
           None \<Rightarrow> Inl (TenantNotFoundError tenant_id)
         | Some t \<Rightarrow> (let updated = t\<lparr>tn_quota := quota\<rparr> in
             Inr (st\<lparr>ts_tenants := dict_put tenant_id updated (ts_tenants st)\<rparr>, updated))))"

definition save_team :: "tenant_store \<Rightarrow> tenant_context \<Rightarrow> team \<Rightarrow> tenancy_error + tenant_store" where
  "save_team st ctx t = (case require ctx (tm_tenant_id t) of
       Inl e \<Rightarrow> Inl e
     | Inr _ \<Rightarrow>
         (if dict_get (ts_tenants st) (tm_tenant_id t) = None
          then Inl (TenantNotFoundError (tm_tenant_id t))
          else Inr (st\<lparr>ts_teams := dict_put (tm_tenant_id t, tm_team_id t) t (ts_teams st)\<rparr>)))"

definition get_team :: "tenant_store \<Rightarrow> tenant_context \<Rightarrow> string \<Rightarrow> string \<Rightarrow> team option" where
  "get_team st ctx tenant_id team_id =
     (if \<not> scopes ctx tenant_id then None else dict_get (ts_teams st) (tenant_id, team_id))"

definition list_teams :: "tenant_store \<Rightarrow> tenant_context \<Rightarrow> string \<Rightarrow> team list" where
  "list_teams st ctx tenant_id =
     (if \<not> scopes ctx tenant_id then []
      else sort_key tm_team_id (map snd (filter (\<lambda>((tid, _), t). tid = tenant_id) (ts_teams st))))"

definition save_membership :: "tenant_store \<Rightarrow> tenant_context \<Rightarrow> membership \<Rightarrow> tenancy_error + tenant_store" where
  "save_membership st ctx m = (case require ctx (mb_tenant_id m) of
       Inl e \<Rightarrow> Inl e
     | Inr _ \<Rightarrow>
         (if dict_get (ts_tenants st) (mb_tenant_id m) = None
          then Inl (TenantNotFoundError (mb_tenant_id m))
          else Inr (st\<lparr>ts_memberships := dict_put (mb_membership_id m) m (ts_memberships st)\<rparr>)))"

definition get_membership :: "tenant_store \<Rightarrow> tenant_context \<Rightarrow> string \<Rightarrow> membership option" where
  "get_membership st ctx mid = (case dict_get (ts_memberships st) mid of
       None \<Rightarrow> None
     | Some m \<Rightarrow> if \<not> scopes ctx (mb_tenant_id m) then None else Some m)"

definition list_memberships :: "tenant_store \<Rightarrow> tenant_context \<Rightarrow> string \<Rightarrow> membership list" where
  "list_memberships st ctx tenant_id =
     (if \<not> scopes ctx tenant_id then []
      else sort_key mb_membership_id
        (filter (\<lambda>m. mb_tenant_id m = tenant_id) (dict_values (ts_memberships st))))"

definition find_membership :: "tenant_store \<Rightarrow> tenant_context \<Rightarrow> string \<Rightarrow> string \<Rightarrow> membership option" where
  "find_membership st ctx tenant_id operator_id =
     (if \<not> scopes ctx tenant_id then None
      else (case sort_key mb_membership_id
              (filter (\<lambda>m. mb_tenant_id m = tenant_id \<and> mb_operator_id m = operator_id)
                (dict_values (ts_memberships st))) of
             [] \<Rightarrow> None
           | m # _ \<Rightarrow> Some m))"

definition purge_tenant :: "tenant_store \<Rightarrow> tenant_context \<Rightarrow> string \<Rightarrow> tenancy_error + (tenant_store \<times> nat)" where
  "purge_tenant st ctx tenant_id = (case require ctx tenant_id of
       Inl e \<Rightarrow> Inl e
     | Inr _ \<Rightarrow>
         (let team_keys = filter (\<lambda>k. fst k = tenant_id) (dict_keys (ts_teams st));
              membership_ids = map fst (filter (\<lambda>(_, m). mb_tenant_id m = tenant_id) (ts_memberships st));
              existed = dict_get (ts_tenants st) tenant_id
          in Inr (st\<lparr>ts_teams := fold dict_pop team_keys (ts_teams st),
                    ts_memberships := fold dict_pop membership_ids (ts_memberships st),
                    ts_tenants := dict_pop tenant_id (ts_tenants st)\<rparr>,
                  (if existed \<noteq> None then 1 else 0) + length team_keys + length membership_ids)))"

subsection \<open>Tenant lifecycle\<close>

text \<open>\<open>trusted_local\<close> is the service's configuration flag for a plane without authentication.\<close>

definition require_system :: "tenant_context \<Rightarrow> bool \<Rightarrow> tenancy_error + unit" where
  "require_system ctx trusted_local =
     (if \<not> (tc_is_system ctx \<or> trusted_local)
      then Inl (TenantScopeError (tc_tenant_id ctx) ''creating a tenant requires the system context'')
      else Inr ())"

definition admin_ctx :: "bool \<Rightarrow> tenant_context \<Rightarrow> string \<Rightarrow> tenancy_error + tenant_context" where
  "admin_ctx trusted_local ctx tenant_id =
     (if tc_is_system ctx \<or> trusted_local then Inr SYSTEM_CONTEXT
      else if tc_role ctx = ADMIN \<and> tc_tenant_id ctx = tenant_id then Inr ctx
      else Inl (TenantScopeError (tc_tenant_id ctx) (''cannot administer tenant '' @ py_repr tenant_id)))"

definition create_tenant ::
  "bool \<Rightarrow> time \<Rightarrow> tenant_store \<Rightarrow> tenant_context \<Rightarrow> string \<Rightarrow> string \<Rightarrow> tenant_quota option \<Rightarrow>
   tenancy_error + (tenant_store \<times> tenant)" where
  "create_tenant trusted_local now st ctx tenant_id name quota =
     (case require_system ctx trusted_local of
        Inl e \<Rightarrow> Inl e
      | Inr _ \<Rightarrow>
          (if get_tenant st SYSTEM_CONTEXT tenant_id \<noteq> None
           then Inl (TenantAlreadyExistsError tenant_id)
           else
             (let t = \<lparr>tn_tenant_id = tenant_id, tn_name = name, tn_created_at = now,
                       tn_status = ACTIVE,
                       tn_quota = (case quota of Some q \<Rightarrow> q
                         | None \<Rightarrow> \<lparr>max_agents = None, max_monthly_usd = None,
                                    max_concurrent_runs = None\<rparr>)\<rparr>
              in case save_tenant st SYSTEM_CONTEXT t of
                   Inl e \<Rightarrow> Inl e
                 | Inr st' \<Rightarrow> Inr (st', t))))"

definition suspend_tenant ::
  "bool \<Rightarrow> tenant_store \<Rightarrow> tenant_context \<Rightarrow> string \<Rightarrow> tenancy_error + (tenant_store \<times> tenant)" where
  "suspend_tenant trusted_local st ctx tenant_id = (case admin_ctx trusted_local ctx tenant_id of
       Inl e \<Rightarrow> Inl e
     | Inr write_ctx \<Rightarrow> set_status st write_ctx tenant_id SUSPENDED)"

definition reinstate_tenant ::
  "bool \<Rightarrow> tenant_store \<Rightarrow> tenant_context \<Rightarrow> string \<Rightarrow> tenancy_error + (tenant_store \<times> tenant)" where
  "reinstate_tenant trusted_local st ctx tenant_id = (case admin_ctx trusted_local ctx tenant_id of
       Inl e \<Rightarrow> Inl e
     | Inr write_ctx \<Rightarrow> set_status st write_ctx tenant_id ACTIVE)"

definition admin_set_quota ::
  "bool \<Rightarrow> tenant_store \<Rightarrow> tenant_context \<Rightarrow> string \<Rightarrow> tenant_quota \<Rightarrow>
   tenancy_error + (tenant_store \<times> tenant)" where
  "admin_set_quota trusted_local st ctx tenant_id quota = (case admin_ctx trusted_local ctx tenant_id of
       Inl e \<Rightarrow> Inl e
     | Inr write_ctx \<Rightarrow> set_quota st write_ctx tenant_id quota)"

definition require_active ::
  "tenant_store \<Rightarrow> tenant_context \<Rightarrow> string \<Rightarrow> tenancy_error + tenant" where
  "require_active st ctx tenant_id = (case get_tenant st SYSTEM_CONTEXT tenant_id of
       None \<Rightarrow> Inl (TenantNotFoundError tenant_id)
     | Some t \<Rightarrow>
         (if tn_status t \<noteq> ACTIVE \<and> \<not> tc_is_system ctx then Inl (TenantSuspendedError tenant_id)
          else Inr t))"

section \<open>The tenant store implements the contract\<close>

definition tenant_store_ok :: "tenant_store \<Rightarrow> bool" where
  "tenant_store_ok st \<longleftrightarrow>
     (\<forall>k t. dict_get (ts_tenants st) k = Some t \<longrightarrow> tn_tenant_id t = k)"

interpretation tenants: scoped_store tenant_store_ok get_tenant save_tenant tn_tenant_id tn_tenant_id
proof unfold_locales
  fix st :: tenant_store and ctx k v
  assume "tenant_store_ok st" and "get_tenant st ctx k = Some v"
  then show "scopes ctx (tn_tenant_id v)"
    by (auto simp: tenant_store_ok_def get_tenant_def split: if_splits)
next
  fix st st' :: tenant_store and ctx v
  assume "save_tenant st ctx v = Inr st'"
  then show "scopes ctx (tn_tenant_id v)"
    by (auto simp: save_tenant_def split: sum.splits)
next
  fix st st' :: tenant_store and ctx v
  assume "tenant_store_ok st" and "save_tenant st ctx v = Inr st'"
  then show "tenant_store_ok st'"
    by (auto simp: tenant_store_ok_def save_tenant_def split: sum.splits if_splits)
next
  fix st st' :: tenant_store and ctx v team attr
  assume "save_tenant st ctx v = Inr st'"
  then show "get_tenant st' (context_for_run (tn_tenant_id v) team attr) (tn_tenant_id v) = Some v"
    by (auto simp: get_tenant_def save_tenant_def split: sum.splits)
next
  fix st st' :: tenant_store and ctx rctx :: tenant_context and v k
  assume "save_tenant st ctx v = Inr st'" "\<not> tc_is_system rctx"
    "tc_tenant_id rctx \<noteq> tn_tenant_id v \<or> k \<noteq> tn_tenant_id v"
  then show "get_tenant st' rctx k = get_tenant st rctx k"
    by (auto simp: get_tenant_def save_tenant_def scopes_def split: sum.splits)
qed

section \<open>Properties\<close>

lemma admin_ctx_cases:
  "admin_ctx trusted_local ctx tenant_id = Inr w \<Longrightarrow>
     tc_is_system ctx \<or> trusted_local \<or> (tc_role ctx = ADMIN \<and> tc_tenant_id ctx = tenant_id)"
  by (auto simp: admin_ctx_def split: if_splits)

lemma set_status_other:
  "set_status st ctx t status = Inr (st', r) \<Longrightarrow> t' \<noteq> t \<Longrightarrow>
     dict_get (ts_tenants st') t' = dict_get (ts_tenants st) t'"
  by (auto simp: set_status_def Let_def split: sum.splits option.splits)

lemma set_status_result:
  "set_status st ctx t status = Inr (st', r) \<Longrightarrow>
     dict_get (ts_tenants st') t = Some r \<and> tn_status r = status"
  by (auto simp: set_status_def Let_def split: sum.splits option.splits)

text \<open>
  Isolation of tenant records. Whatever sequence of tenant records contexts outside a
  tenant's scope save, the records that tenant reads are unchanged.
\<close>

theorem tenant_store_isolated:
  assumes "tenant_store_ok st" and "\<not> tc_is_system rctx"
    and "\<forall>w \<in> set ws. \<not> scopes (fst w) (tc_tenant_id rctx)"
  shows "get_tenant (tenants.writes st ws) rctx k = get_tenant st rctx k"
  using assms by (rule tenants.writes_isolated)

theorem tenant_store_isolated_witness:
  "get_tenant (tenants.writes \<lparr>ts_tenants = [], ts_teams = [], ts_memberships = []\<rparr>
      [(context_for_run ''b'' None None, \<lparr>tn_tenant_id = ''a'', tn_name = ''x'', tn_created_at = 0,
          tn_status = ACTIVE, tn_quota = \<lparr>max_agents = None, max_monthly_usd = None,
          max_concurrent_runs = None\<rparr>\<rparr>)]) (context_for_run ''a'' None None) ''a'' = None"
  using tenant_store_isolated [of "\<lparr>ts_tenants = [], ts_teams = [], ts_memberships = []\<rparr>"
      "context_for_run ''a'' None None"
      "[(context_for_run ''b'' None None, \<lparr>tn_tenant_id = ''a'', tn_name = ''x'', tn_created_at = 0,
          tn_status = ACTIVE, tn_quota = \<lparr>max_agents = None, max_monthly_usd = None,
          max_concurrent_runs = None\<rparr>\<rparr>)]" "''a''"]
  by (simp add: tenant_store_ok_def get_tenant_def)

text \<open>
  The suspension lifecycle. An actor that is neither the system nor a trusted local plane
  can suspend a tenant only as an administrator of that very tenant; the other tenants keep
  their records; while suspended every non-system caller is refused, and the same actor can
  reinstate the tenant, after which it is active with its record otherwise unchanged.
\<close>

theorem suspend_tenant_confined:
  assumes "suspend_tenant False st ctx t = Inr (st', r)" and "\<not> tc_is_system ctx"
    and "\<not> tc_is_system uctx"
  shows "tc_role ctx = ADMIN \<and> tc_tenant_id ctx = t \<and>
    (\<forall>t'. t' \<noteq> t \<longrightarrow> dict_get (ts_tenants st') t' = dict_get (ts_tenants st) t') \<and>
    require_active st' uctx t = Inl (TenantSuspendedError t) \<and>
    (\<exists>st''. reinstate_tenant False st' ctx t = Inr (st'', r\<lparr>tn_status := ACTIVE\<rparr>) \<and>
       require_active st'' uctx t = Inr (r\<lparr>tn_status := ACTIVE\<rparr>))"
proof -
  obtain w where w: "admin_ctx False ctx t = Inr w" and s: "set_status st w t SUSPENDED = Inr (st', r)"
    using assms(1) by (auto simp: suspend_tenant_def split: sum.splits)
  have own: "tc_role ctx = ADMIN" "tc_tenant_id ctx = t"
    using admin_ctx_cases [OF w] assms(2) by auto
  have res: "dict_get (ts_tenants st') t = Some r" "tn_status r = SUSPENDED"
    using set_status_result [OF s] by auto
  have "require_active st' uctx t = Inl (TenantSuspendedError t)"
    using res assms(3) by (simp add: require_active_def get_tenant_def)
  moreover have "\<exists>st''. reinstate_tenant False st' ctx t = Inr (st'', r\<lparr>tn_status := ACTIVE\<rparr>) \<and>
       require_active st'' uctx t = Inr (r\<lparr>tn_status := ACTIVE\<rparr>)"
    using own res assms(2)
    by (simp add: reinstate_tenant_def admin_ctx_def set_status_def require_def scopes_def Let_def
        SYSTEM_CONTEXT_def require_active_def get_tenant_def)
  ultimately show ?thesis
    using own set_status_other [OF s] by blast
qed

theorem suspend_tenant_confined_witness:
  "\<exists>st r. suspend_tenant False \<lparr>ts_tenants = [(''a'', \<lparr>tn_tenant_id = ''a'', tn_name = ''x'',
        tn_created_at = 0, tn_status = ACTIVE, tn_quota = \<lparr>max_agents = None, max_monthly_usd = None,
        max_concurrent_runs = None\<rparr>\<rparr>)], ts_teams = [], ts_memberships = []\<rparr>
      (context_for_run ''a'' None None) ''a'' = Inr (st, r) \<and>
    require_active st (context_for_run ''a'' None None) ''a'' = Inl (TenantSuspendedError ''a'')"
proof -
  obtain st r where "suspend_tenant False \<lparr>ts_tenants = [(''a'', \<lparr>tn_tenant_id = ''a'', tn_name = ''x'',
        tn_created_at = 0, tn_status = ACTIVE, tn_quota = \<lparr>max_agents = None, max_monthly_usd = None,
        max_concurrent_runs = None\<rparr>\<rparr>)], ts_teams = [], ts_memberships = []\<rparr>
      (context_for_run ''a'' None None) ''a'' = Inr (st, r)"
    by (simp add: suspend_tenant_def admin_ctx_def set_status_def require_def context_for_run_def scopes_def
        Let_def)
  with suspend_tenant_confined [OF this, of "context_for_run ''a'' None None"] show ?thesis
    by auto
qed

text \<open>
  Purging a tenant removes its record and all its teams and memberships and nothing else,
  and reports the number of rows removed.
\<close>

theorem purge_tenant_exact:
  assumes "purge_tenant st ctx t = Inr (st', n)"
    and "dict_ok (ts_tenants st)" "dict_ok (ts_teams st)" "dict_ok (ts_memberships st)"
  shows "ts_tenants st' = filter (\<lambda>p. fst p \<noteq> t) (ts_tenants st) \<and>
    ts_teams st' = filter (\<lambda>p. fst (fst p) \<noteq> t) (ts_teams st) \<and>
    ts_memberships st' = filter (\<lambda>p. mb_tenant_id (snd p) \<noteq> t) (ts_memberships st) \<and>
    n + length (ts_tenants st') + length (ts_teams st') + length (ts_memberships st') =
      length (ts_tenants st) + length (ts_teams st) + length (ts_memberships st)"
proof -
  let ?T = "ts_tenants st" and ?M = "ts_memberships st" and ?G = "ts_teams st"
  have fold_M: "fold dict_pop (map fst (filter (\<lambda>(_, m). mb_tenant_id m = t) ?M)) ?M =
      filter (\<lambda>p. mb_tenant_id (snd p) \<noteq> t) ?M"
    unfolding fold_pop_filter [OF assms(4)] by (rule filter_cong) auto
  have fold_G: "fold dict_pop (filter (\<lambda>k. fst k = t) (dict_keys ?G)) ?G = filter (\<lambda>p. fst (fst p) \<noteq> t) ?G"
    unfolding fold_dict_pop by (rule filter_cong) auto
  have sel: "(\<lambda>(_, m). mb_tenant_id m = t) = (\<lambda>p :: string \<times> membership. mb_tenant_id (snd p) = t)"
    by auto
  have st': "st' = st\<lparr>ts_teams := filter (\<lambda>p. fst (fst p) \<noteq> t) ?G,
        ts_memberships := filter (\<lambda>p. mb_tenant_id (snd p) \<noteq> t) ?M, ts_tenants := dict_pop t ?T\<rparr>"
    and n: "n = (if dict_get ?T t \<noteq> None then 1 else 0) + length (filter (\<lambda>p. fst (fst p) = t) ?G)
        + length (filter (\<lambda>p. mb_tenant_id (snd p) = t) ?M)"
    using assms(1) unfolding purge_tenant_def Let_def fold_M fold_G
    by (auto simp: filter_map comp_def sel split: sum.splits)
  have "length (filter (\<lambda>p. fst p = t) ?T) = (if dict_get ?T t \<noteq> None then 1 else 0)"
    using assms(2) by (rule length_filter_key)
  then show ?thesis
    using n sum_length_filter_compl [of "\<lambda>p. fst p = t" ?T]
      sum_length_filter_compl [of "\<lambda>p. fst (fst p) = t" ?G]
      sum_length_filter_compl [of "\<lambda>p. mb_tenant_id (snd p) = t" ?M]
    by (simp add: st' dict_pop_filter)
qed

theorem purge_tenant_exact_witness:
  "\<exists>st. purge_tenant \<lparr>ts_tenants = [], ts_teams = [],
        ts_memberships = [(''m'', \<lparr>mb_membership_id = ''m'', mb_tenant_id = ''a'', mb_team_id = None,
          mb_operator_id = ''o'', mb_role = VIEWER, mb_created_at = 0\<rparr>)]\<rparr>
      SYSTEM_CONTEXT ''a'' = Inr (st, 1) \<and> ts_memberships st = []"
proof -
  obtain st n where e: "purge_tenant \<lparr>ts_tenants = [], ts_teams = [],
        ts_memberships = [(''m'', \<lparr>mb_membership_id = ''m'', mb_tenant_id = ''a'', mb_team_id = None,
          mb_operator_id = ''o'', mb_role = VIEWER, mb_created_at = 0\<rparr>)]\<rparr>
      SYSTEM_CONTEXT ''a'' = Inr (st, n)"
    by (simp add: purge_tenant_def require_def)
  with purge_tenant_exact [OF e] show ?thesis by auto
qed

end
