(* ===== verification/Core_Model.thy ===== *)
theory Core_Model
  imports Tenancy
begin

text \<open>
  The domain model of the control plane (\<open>core/*.py\<close> and the status enumerations of
  \<open>certification/models.py\<close>): scalar validators, the run state machine and the run
  aggregate, policy decisions, tool permissions, the workload manifest with its validators,
  usage, events and approvals. Field names carry a short prefix per record, because record
  fields are global names here; enumeration members that two Python enums share carry the
  enum's prefix.
\<close>

section \<open>Scalar validators\<close>

datatype value_error = ValueError string

text \<open>
  \<open>parse_duration\<close> takes any decoded value. A float is accepted when it is integral; a
  string is an integer or an amount with a unit. The messages of the \<open>ValueError\<close>s keep
  their fixed prefix; \<open>repr\<close> of an arbitrary value is left out.
\<close>

definition duration_unit :: "char \<Rightarrow> int option" where
  "duration_unit c =
     (if c = CHR ''s'' then Some 1 else if c = CHR ''m'' then Some 60
      else if c = CHR ''h'' then Some 3600 else if c = CHR ''d'' then Some 86400 else None)"

definition duration_text :: "string \<Rightarrow> int option" where
  "duration_text text =
     (if text \<noteq> [] \<and> list_all is_digit text then Some (digits_value text)
      else if length text \<ge> 2 \<and> list_all is_digit (butlast text)
        then map_option (\<lambda>u. digits_value (butlast text) * u) (duration_unit (last text))
      else None)"

definition parse_duration :: "json \<Rightarrow> value_error + int" where
  "parse_duration value =
     (case (case value of
              JBool _ \<Rightarrow> Inl (ValueError ''duration must be a number or a duration string, not a bool'')
            | JInt i \<Rightarrow> Inr i
            | JFloat q \<Rightarrow> (if of_int \<lfloor>q\<rfloor> = q then Inr \<lfloor>q\<rfloor> else Inl (ValueError ''invalid duration''))
            | JStr s \<Rightarrow> (case duration_text (py_strip s) of
                  Some i \<Rightarrow> Inr i | None \<Rightarrow> Inl (ValueError ''invalid duration''))
            | _ \<Rightarrow> Inl (ValueError ''invalid duration'')) of
        Inl e \<Rightarrow> Inl e
      | Inr seconds \<Rightarrow>
          (if seconds < 0 then Inl (ValueError ''invalid duration: must not be negative'')
           else Inr seconds))"

definition name_char :: "char \<Rightarrow> bool" where
  "name_char c = (is_digit c \<or> (let n = of_char c :: nat in 97 \<le> n \<and> n \<le> 122))"

text \<open>The language of the name pattern, before the anchors: a DNS label.\<close>

definition dns_label :: "string \<Rightarrow> bool" where
  "dns_label s = (s \<noteq> [] \<and> name_char (hd s) \<and> name_char (last s) \<and>
     list_all (\<lambda>c. name_char c \<or> c = CHR ''-'') s)"

text \<open>
  Python's \<open>$\<close> matches at the end and also before one trailing newline, and the code uses
  \<open>re.match\<close> (not \<open>fullmatch\<close>).
\<close>

definition name_re_match :: "string \<Rightarrow> bool" where
  "name_re_match s = (dns_label s \<or> (s \<noteq> [] \<and> last s = CHR 0x0A \<and> dns_label (butlast s)))"

definition validate_name :: "string \<Rightarrow> value_error + string" where
  "validate_name value =
     (if value = [] then Inl (ValueError ''name must not be empty and must be DNS-safe'')
      else if length value > 63 then Inl (ValueError (''name must be at most 63 characters (got '' @ nat_str (length value) @ '')''))
      else if \<not> name_re_match value then Inl (ValueError (''name '' @ py_repr value @ '' is not DNS-safe: expected lower-case letters, digits, and hyphens, starting and ending with an alphanumeric character''))
      else Inr value)"

section \<open>Runs\<close>

datatype run_state = QUEUED | RUNNING | PAUSED | COMPLETED | FAILED | CANCELLED

fun run_state_value :: "run_state \<Rightarrow> string" where
  "run_state_value QUEUED = ''queued''"
| "run_state_value RUNNING = ''running''"
| "run_state_value PAUSED = ''paused''"
| "run_state_value COMPLETED = ''completed''"
| "run_state_value FAILED = ''failed''"
| "run_state_value CANCELLED = ''cancelled''"

datatype admission_context = SANDBOX | STAGING | PRODUCTION

fun admission_context_value :: "admission_context \<Rightarrow> string" where
  "admission_context_value SANDBOX = ''sandbox''"
| "admission_context_value STAGING = ''staging''"
| "admission_context_value PRODUCTION = ''production''"

fun RUN_TRANSITIONS :: "run_state \<Rightarrow> run_state list" where
  "RUN_TRANSITIONS QUEUED = [RUNNING, CANCELLED]"
| "RUN_TRANSITIONS RUNNING = [PAUSED, COMPLETED, FAILED, CANCELLED]"
| "RUN_TRANSITIONS PAUSED = [RUNNING, FAILED, CANCELLED]"
| "RUN_TRANSITIONS COMPLETED = []"
| "RUN_TRANSITIONS FAILED = []"
| "RUN_TRANSITIONS CANCELLED = []"

definition can_transition :: "run_state \<Rightarrow> run_state \<Rightarrow> bool" where
  "can_transition current target = (target \<in> set (RUN_TRANSITIONS current))"

definition terminal :: "run_state \<Rightarrow> bool" where
  "terminal s = (s \<in> {COMPLETED, FAILED, CANCELLED})"

record trigger_origin =
  to_source :: string
  to_event_id :: string
  to_timestamp :: time

record pipeline_origin =
  po_pipeline_run_id :: string
  po_pipeline_id :: string
  po_node_id :: string
  po_parent_run_id :: "string option"
  po_attempt :: int

record agent_tool_origin =
  ao_caller_run_id :: string
  ao_tool_id :: string
  ao_workload :: string
  ao_depth :: int
  ao_chain :: "string list"

record run =
  r_id :: string
  r_workload_id :: string
  r_caller :: string
  r_state :: run_state
  r_model_identity :: "string option"
  r_created_at :: time
  r_updated_at :: time
  r_started_at :: "time option"
  r_finished_at :: "time option"
  r_trigger_origin :: "trigger_origin option"
  r_pipeline_origin :: "pipeline_origin option"
  r_agent_tool_origin :: "agent_tool_origin option"
  r_manifest_version :: "int option"
  r_context :: "admission_context option"
  r_sandbox :: bool
  r_task :: "(string, json) dict"
  r_result :: "json option"
  r_failure_reason :: "string option"
  r_cost_usd :: usd
  r_sandbox_id :: "string option"
  r_trace_id :: "string option"
  r_shadow_of :: "string option"
  r_probe :: bool
  r_read_only :: bool
  r_canary_rollout_id :: "string option"
  r_canary_arm :: "string option"
  r_tenant_id :: string
  r_team_id :: "string option"
  r_attribution_key :: "string option"

section \<open>Certification status\<close>

datatype certification_status = UNCERTIFIED | PROVISIONAL | CERTIFIED | QUARANTINED

fun certification_status_value :: "certification_status \<Rightarrow> string" where
  "certification_status_value UNCERTIFIED = ''uncertified''"
| "certification_status_value PROVISIONAL = ''provisional''"
| "certification_status_value CERTIFIED = ''certified''"
| "certification_status_value QUARANTINED = ''quarantined''"

section \<open>Policy decisions and tool permissions\<close>

datatype decision_outcome = ALLOW | DENY | ESCALATE | BLOCK_INJECTION

datatype data_sensitivity = PUBLIC | INTERNAL | PII | RESTRICTED

datatype action_class = AC_READ_ONLY | AC_DESTRUCTIVE | AC_PRODUCTION_WRITE | AC_HIGH_SPEND

datatype tool_trust_level = TRUST_READ_ONLY | TRUST_DESTRUCTIVE

record blast_radius =
  br_score :: int
  br_factors :: "(string, int) dict"

record mcp_server =
  ms_name :: string
  ms_endpoint :: string

record tool_ref =
  tr_tool_id :: string
  tr_trust_level :: tool_trust_level
  tr_require_approval :: bool
  tr_allow_untrusted :: bool

record tools_spec =
  ts_allow :: "tool_ref list"
  ts_deny :: "string list"
  ts_mcp_servers :: "mcp_server list"
  ts_default_trust :: tool_trust_level

definition is_denied :: "tools_spec \<Rightarrow> string \<Rightarrow> bool" where
  "is_denied tools tool_id = (tool_id \<in> set (ts_deny tools))"

definition is_allowed :: "tools_spec \<Rightarrow> string \<Rightarrow> bool" where
  "is_allowed tools tool_id =
     (if is_denied tools tool_id then False
      else list_ex (\<lambda>entry. tr_tool_id entry = tool_id) (ts_allow tools))"

definition approval_required :: "tools_spec \<Rightarrow> string \<Rightarrow> bool" where
  "approval_required tools tool_id =
     list_ex (\<lambda>entry. tr_tool_id entry = tool_id \<and> tr_require_approval entry) (ts_allow tools)"

definition allows_untrusted :: "tools_spec \<Rightarrow> string \<Rightarrow> bool" where
  "allows_untrusted tools tool_id =
     list_ex (\<lambda>entry. tr_tool_id entry = tool_id \<and> tr_allow_untrusted entry) (ts_allow tools)"

record time_window =
  tw_action_class :: "action_class option"
  tw_tool_trust :: "tool_trust_level option"
  tw_days :: "int list"
  tw_start :: string
  tw_end :: string
  tw_tz :: string
  tw_blackout :: bool

record policy_context =
  pc_run_id :: string
  pc_workload :: string
  pc_team :: "string option"
  pc_tenant_id :: string
  pc_environment :: admission_context
  pc_action_class :: "action_class option"
  pc_tool_id :: "string option"
  pc_tool_trust :: "tool_trust_level option"
  pc_data_sensitivity :: data_sensitivity
  pc_certification_status :: certification_status
  pc_tools :: "tools_spec option"
  pc_approval_required_for :: "action_class list"
  pc_injection_detected :: bool
  pc_budget_exhausted :: bool
  pc_taint_untrusted :: bool
  pc_at :: "time option"
  pc_time_windows :: "time_window list"

definition tw_matches :: "time_window \<Rightarrow> policy_context \<Rightarrow> bool" where
  "tw_matches w c =
     (if tw_action_class w \<noteq> None \<and> tw_action_class w \<noteq> pc_action_class c then False
      else \<not> (tw_tool_trust w \<noteq> None \<and> tw_tool_trust w \<noteq> pc_tool_trust c))"

text \<open>
  \<open>allows\<close> converts the instant to the window's time zone. The zone database is a
  parameter: \<open>zone tz t\<close> is the weekday (0 is Monday), hour and minute of the instant in the
  zone, or \<open>None\<close> for a name \<open>ZoneInfo\<close> does not know. The window's bounds are
  validated against \<open>\d\d:\d\d\<close>; other texts do not parse.
\<close>

type_synonym zone_db = "string \<Rightarrow> time \<Rightarrow> (int \<times> int \<times> int) option"

datatype window_error = ZoneInfoNotFoundError string | WindowFormatError string

definition hhmm_minutes :: "string \<Rightarrow> int option" where
  "hhmm_minutes s = (case s of
       [a, b, c, d, e] \<Rightarrow>
         (if is_digit a \<and> is_digit b \<and> c = CHR '':'' \<and> is_digit d \<and> is_digit e
          then Some (digits_value [a, b] * 60 + digits_value [d, e]) else None)
     | _ \<Rightarrow> None)"

definition tw_allows :: "zone_db \<Rightarrow> time_window \<Rightarrow> time \<Rightarrow> window_error + bool" where
  "tw_allows zone w t = (case zone (tw_tz w) t of
       None \<Rightarrow> Inl (ZoneInfoNotFoundError (tw_tz w))
     | Some (weekday, hour, minute) \<Rightarrow>
         (if tw_days w \<noteq> [] \<and> weekday \<notin> set (tw_days w) then Inr False
          else (case (hhmm_minutes (tw_start w), hhmm_minutes (tw_end w)) of
              (Some s, Some e) \<Rightarrow> (let minutes = hour * 60 + minute in Inr (s \<le> minutes \<and> minutes < e))
            | (None, _) \<Rightarrow> Inl (WindowFormatError (tw_start w))
            | (_, None) \<Rightarrow> Inl (WindowFormatError (tw_end w)))))"

record policy_decision =
  pd_run_id :: string
  pd_outcome :: decision_outcome
  pd_reason :: string
  pd_rule :: string
  pd_action_class :: "action_class option"
  pd_timestamp :: time
  pd_blast_radius :: "blast_radius option"
  pd_certification_status :: "certification_status option"
  pd_pack_version :: "string option"
  pd_detector_set_version :: "string option"
  pd_dry_run :: bool

section \<open>The workload manifest\<close>

datatype runtime_adapter = RAW_WORKER | LANGGRAPH | PYDANTIC_AI | OPENAI_AGENTS | CREWAI

record runtime_spec =
  rt_adapter :: runtime_adapter
  rt_entrypoint :: string
  rt_env :: "(string, string) dict"
  rt_adapter_contract :: string

datatype model_strategy = FIXED | TIERED | ROUTER

record model_identity =
  mi_provider :: string
  mi_family :: string
  mi_version :: string

definition canonical_model_identity :: "model_identity \<Rightarrow> string" where
  "canonical_model_identity i = mi_provider i @ ''/'' @ mi_family i @ ''/'' @ mi_version i"

definition validate_model_identity :: "string \<Rightarrow> value_error + string" where
  "validate_model_identity value =
     (let parts = py_split (CHR ''/'') value in
      if length parts \<noteq> 3 \<or> list_ex (\<lambda>part. py_strip part = []) parts
      then Inl (ValueError (''model_identity must be '' @ py_repr ''provider/family/version'' @
        '' (e.g. '' @ py_repr ''openai/gpt-4o/2024-08-06'' @ ''), got '' @ py_repr value))
      else Inr value)"

record model_spec =
  mo_strategy :: model_strategy
  mo_identity :: "model_identity option"

record budget_spec =
  bs_per_run_usd :: usd
  bs_per_day_usd :: usd
  bs_per_team_usd :: "usd option"

text \<open>The field bounds first (as pydantic checks them), then the ordering validator.\<close>

definition check_budget :: "budget_spec \<Rightarrow> value_error + budget_spec" where
  "check_budget b =
     (if \<not> bs_per_run_usd b > 0 then Inl (ValueError ''per_run_usd must be greater than 0'')
      else if \<not> bs_per_day_usd b > 0 then Inl (ValueError ''per_day_usd must be greater than 0'')
      else if bs_per_day_usd b < bs_per_run_usd b
        then Inl (ValueError ''per_day_usd must be >= per_run_usd'')
      else (case bs_per_team_usd b of
          None \<Rightarrow> Inr b
        | Some team \<Rightarrow>
            (if team < bs_per_day_usd b then Inl (ValueError ''per_team_usd must be >= per_day_usd'')
             else Inr b)))"

record guards_spec =
  gs_context_tokens :: "int option"
  gs_context_warn_at :: "rat option"
  gs_velocity_window_seconds :: "int option"
  gs_velocity_limit_usd :: "usd option"
  gs_velocity_multiplier :: "rat option"

record approvals_spec =
  as_required_for :: "action_class list"
  as_contact :: "string option"
  as_auto_escalate_after :: int

record observability_spec =
  ob_contract :: string
  ob_trace_sampling :: rat

record io_spec =
  io_input_schema :: "(string, json) dict option"
  io_output_schema :: "(string, json) dict option"

record certification_spec =
  cs_benchmark_corpus :: "string option"
  cs_staging_threshold :: rat
  cs_production_threshold :: rat
  cs_no_critical_failures :: bool
  cs_latency_budget_ms :: int
  cs_re_cert_interval :: int
  cs_status :: certification_status
  cs_attestation_id :: "string option"
  cs_certified_at :: "time option"
  cs_certified_by :: "string option"
  cs_expires_at :: "time option"

definition check_certification :: "time \<Rightarrow> certification_spec \<Rightarrow> value_error + certification_spec" where
  "check_certification now c =
     (if cs_production_threshold c < cs_staging_threshold c
      then Inl (ValueError ''production_threshold must be >= staging_threshold'')
      else if cs_status c = CERTIFIED then
        (if \<not> truthy (cs_attestation_id c)
         then Inl (ValueError ''certified status requires attestation_id'')
         else (case cs_expires_at c of
             None \<Rightarrow> Inl (ValueError ''certified status requires expires_at'')
           | Some t \<Rightarrow>
               (if t \<le> now then Inl (ValueError ''certified status requires expires_at in the future'')
                else Inr c)))
      else Inr c)"

record secret_binding =
  sb_ref :: string
  sb_injection :: "(string, json) dict option"

datatype trigger_type = TT_WEBHOOK | TT_ALERT | TT_GITHUB_PR | TT_CRON

datatype trigger_mode = ONE_SHOT | WATCH | SCHEDULED

record trigger_match =
  tg_severity :: "string list"
  tg_service :: "string option"
  tg_paths :: "string list"

definition has_criteria :: "trigger_match \<Rightarrow> bool" where
  "has_criteria m = (tg_severity m \<noteq> [] \<or> truthy (tg_service m) \<or> tg_paths m \<noteq> [])"

record trigger_rule =
  tu_type :: trigger_type
  tu_url :: "string option"
  tu_match :: "trigger_match option"
  tu_source :: "string option"
  tu_events :: "string list"
  tu_schedule :: "string option"
  tu_mode :: "trigger_mode option"
  tu_max_concurrent :: "int option"

definition check_trigger_rule :: "trigger_rule \<Rightarrow> value_error + trigger_rule" where
  "check_trigger_rule r =
     (if tu_type r = TT_WEBHOOK \<and> \<not> truthy (tu_url r)
        then Inl (ValueError (''webhook trigger requires '' @ py_repr ''url''))
      else if tu_type r = TT_ALERT \<and> \<not> truthy (tu_source r)
        then Inl (ValueError (''alert trigger requires '' @ py_repr ''source''))
      else if tu_type r = TT_GITHUB_PR \<and> tu_events r = []
        then Inl (ValueError (''github_pr trigger requires '' @ py_repr ''events''))
      else if tu_type r = TT_CRON \<and> \<not> truthy (tu_schedule r)
        then Inl (ValueError (''cron trigger requires '' @ py_repr ''schedule''))
      else if tu_type r \<noteq> TT_CRON \<and> (case tu_match r of None \<Rightarrow> True | Some m \<Rightarrow> \<not> has_criteria m)
        then Inl (ValueError ''trigger requires at least one match criterion (or a schedule for cron)'')
      else Inr r)"

datatype egress_mode = EGRESS_OPEN | EGRESS_RESTRICTED | EGRESS_NONE

datatype filesystem_mode = ISOLATED

record resource_caps =
  rc_memory_mb :: int
  rc_cpu_cores :: rat
  rc_wall_clock_s :: int

record egress_spec =
  eg_allow :: "string list"
  eg_deny :: "string list"
  eg_mode :: egress_mode

record egress_rule =
  er_host :: string
  er_port :: "int option"

record network_spec =
  nw_egress :: egress_mode
  nw_allow :: "egress_rule list"
  nw_deny :: "egress_rule list"

record sandbox_spec =
  sx_enabled :: bool
  sx_resource_caps :: "resource_caps option"
  sx_egress :: egress_spec
  sx_network :: "network_spec option"
  sx_filesystem :: filesystem_mode

definition CLOUD_METADATA_ENDPOINTS :: "string list" where
  "CLOUD_METADATA_ENDPOINTS = [''169.254.169.254'']"

definition deny_endpoint :: "string \<Rightarrow> sandbox_spec \<Rightarrow> sandbox_spec" where
  "deny_endpoint endpoint s =
     (let e = sx_egress s;
          e' = (if endpoint \<notin> set (eg_deny e) then e\<lparr>eg_deny := eg_deny e @ [endpoint]\<rparr> else e);
          n' = map_option (\<lambda>n.
                 if list_all (\<lambda>rule. er_host rule \<noteq> endpoint) (nw_deny n)
                 then n\<lparr>nw_deny := nw_deny n @ [\<lparr>er_host = endpoint, er_port = None\<rparr>]\<rparr>
                 else n) (sx_network s)
      in s\<lparr>sx_egress := e', sx_network := n'\<rparr>)"

definition check_sandbox :: "sandbox_spec \<Rightarrow> value_error + sandbox_spec" where
  "check_sandbox s =
     (if sx_enabled s \<and> sx_resource_caps s = None
      then Inl (ValueError ''sandbox.resource_caps is required when sandbox.enabled is true'')
      else Inr (fold deny_endpoint CLOUD_METADATA_ENDPOINTS s))"

datatype truncate_strategy = TRUNCATE_HEAD | TRUNCATE_TAIL | TRUNCATE_SUMMARY

datatype filter_action = REDACT | MASK

record filter_rule =
  fr_pattern :: string
  fr_action :: filter_action

record output_shaping_spec =
  os_max_bytes :: int
  os_truncate_strategy :: truncate_strategy
  os_filter_rules :: "filter_rule list"
  os_injection_scan :: bool

datatype fanout_type = FAN_SLACK | FAN_TEAMS | FAN_JIRA | FAN_WEBHOOK

fun fanout_type_value :: "fanout_type \<Rightarrow> string" where
  "fanout_type_value FAN_SLACK = ''slack''"
| "fanout_type_value FAN_TEAMS = ''teams''"
| "fanout_type_value FAN_JIRA = ''jira''"
| "fanout_type_value FAN_WEBHOOK = ''webhook''"

record fanout_destination =
  fd_type :: fanout_type
  fd_channel :: "string option"
  fd_url :: "string option"
  fd_project :: "string option"
  fd_issue_type :: "string option"

definition check_destination :: "fanout_destination \<Rightarrow> value_error + fanout_destination" where
  "check_destination d =
     (if fd_type d \<in> {FAN_SLACK, FAN_TEAMS} \<and> \<not> truthy (fd_channel d)
        then Inl (ValueError (fanout_type_value (fd_type d) @ '' destination requires '' @ py_repr ''channel''))
      else if fd_type d = FAN_JIRA \<and> \<not> (truthy (fd_project d) \<and> truthy (fd_issue_type d))
        then Inl (ValueError (''jira destination requires '' @ py_repr ''project'' @ '' and '' @ py_repr ''issue_type''))
      else if fd_type d = FAN_WEBHOOK \<and> \<not> truthy (fd_url d)
        then Inl (ValueError (''webhook destination requires '' @ py_repr ''url''))
      else Inr d)"

record fanout_spec =
  fo_on_completed :: "fanout_destination list"
  fo_on_failed :: "fanout_destination list"
  fo_on_escalation :: "fanout_destination list"
  fo_always_include :: "string list"

datatype probe_type = DRY_RUN

record readiness_probe =
  rp_type :: probe_type
  rp_interval :: int

record slo_spec =
  sl_availability_target :: rat
  sl_quality_target :: rat
  sl_error_budget_window :: int

record health_spec =
  hs_readiness_probe :: readiness_probe
  hs_slo :: slo_spec
  hs_failure_rate_threshold :: rat

record workload_spec =
  ws_runtime :: runtime_spec
  ws_budget :: budget_spec
  ws_model :: model_spec
  ws_certification :: "certification_spec option"
  ws_triggers :: "trigger_rule list"
  ws_sandbox :: "sandbox_spec option"
  ws_output_shaping :: "output_shaping_spec option"
  ws_tools :: tools_spec
  ws_approvals :: approvals_spec
  ws_guards :: "guards_spec option"
  ws_fan_out :: fanout_spec
  ws_health :: health_spec
  ws_observability :: observability_spec
  ws_io :: "io_spec option"
  ws_secrets :: "secret_binding list"
  ws_time_windows :: "time_window list"

definition check_workload_spec :: "workload_spec \<Rightarrow> value_error + workload_spec" where
  "check_workload_spec s =
     (if ws_certification s \<noteq> None \<and> mo_identity (ws_model s) = None
      then Inl (ValueError ''spec.model.identity is required when spec.certification is present'')
      else Inr s)"

record workload_metadata =
  md_name :: string
  md_owner :: string
  md_team :: "string option"
  md_description :: "string option"
  md_labels :: "(string, string) dict"

record agent_workload =
  aw_metadata :: workload_metadata
  aw_spec :: workload_spec

definition workload_name :: "agent_workload \<Rightarrow> string" where
  "workload_name w = md_name (aw_metadata w)"

definition workload_owner :: "agent_workload \<Rightarrow> string" where
  "workload_owner w = md_owner (aw_metadata w)"

definition workload_team :: "agent_workload \<Rightarrow> string option" where
  "workload_team w = md_team (aw_metadata w)"

definition workload_certification_status :: "agent_workload \<Rightarrow> certification_status" where
  "workload_certification_status w = (case ws_certification (aw_spec w) of
       None \<Rightarrow> UNCERTIFIED
     | Some c \<Rightarrow> cs_status c)"

section \<open>Usage, events and approvals\<close>

datatype budget_level = LEVEL_RUN | LEVEL_DAY | LEVEL_TEAM

fun budget_level_value :: "budget_level \<Rightarrow> string" where
  "budget_level_value LEVEL_RUN = ''run''"
| "budget_level_value LEVEL_DAY = ''day''"
| "budget_level_value LEVEL_TEAM = ''team''"

record budget_check =
  bc_allowed :: bool
  bc_level :: budget_level
  bc_limit_usd :: usd
  bc_spent_usd :: usd
  bc_remaining_usd :: usd
  bc_reason :: "string option"

record usage_report =
  ur_run_id :: string
  ur_input_tokens :: int
  ur_output_tokens :: int
  ur_tool_calls :: int
  ur_cost_usd :: usd
  ur_timestamp :: time
  ur_model_identity :: "string option"
  ur_prompt :: "string option"
  ur_response :: "string option"
  ur_latency_ms :: "int option"

definition total_tokens :: "usage_report \<Rightarrow> int" where
  "total_tokens u = ur_input_tokens u + ur_output_tokens u"

record budget_outcome =
  bo_check :: budget_check
  bo_cost_usd :: usd

datatype event_type =
    EV_ADMISSION | EV_STATE_CHANGE | EV_POLICY_DECISION | EV_TOOL_CALL | EV_USAGE
  | EV_OPERATOR_ACTION | EV_SANDBOX | EV_RECOVERY | EV_GUARD

record run_event =
  e_run_id :: string
  e_sequence :: int
  e_type :: event_type
  e_actor :: string
  e_timestamp :: time
  e_from_state :: "run_state option"
  e_to_state :: "run_state option"
  e_detail :: "string option"

datatype approval_status = APPROVAL_PENDING | APPROVAL_APPROVED | APPROVAL_DENIED

record approval_comment =
  ac_author :: string
  ac_text :: string
  ac_created_at :: time

record approval_record =
  ap_approval_id :: string
  ap_run_id :: string
  ap_workload :: string
  ap_rule :: string
  ap_reason :: string
  ap_action_class :: "action_class option"
  ap_tool_id :: "string option"
  ap_requested_at :: time
  ap_status :: approval_status
  ap_decided_at :: "time option"
  ap_decided_by :: "string option"
  ap_decision_reason :: "string option"
  ap_delegated_to :: "string option"
  ap_delegated_by :: "string option"
  ap_comments :: "approval_comment list"
  ap_tenant_id :: string

section \<open>Properties of the scalar validators\<close>

lemma digit_not_space: "is_digit c \<Longrightarrow> \<not> is_space c"
  by (auto simp: is_digit_def is_space_def Let_def)

lemma py_strip_solid:
  assumes "list_all is_space a" "list_all is_space b" "s \<noteq> []" "\<not> is_space (hd s)" "\<not> is_space (last s)"
  shows "py_strip (a @ s @ b) = s"
proof -
  have "dropWhile is_space (a @ s @ b) = s @ b"
    using assms by (subst dropWhile_append2) (auto simp: list_all_iff neq_Nil_conv)
  moreover have "dropWhile is_space (rev b @ rev s) = rev s"
    using assms by (subst dropWhile_append2) (auto simp: list_all_iff dropWhile_eq_self_iff hd_rev)
  ultimately show ?thesis by (simp add: py_strip_def)
qed

lemma duration_unit_char:
  "duration_unit c = Some u \<Longrightarrow> \<not> is_digit c \<and> \<not> is_space c \<and> 0 < u"
  by (auto simp: duration_unit_def is_digit_def is_space_def split: if_splits)

text \<open>
  A number of seconds printed in decimal, with or without a unit and with any surrounding
  white space, parses back to its value in seconds.
\<close>

theorem parse_duration_print:
  assumes "list_all is_space a" "list_all is_space b" "duration_unit c = Some u"
  shows "parse_duration (JStr (a @ nat_str n @ b)) = Inr (int n) \<and>
    parse_duration (JStr (a @ (nat_str n @ [c]) @ b)) = Inr (int n * u)"
proof
  have "is_digit (hd (nat_str n)) \<and> is_digit (last (nat_str n))"
    using nat_str_digits [of n] by (simp add: list_all_iff)
  then have ends: "\<not> is_space (hd (nat_str n))" "\<not> is_space (last (nat_str n))"
    by (auto dest: digit_not_space)
  have "py_strip (a @ nat_str n @ b) = nat_str n"
    using assms(1,2) ends by (intro py_strip_solid) auto
  then show "parse_duration (JStr (a @ nat_str n @ b)) = Inr (int n)"
    by (simp add: parse_duration_def duration_text_def nat_str_digits digits_value_nat_str)
  have "py_strip (a @ (nat_str n @ [c]) @ b) = nat_str n @ [c]"
    using assms(1,2) ends duration_unit_char [OF assms(3)] by (intro py_strip_solid) auto
  then show "parse_duration (JStr (a @ (nat_str n @ [c]) @ b)) = Inr (int n * u)"
    using duration_unit_char [OF assms(3)] assms(3)
    by (simp add: parse_duration_def duration_text_def nat_str_digits digits_value_nat_str
        mult_less_0_iff Suc_le_eq)
qed

theorem parse_duration_print_witness:
  "parse_duration (JStr ('' '' @ nat_str 14 @ [])) = Inr 14 \<and>
   parse_duration (JStr ('' '' @ (nat_str 14 @ ''d'') @ [])) = Inr 1209600"
  using parse_duration_print [of "'' ''" "[]" "CHR ''d''" 86400 14]
  by (simp add: is_space_def duration_unit_def)

text \<open>
  \<open>validate_name\<close> returns its argument exactly for names of at most 63 characters that
  are a DNS label, or a DNS label followed by one newline; the second form is not DNS-safe, so
  the validator accepts names its documentation excludes.
\<close>

theorem validate_name_accepts:
  "(validate_name v = Inr w) =
     (w = v \<and> length v \<le> 63 \<and> (dns_label v \<or> (\<exists>u. v = u @ [CHR 0x0A] \<and> dns_label u))) \<and>
   validate_name (''triage'' @ [CHR 0x0A]) = Inr (''triage'' @ [CHR 0x0A]) \<and>
   \<not> dns_label (''triage'' @ [CHR 0x0A])"
proof -
  have "name_re_match v = (dns_label v \<or> (\<exists>u. v = u @ [CHR 0x0A] \<and> dns_label u))"
    by (cases v rule: rev_cases) (auto simp: name_re_match_def)
  moreover have "dns_label v \<Longrightarrow> v \<noteq> []" by (simp add: dns_label_def)
  ultimately have "(validate_name v = Inr w) =
     (w = v \<and> length v \<le> 63 \<and> (dns_label v \<or> (\<exists>u. v = u @ [CHR 0x0A] \<and> dns_label u)))"
    by (auto simp: validate_name_def split: if_splits)
  then show ?thesis
    by (simp add: validate_name_def name_re_match_def dns_label_def name_char_def is_digit_def)
qed

text \<open>
  A model identity whose parts are not blank and hold no slash survives the round trip
  through its canonical string: the string validates, and splitting it gives the parts back.
\<close>

theorem model_identity_roundtrip:
  assumes "\<forall>p \<in> {mi_provider i, mi_family i, mi_version i}. py_strip p \<noteq> [] \<and> CHR ''/'' \<notin> set p"
  shows "validate_model_identity (canonical_model_identity i) = Inr (canonical_model_identity i) \<and>
    py_split (CHR ''/'') (canonical_model_identity i) = [mi_provider i, mi_family i, mi_version i]"
proof -
  have "py_split (CHR ''/'') (canonical_model_identity i) = [mi_provider i, mi_family i, mi_version i]"
    using assms by (simp add: canonical_model_identity_def py_split_append py_split_no_sep)
  then show ?thesis
    using assms by (simp add: validate_model_identity_def)
qed

theorem model_identity_roundtrip_witness:
  "validate_model_identity ''openai/gpt-4o/v1'' = Inr ''openai/gpt-4o/v1''"
  using model_identity_roundtrip [of "\<lparr>mi_provider = ''openai'', mi_family = ''gpt-4o'', mi_version = ''v1''\<rparr>"]
  by (simp add: canonical_model_identity_def py_strip_def is_space_def)

section \<open>Properties of the run state machine\<close>

lemma can_transition_simps [simp]:
  "can_transition QUEUED t = (t = RUNNING \<or> t = CANCELLED)"
  "can_transition RUNNING t = (t = PAUSED \<or> t = COMPLETED \<or> t = FAILED \<or> t = CANCELLED)"
  "can_transition PAUSED t = (t = RUNNING \<or> t = FAILED \<or> t = CANCELLED)"
  "can_transition COMPLETED t = False"
  "can_transition FAILED t = False"
  "can_transition CANCELLED t = False"
  by (auto simp: can_transition_def)

lemma terminal_simps [simp]:
  "terminal QUEUED = False" "terminal RUNNING = False" "terminal PAUSED = False"
  "terminal COMPLETED = True" "terminal FAILED = True" "terminal CANCELLED = True"
  by (simp_all add: terminal_def)

lemma terminal_no_transition: "terminal s \<Longrightarrow> \<not> can_transition s t"
  by (cases s) auto

lemma can_transition_irrefl [simp]: "\<not> can_transition s s"
  by (cases s) auto

lemma tranclp_from_QUEUED: "can_transition\<^sup>+\<^sup>+ s t \<Longrightarrow> t \<noteq> QUEUED"
  by (induction rule: tranclp_induct; cases s) (metis can_transition_simps run_state.exhaust run_state.distinct)+

text \<open>
  C30: the lifecycle of a run. The terminal states are exactly those without a successor, every
  other state can be cancelled at once, every state is reachable from \<open>QUEUED\<close>, no run returns
  to \<open>QUEUED\<close>, and the only states a run can come back to are \<open>RUNNING\<close> and \<open>PAUSED\<close>.
\<close>

theorem run_lifecycle:
  "terminal s = (\<nexists>t. can_transition s t) \<and>
   (terminal s \<or> can_transition s CANCELLED) \<and>
   can_transition\<^sup>*\<^sup>* QUEUED s \<and>
   (can_transition\<^sup>+\<^sup>+ s s = (s = RUNNING \<or> s = PAUSED))"
proof (intro conjI)
  show "terminal s = (\<nexists>t. can_transition s t)"
    by (cases s) auto
  show "terminal s \<or> can_transition s CANCELLED"
    by (cases s) auto
  have q: "can_transition\<^sup>*\<^sup>* QUEUED RUNNING" by auto
  have "can_transition\<^sup>*\<^sup>* RUNNING s" if "s \<noteq> QUEUED"
    using that by (cases s) auto
  with q show "can_transition\<^sup>*\<^sup>* QUEUED s"
    by (cases "s = QUEUED") auto
  have "can_transition\<^sup>+\<^sup>+ RUNNING RUNNING" "can_transition\<^sup>+\<^sup>+ PAUSED PAUSED"
    by (rule tranclp.trancl_into_trancl [of _ _ PAUSED], auto)
       (rule tranclp.trancl_into_trancl [of _ _ RUNNING], auto)
  moreover have "\<not> can_transition\<^sup>+\<^sup>+ s s" if "terminal s"
    using that terminal_no_transition tranclpD by metis
  moreover have "\<not> can_transition\<^sup>+\<^sup>+ QUEUED QUEUED"
    using tranclp_from_QUEUED by blast
  ultimately show "can_transition\<^sup>+\<^sup>+ s s = (s = RUNNING \<or> s = PAUSED)"
    by (cases s) auto
qed

section \<open>Properties of the manifest validators\<close>

lemma deny_endpoint_frame [simp]:
  "sx_enabled (deny_endpoint h s) = sx_enabled s"
  "sx_resource_caps (deny_endpoint h s) = sx_resource_caps s"
  "sx_filesystem (deny_endpoint h s) = sx_filesystem s"
  "eg_allow (sx_egress (deny_endpoint h s)) = eg_allow (sx_egress s)"
  "eg_mode (sx_egress (deny_endpoint h s)) = eg_mode (sx_egress s)"
  by (simp_all add: deny_endpoint_def Let_def)

lemma deny_endpoint_denies: "h \<in> set (eg_deny (sx_egress (deny_endpoint h s)))"
  by (simp add: deny_endpoint_def Let_def)

lemma deny_endpoint_hosts:
  "eg_deny (sx_egress (deny_endpoint h s)) = (if h \<in> set (eg_deny (sx_egress s)) then eg_deny (sx_egress s) else eg_deny (sx_egress s) @ [h])"
  by (simp add: deny_endpoint_def Let_def)

lemma deny_endpoint_network:
  "case sx_network s of None \<Rightarrow> sx_network (deny_endpoint h s) = None
   | Some n \<Rightarrow> \<exists>n'. sx_network (deny_endpoint h s) = Some n' \<and> nw_egress n' = nw_egress n \<and> nw_allow n' = nw_allow n \<and>
       nw_deny n' = (if \<exists>rule \<in> set (nw_deny n). er_host rule = h then nw_deny n
                     else nw_deny n @ [\<lparr>er_host = h, er_port = None\<rparr>])"
  by (auto simp: deny_endpoint_def Let_def list_all_iff split: option.split)

lemma deny_endpoint_idem: "deny_endpoint h (deny_endpoint h s) = deny_endpoint h s"
  by (auto simp: deny_endpoint_def Let_def list_all_iff map_option_case split: option.splits)

text \<open>
  C31: what sandbox validation does. A block validates exactly if it is disabled or has resource caps.
  The validated block denies the cloud metadata endpoint in the host list; in the network rules, when
  there are any, it gains a deny rule for the endpoint on every port, except that a block whose deny
  rules already name the endpoint keeps them as they are, so that a rule limited to one port stays the only one.
  Nothing else changes: the enabled flag, the caps, the file system, the allowed hosts, the egress mode, the network egress mode
  and allow rules, and every deny entry written in the block; and validating twice is validating once.
\<close>

theorem check_sandbox_hardened:
  "(\<exists>t. check_sandbox s = Inr t) = (sx_enabled s \<longrightarrow> sx_resource_caps s \<noteq> None) \<and>
   (\<forall>t. check_sandbox s = Inr t \<longrightarrow>
     check_sandbox t = Inr t \<and> sx_enabled t = sx_enabled s \<and> sx_resource_caps t = sx_resource_caps s \<and>
     sx_filesystem t = sx_filesystem s \<and>
     eg_allow (sx_egress t) = eg_allow (sx_egress s) \<and> eg_mode (sx_egress t) = eg_mode (sx_egress s) \<and>
     eg_deny (sx_egress t) = (if ''169.254.169.254'' \<in> set (eg_deny (sx_egress s)) then eg_deny (sx_egress s)
                              else eg_deny (sx_egress s) @ [''169.254.169.254'']) \<and>
     (case sx_network s of None \<Rightarrow> sx_network t = None
      | Some n \<Rightarrow> \<exists>n'. sx_network t = Some n' \<and> nw_egress n' = nw_egress n \<and> nw_allow n' = nw_allow n \<and>
          nw_deny n' = (if \<exists>rule \<in> set (nw_deny n). er_host rule = ''169.254.169.254'' then nw_deny n
                        else nw_deny n @ [\<lparr>er_host = ''169.254.169.254'', er_port = None\<rparr>])))"
proof (intro conjI allI impI)
  show "(\<exists>t. check_sandbox s = Inr t) = (sx_enabled s \<longrightarrow> sx_resource_caps s \<noteq> None)" by (simp add: check_sandbox_def)
  fix t assume "check_sandbox s = Inr t"
  then have t: "t = deny_endpoint ''169.254.169.254'' s" and caps: "\<not> (sx_enabled s \<and> sx_resource_caps s = None)"
    by (auto simp: check_sandbox_def CLOUD_METADATA_ENDPOINTS_def split: if_splits)
  show "check_sandbox t = Inr t"
    using caps by (simp add: t check_sandbox_def CLOUD_METADATA_ENDPOINTS_def deny_endpoint_idem del: de_Morgan_conj)
  show "case sx_network s of None \<Rightarrow> sx_network t = None
      | Some n \<Rightarrow> \<exists>n'. sx_network t = Some n' \<and> nw_egress n' = nw_egress n \<and> nw_allow n' = nw_allow n \<and>
          nw_deny n' = (if \<exists>rule \<in> set (nw_deny n). er_host rule = ''169.254.169.254'' then nw_deny n
                        else nw_deny n @ [\<lparr>er_host = ''169.254.169.254'', er_port = None\<rparr>])"
    unfolding t by (rule deny_endpoint_network)
qed (auto simp: check_sandbox_def CLOUD_METADATA_ENDPOINTS_def deny_endpoint_hosts split: if_splits)

definition port_limited_sandbox :: sandbox_spec where
  "port_limited_sandbox = \<lparr>sx_enabled = False, sx_resource_caps = None,
     sx_egress = \<lparr>eg_allow = [''api''], eg_deny = [], eg_mode = EGRESS_RESTRICTED\<rparr>,
     sx_network = Some \<lparr>nw_egress = EGRESS_OPEN, nw_allow = [], nw_deny = [\<lparr>er_host = ''169.254.169.254'', er_port = Some 80\<rparr>]\<rparr>,
     sx_filesystem = ISOLATED\<rparr>"

theorem check_sandbox_hardened_witness:
  "\<exists>t n. check_sandbox port_limited_sandbox = Inr t \<and> eg_deny (sx_egress t) = [''169.254.169.254''] \<and>
     sx_network t = Some n \<and> nw_deny n = [\<lparr>er_host = ''169.254.169.254'', er_port = Some 80\<rparr>]"
proof -
  obtain t where "check_sandbox port_limited_sandbox = Inr t" by (simp add: check_sandbox_def port_limited_sandbox_def)
  with check_sandbox_hardened [of port_limited_sandbox] show ?thesis by (auto simp: port_limited_sandbox_def)
qed

text \<open>
  The user guide says the network rules always deny the metadata endpoint. A block with a deny rule for
  one port of it is left with that rule alone; only the check at run time still refuses the host.
\<close>

lemma port_rule_suppresses_deny:
  "\<exists>t n. check_sandbox port_limited_sandbox = Inr t \<and> sx_network t = Some n \<and>
     \<not> (\<exists>rule \<in> set (nw_deny n). er_host rule = ''169.254.169.254'' \<and> er_port rule = None)"
  by (simp add: check_sandbox_def port_limited_sandbox_def CLOUD_METADATA_ENDPOINTS_def deny_endpoint_def)

section \<open>Sample values for the concrete instances of the properties\<close>

definition sample_run :: "string \<Rightarrow> string \<Rightarrow> run_state \<Rightarrow> run" where
  "sample_run tenant_id run_id state =
     \<lparr>r_id = run_id, r_workload_id = ''w'', r_caller = ''ops'', r_state = state, r_model_identity = None,
      r_created_at = 0, r_updated_at = 0, r_started_at = None, r_finished_at = None,
      r_trigger_origin = None, r_pipeline_origin = None, r_agent_tool_origin = None,
      r_manifest_version = Some 1, r_context = Some STAGING, r_sandbox = False, r_task = [],
      r_result = None, r_failure_reason = None, r_cost_usd = 0, r_sandbox_id = None,
      r_trace_id = None, r_shadow_of = None, r_probe = False, r_read_only = False,
      r_canary_rollout_id = None, r_canary_arm = None, r_tenant_id = tenant_id, r_team_id = None,
      r_attribution_key = None\<rparr>"

definition sample_workload :: "string \<Rightarrow> string option \<Rightarrow> budget_spec \<Rightarrow> agent_workload" where
  "sample_workload name team budget =
     \<lparr>aw_metadata = \<lparr>md_name = name, md_owner = ''owner'', md_team = team, md_description = None, md_labels = []\<rparr>,
      aw_spec = \<lparr>ws_runtime = \<lparr>rt_adapter = RAW_WORKER, rt_entrypoint = ''a:b'', rt_env = [], rt_adapter_contract = ''v1''\<rparr>,
        ws_budget = budget, ws_model = \<lparr>mo_strategy = FIXED, mo_identity = None\<rparr>, ws_certification = None,
        ws_triggers = [], ws_sandbox = None, ws_output_shaping = None,
        ws_tools = \<lparr>ts_allow = [], ts_deny = [], ts_mcp_servers = [], ts_default_trust = TRUST_READ_ONLY\<rparr>,
        ws_approvals = \<lparr>as_required_for = [], as_contact = None, as_auto_escalate_after = 3600\<rparr>,
        ws_guards = None, ws_fan_out = \<lparr>fo_on_completed = [], fo_on_failed = [], fo_on_escalation = [], fo_always_include = []\<rparr>,
        ws_health = \<lparr>hs_readiness_probe = \<lparr>rp_type = DRY_RUN, rp_interval = 60\<rparr>,
          hs_slo = \<lparr>sl_availability_target = 99 / 100, sl_quality_target = 9 / 10, sl_error_budget_window = 86400\<rparr>,
          hs_failure_rate_threshold = 1 / 10\<rparr>,
        ws_observability = \<lparr>ob_contract = ''v1'', ob_trace_sampling = 1\<rparr>, ws_io = None, ws_secrets = [],
        ws_time_windows = []\<rparr>\<rparr>"

definition sample_usage :: "string \<Rightarrow> usage_report" where
  "sample_usage model = \<lparr>ur_run_id = ''r'', ur_input_tokens = 1000, ur_output_tokens = 1000, ur_tool_calls = 0,
     ur_cost_usd = 0, ur_timestamp = 0, ur_model_identity = Some model, ur_prompt = None, ur_response = None,
     ur_latency_ms = None\<rparr>"

end
