(* ===== verification/Policy_Packs.thy ===== *)
theory Policy_Packs
  imports Core_Model
begin

text \<open>
  Team policy packs: the models (\<open>policy/models.py\<close>), the in-memory store
  (\<open>policy/packs.py\<close>) and the registry that lints, publishes, resolves and applies packs
  (\<open>policy/pack_registry.py\<close>). \<open>resolve\<close> recurses through parent packs without a
  guard; it is a partial function here, whose value \<open>None\<close> is a recursion that does not end.
\<close>

section \<open>Models\<close>

record policy_pack_defaults =
  dd_sandbox_for_destructive :: bool
  dd_injection_scan :: bool
  dd_max_bytes :: "int option"

record policy_pack_rule =
  pr_action :: decision_outcome
  pr_action_class :: "action_class option"
  pr_tool_trust :: "tool_trust_level option"

record policy_pack_rule_match =
  pm_environment :: "admission_context option"
  pm_data_sensitivity :: "data_sensitivity option"

record policy_pack_override =
  ov_match :: policy_pack_rule_match
  ov_rules :: "policy_pack_rule list"

record policy_pack_spec =
  ps_defaults :: policy_pack_defaults
  ps_overrides :: "policy_pack_override list"
  ps_approval_contacts :: "(string, string) dict"
  ps_inherits :: "string list"

record policy_pack_metadata =
  pk_name :: string
  pk_team :: string
  pk_version :: string
  pk_tenant_id :: string
  pk_default :: bool

record policy_pack =
  pp_metadata :: policy_pack_metadata
  pp_spec :: policy_pack_spec

abbreviation pack_name :: "policy_pack \<Rightarrow> string" where
  "pack_name p \<equiv> pk_name (pp_metadata p)"

abbreviation pack_tenant :: "policy_pack \<Rightarrow> string" where
  "pack_tenant p \<equiv> pk_tenant_id (pp_metadata p)"

abbreviation pack_inherits :: "policy_pack \<Rightarrow> string list" where
  "pack_inherits p \<equiv> ps_inherits (pp_spec p)"

datatype pack_error =
    PackScopeError tenancy_error
  | PolicyPackAlreadyExistsError string
  | PackKeyError string

section \<open>The in-memory store\<close>

type_synonym pack_store = "(string \<times> string, policy_pack) dict"

definition pack_save :: "pack_store \<Rightarrow> tenant_context \<Rightarrow> policy_pack \<Rightarrow> pack_error + pack_store" where
  "pack_save st ctx pack = (case require ctx (pack_tenant pack) of
       Inl e \<Rightarrow> Inl (PackScopeError e)
     | Inr _ \<Rightarrow>
         (let key = (pack_tenant pack, pack_name pack) in
          if dict_get st key \<noteq> None then Inl (PolicyPackAlreadyExistsError (pack_name pack))
          else Inr (dict_put key pack st)))"

definition pack_get :: "pack_store \<Rightarrow> tenant_context \<Rightarrow> string \<Rightarrow> policy_pack option" where
  "pack_get st ctx name =
     (let candidates = map snd (filter (\<lambda>((tenant_id, n), _). n = name \<and> scopes ctx tenant_id) st) in
      if candidates = [] then None else Some (hd (sort_key pack_tenant candidates)))"

definition list_packs :: "pack_store \<Rightarrow> tenant_context \<Rightarrow> policy_pack list" where
  "list_packs st ctx = sort_key (\<lambda>p. (pack_name p, pack_tenant p))
     (filter (\<lambda>p. scopes ctx (pack_tenant p)) (dict_values st))"

definition for_team :: "pack_store \<Rightarrow> tenant_context \<Rightarrow> string option \<Rightarrow> policy_pack list" where
  "for_team st ctx team = (case team of
       None \<Rightarrow> []
     | Some t \<Rightarrow> filter (\<lambda>p. pk_team (pp_metadata p) = t) (list_packs st ctx))"

section \<open>The registry\<close>

type_synonym pack_catalog = "(string, policy_pack) dict"

text \<open>
  The loop of \<open>_has_cycle\<close> over the parents of a pack. It ends because every recursive call
  adds a name of the catalog to \<open>seen\<close>.
\<close>

function has_cycle :: "string list \<Rightarrow> pack_catalog \<Rightarrow> string list \<Rightarrow> bool" where
  "has_cycle [] catalog seen = False"
| "has_cycle (p # ps) catalog seen =
     (if p \<in> set seen then True
      else (case dict_get catalog p of
          None \<Rightarrow> has_cycle ps catalog seen
        | Some parent \<Rightarrow>
            (if has_cycle (pack_inherits parent) catalog (seen @ [p]) then True
             else has_cycle ps catalog seen)))"
  by pat_completeness auto

lemma has_cycle_measure:
  assumes "p \<notin> set seen" and "dict_get catalog p = Some q"
  shows "card (set (dict_keys catalog) - insert p (set seen)) < card (set (dict_keys catalog) - set seen)"
proof (rule psubset_card_mono)
  show "finite (set (dict_keys catalog) - set seen)" by simp
  have "p \<in> set (dict_keys catalog)"
    using assms(2) by (metis domI dom_map_of_conv_image_fst list.set_map)
  then show "set (dict_keys catalog) - insert p (set seen) \<subset> set (dict_keys catalog) - set seen"
    using assms(1) by auto
qed

termination has_cycle
  by (relation "measures [\<lambda>(ps, catalog, seen). card (set (dict_keys catalog) - set seen),
      \<lambda>(ps, catalog, seen). length ps]") (auto simp: has_cycle_measure simp del: set_map)

record pack_lint_result =
  pl_valid :: bool
  pl_issues :: "string list"

definition pack_lint :: "policy_pack \<Rightarrow> pack_catalog \<Rightarrow> pack_lint_result" where
  "pack_lint pack catalog =
     (let issues =
        map (\<lambda>parent. ''inherits unknown pack '' @ py_repr parent)
          (filter (\<lambda>parent. dict_get catalog parent = None) (pack_inherits pack)) @
        (if has_cycle (pack_inherits pack) catalog [pack_name pack]
         then [''inheritance cycle detected''] else [])
      in \<lparr>pl_valid = (issues = []), pl_issues = issues\<rparr>)"

definition pack_publish :: "pack_store \<Rightarrow> tenant_context \<Rightarrow> policy_pack \<Rightarrow> pack_error + pack_store" where
  "pack_publish st ctx pack = pack_save st ctx pack"

text \<open>The loop of \<open>resolve\<close> over the parents of a pack.\<close>

partial_function (option) resolve_parents :: "pack_catalog \<Rightarrow> string list \<Rightarrow> policy_pack list option" where
  "resolve_parents available ps = (case ps of
       [] \<Rightarrow> Some []
     | p # rest \<Rightarrow>
         (case dict_get available p of
            None \<Rightarrow> resolve_parents available rest
          | Some parent \<Rightarrow>
              Option.bind (resolve_parents available (pack_inherits parent)) (\<lambda>chain.
              Option.bind (resolve_parents available rest) (\<lambda>chains.
                Some (chain @ [parent] @ chains)))))"

definition resolve :: "pack_catalog \<Rightarrow> policy_pack \<Rightarrow> policy_pack list option" where
  "resolve available pack =
     map_option (\<lambda>chain. chain @ [pack]) (resolve_parents available (pack_inherits pack))"

definition pack_catalog_of :: "policy_pack list \<Rightarrow> pack_catalog" where
  "pack_catalog_of packs = fold (\<lambda>p. dict_put (pack_name p) p) packs []"

definition pin_pack :: "string \<Rightarrow> policy_pack \<Rightarrow> policy_pack" where
  "pin_pack team pack =
     pack\<lparr>pp_metadata := (pp_metadata pack)\<lparr>pk_team := team, pk_name := team @ '':'' @ pack_name pack\<rparr>,
          pp_spec := (pp_spec pack)\<lparr>ps_inherits := []\<rparr>\<rparr>"

text \<open>The loop of \<open>apply\<close>: packs saved before an error stay saved.\<close>

fun save_pinned :: "tenant_context \<Rightarrow> string \<Rightarrow> policy_pack list \<Rightarrow> (pack_store, pack_error, policy_pack list) exec" where
  "save_pinned ctx team [] st = (Inr [], st)"
| "save_pinned ctx team (p # ps) st =
     (case pack_save st ctx (pin_pack team p) of
        Inl e \<Rightarrow> (Inl e, st)
      | Inr st' \<Rightarrow> (case save_pinned ctx team ps st' of
            (Inl e, st'') \<Rightarrow> (Inl e, st'')
          | (Inr applied, st'') \<Rightarrow> (Inr (pin_pack team p # applied), st'')))"

definition pack_apply ::
  "pack_store \<Rightarrow> tenant_context \<Rightarrow> string \<Rightarrow> string \<Rightarrow> ((pack_error + policy_pack list) \<times> pack_store) option" where
  "pack_apply st ctx name team =
     (let catalog = pack_catalog_of (list_packs st ctx) in
      case dict_get catalog name of
        None \<Rightarrow> Some (Inl (PackKeyError name), st)
      | Some root_pack \<Rightarrow>
          map_option (\<lambda>chain. save_pinned ctx team chain st) (resolve catalog root_pack))"

section \<open>The pack store implements the contract of a tenant-scoped store\<close>

definition pack_store_ok :: "pack_store \<Rightarrow> bool" where
  "pack_store_ok st \<longleftrightarrow> dict_ok st \<and> (\<forall>(k, p) \<in> set st. k = (pack_tenant p, pack_name p))"

lemma pack_store_okD: "pack_store_ok st \<Longrightarrow> ((t, n), p) \<in> set st \<Longrightarrow> t = pack_tenant p \<and> n = pack_name p"
  by (auto simp: pack_store_ok_def)

lemma pack_save_Inr:
  "(pack_save st ctx p = Inr st') =
     (scopes ctx (pack_tenant p) \<and> dict_get st (pack_tenant p, pack_name p) = None \<and>
      st' = st @ [((pack_tenant p, pack_name p), p)])"
  by (auto simp: pack_save_def Let_def dict_put_new split: sum.splits if_splits)
     (auto simp: require_def split: if_splits)

lemma pack_store_ok_save: "pack_store_ok st \<Longrightarrow> pack_save st ctx p = Inr st' \<Longrightarrow> pack_store_ok st'"
  by (auto simp: pack_save_Inr pack_store_ok_def map_of_eq_None_iff)

lemma filter_key_own:
  "dict_ok st \<Longrightarrow> filter (\<lambda>((t', n'), _). n' = n \<and> t' = t) st =
     (case dict_get st (t, n) of None \<Rightarrow> [] | Some p \<Rightarrow> [((t, n), p)])"
proof (induction st)
  case Nil
  show ?case by simp
next
  case (Cons x st)
  then show ?case
    by (cases x) (auto split: option.splits simp: map_of_eq_None_iff rev_image_eqI dict_get_in_set)
qed

lemma pack_get_own:
  assumes "dict_ok st" and "\<not> tc_is_system ctx"
  shows "pack_get st ctx n = dict_get st (tc_tenant_id ctx, n)"
proof -
  have "filter (\<lambda>((t', n'), _). n' = n \<and> scopes ctx t') st =
      filter (\<lambda>((t', n'), _). n' = n \<and> t' = tc_tenant_id ctx) st"
    using assms(2) by (intro filter_cong) (auto simp: scopes_def)
  then have "map snd (filter (\<lambda>((t', n'), _). n' = n \<and> scopes ctx t') st) =
      (case dict_get st (tc_tenant_id ctx, n) of None \<Rightarrow> [] | Some p \<Rightarrow> [p])"
    using filter_key_own [OF assms(1), of n "tc_tenant_id ctx"] by (simp split: option.splits)
  then show ?thesis
    by (simp add: pack_get_def split: option.splits)
qed

lemma pack_get_in:
  "pack_get st ctx n = Some p \<Longrightarrow> \<exists>t. ((t, n), p) \<in> set st \<and> scopes ctx t"
proof -
  assume g: "pack_get st ctx n = Some p"
  let ?c = "map snd (filter (\<lambda>((t, n'), _). n' = n \<and> scopes ctx t) st)"
  from g have "?c \<noteq> [] \<and> p = hd (sort_key pack_tenant ?c)"
    unfolding pack_get_def Let_def by (simp split: if_splits)
  then have "p \<in> set ?c"
    using hd_sort_key_in by blast
  then show ?thesis by auto
qed

interpretation packs: scoped_store pack_store_ok pack_get pack_save pack_name pack_tenant
proof unfold_locales
  fix st ctx k v
  assume "pack_store_ok st" and "pack_get st ctx k = Some v"
  then show "scopes ctx (pack_tenant v)"
    by (auto dest!: pack_get_in dest: pack_store_okD)
next
  fix st st' ctx v
  assume "pack_save st ctx v = Inr st'"
  then show "scopes ctx (pack_tenant v)" by (simp add: pack_save_Inr)
next
  fix st st' ctx v
  assume "pack_store_ok st" and "pack_save st ctx v = Inr st'"
  then show "pack_store_ok st'" by (rule pack_store_ok_save)
next
  fix st st' ctx v team attr
  assume ok: "pack_store_ok st" and s: "pack_save st ctx v = Inr st'"
  then have "dict_ok st'" using pack_store_ok_save pack_store_ok_def by blast
  then show "pack_get st' (context_for_run (pack_tenant v) team attr) (pack_name v) = Some v"
    using s by (simp add: pack_get_own pack_save_Inr map_add_Some_iff)
next
  fix st st' ctx v k and rctx :: tenant_context
  assume ok: "pack_store_ok st" and s: "pack_save st ctx v = Inr st'" and r: "\<not> tc_is_system rctx"
    and k: "tc_tenant_id rctx \<noteq> pack_tenant v \<or> k \<noteq> pack_name v"
  have "dict_ok st" "dict_ok st'"
    using ok pack_store_ok_save [OF ok s] by (auto simp: pack_store_ok_def)
  then show "pack_get st' rctx k = pack_get st rctx k"
    using s r k by (auto simp: pack_get_own pack_save_Inr map_add_def split: option.splits)
qed

lemma list_packs_save_other:
  "pack_save st ctx p = Inr st' \<Longrightarrow> \<not> scopes rctx (pack_tenant p) \<Longrightarrow>
     list_packs st' rctx = list_packs st rctx"
  by (simp add: pack_save_Inr list_packs_def)

lemma list_packs_writes_other:
  "\<forall>w \<in> set ws. \<not> scopes (fst w) (tc_tenant_id rctx) \<Longrightarrow> \<not> tc_is_system rctx \<Longrightarrow>
     list_packs (packs.writes st ws) rctx = list_packs st rctx"
proof (induction ws arbitrary: st)
  case Nil
  show ?case by simp
next
  case (Cons w ws)
  obtain ctx p where w: "w = (ctx, p)" by (cases w)
  show ?case
  proof (cases "pack_save st ctx p")
    case (Inl e)
    with Cons w show ?thesis by simp
  next
    case (Inr st')
    then have "scopes ctx (pack_tenant p)" by (simp add: pack_save_Inr)
    then have "\<not> scopes rctx (pack_tenant p)"
      using Cons.prems w by (auto simp: scopes_def)
    then show ?thesis
      using list_packs_save_other [OF Inr] Cons w Inr by simp
  qed
qed

section \<open>Inheritance\<close>

lemma resolve_parents_Nil [simp]: "resolve_parents av [] = Some []"
  by (subst resolve_parents.simps) simp

lemma resolve_parents_Cons:
  "resolve_parents av (p # rest) = (case dict_get av p of
      None \<Rightarrow> resolve_parents av rest
    | Some parent \<Rightarrow>
        Option.bind (resolve_parents av (pack_inherits parent)) (\<lambda>chain.
        Option.bind (resolve_parents av rest) (\<lambda>chains. Some (chain @ [parent] @ chains))))"
  by (subst resolve_parents.simps) simp

lemma resolve_parents_ends: "\<not> has_cycle ps catalog seen \<Longrightarrow> \<exists>chain. resolve_parents catalog ps = Some chain"
proof (induction ps catalog seen rule: has_cycle.induct)
  case (1 catalog seen)
  show ?case by simp
next
  case (2 p ps catalog seen)
  show ?case
  proof (cases "dict_get catalog p")
    case None
    with 2 show ?thesis by (auto simp: resolve_parents_Cons split: if_splits)
  next
    case (Some parent)
    with 2 have "\<exists>c. resolve_parents catalog (pack_inherits parent) = Some c"
      and "\<exists>c. resolve_parents catalog ps = Some c"
      by (auto split: if_splits)
    with Some show ?thesis by (auto simp: resolve_parents_Cons)
  qed
qed

text \<open>Every pack of a resolved chain has its available parents earlier in the chain.\<close>

definition parents_first :: "pack_catalog \<Rightarrow> policy_pack list \<Rightarrow> bool" where
  "parents_first available chain \<longleftrightarrow>
     (\<forall>i < length chain. \<forall>p \<in> set (pack_inherits (chain ! i)). \<forall>q.
        dict_get available p = Some q \<longrightarrow> q \<in> set (take i chain))"

lemma parents_first_Nil [simp]: "parents_first av []"
  by (simp add: parents_first_def)

lemma parents_first_append:
  assumes "parents_first av xs" and "parents_first av ys"
  shows "parents_first av (xs @ ys)"
  unfolding parents_first_def
proof (intro allI impI ballI)
  fix i p q
  assume i: "i < length (xs @ ys)" and p: "p \<in> set (pack_inherits ((xs @ ys) ! i))"
    and q: "dict_get av p = Some q"
  show "q \<in> set (take i (xs @ ys))"
  proof (cases "i < length xs")
    case True
    then show ?thesis using assms(1) p q by (auto simp: parents_first_def nth_append)
  next
    case False
    then have "i - length xs < length ys" using i by auto
    then have "q \<in> set (take (i - length xs) ys)"
      using assms(2) p q False by (auto simp: parents_first_def nth_append)
    then show ?thesis using False by simp
  qed
qed

lemma parents_first_snoc:
  assumes "parents_first av xs"
    and "\<forall>p \<in> set (pack_inherits x). \<forall>q. dict_get av p = Some q \<longrightarrow> q \<in> set xs"
  shows "parents_first av (xs @ [x])"
  using assms by (auto simp: parents_first_def nth_append less_Suc_eq)

lemma resolve_parents_chain:
  assumes "resolve_parents av ps = Some chain"
  shows "parents_first av chain \<and> (\<forall>p \<in> set ps. \<forall>q. dict_get av p = Some q \<longrightarrow> q \<in> set chain)"
proof (rule resolve_parents.raw_induct [OF _ assms])
  fix f :: "pack_catalog \<Rightarrow> string list \<Rightarrow> policy_pack list option" and av ps chain
  assume IH: "\<And>av ps chain. f av ps = Some chain \<Longrightarrow>
      parents_first av chain \<and> (\<forall>p \<in> set ps. \<forall>q. dict_get av p = Some q \<longrightarrow> q \<in> set chain)"
    and step: "(case ps of [] \<Rightarrow> Some [] | p # rest \<Rightarrow> (case dict_get av p of None \<Rightarrow> f av rest
      | Some parent \<Rightarrow> Option.bind (f av (pack_inherits parent)) (\<lambda>chain.
          Option.bind (f av rest) (\<lambda>chains. Some (chain @ [parent] @ chains))))) = Some chain"
  show "parents_first av chain \<and> (\<forall>p \<in> set ps. \<forall>q. dict_get av p = Some q \<longrightarrow> q \<in> set chain)"
  proof (cases ps)
    case Nil
    with step show ?thesis by simp
  next
    case (Cons p rest)
    show ?thesis
    proof (cases "dict_get av p")
      case None
      with step Cons IH show ?thesis by auto
    next
      case (Some parent)
      with step Cons obtain a b where ab: "f av (pack_inherits parent) = Some a" "f av rest = Some b"
        and c: "chain = a @ [parent] @ b"
        by (auto simp: bind_eq_Some_conv)
      have "parents_first av (a @ [parent])"
        using IH [OF ab(1)] by (intro parents_first_snoc) auto
      then have "parents_first av ((a @ [parent]) @ b)"
        using IH [OF ab(2)] parents_first_append [of av "a @ [parent]" b] by blast
      then show ?thesis
        using IH [OF ab(1)] IH [OF ab(2)] c Cons Some by auto
    qed
  qed
qed

lemma resolve_parents_first: "resolve av pack = Some chain \<Longrightarrow> parents_first av chain \<and> last chain = pack"
  using resolve_parents_chain by (auto simp: resolve_def intro!: parents_first_snoc)

text \<open>
  C29: a pack that lints without issues resolves: the recursion ends, the chain ends with the pack
  itself, and every pack of the chain comes after all of its parents.
\<close>

theorem lint_resolves:
  assumes "pl_valid (pack_lint pack catalog)"
  shows "\<exists>chain. resolve catalog pack = Some chain \<and> last chain = pack \<and> parents_first catalog chain"
proof -
  have "\<not> has_cycle (pack_inherits pack) catalog [pack_name pack]"
    using assms by (auto simp: pack_lint_def Let_def)
  then obtain chain where "resolve catalog pack = Some (chain @ [pack])"
    using resolve_parents_ends by (fastforce simp: resolve_def)
  then show ?thesis using resolve_parents_first by blast
qed

text \<open>Packs of a two-level hierarchy, used to exercise the properties.\<close>

definition sample_pack :: "string \<Rightarrow> string list \<Rightarrow> policy_pack" where
  "sample_pack name parents =
     \<lparr>pp_metadata = \<lparr>pk_name = name, pk_team = ''sre'', pk_version = ''1'', pk_tenant_id = ''default'',
        pk_default = False\<rparr>,
      pp_spec = \<lparr>ps_defaults = \<lparr>dd_sandbox_for_destructive = True, dd_injection_scan = True,
          dd_max_bytes = None\<rparr>,
        ps_overrides = [], ps_approval_contacts = [], ps_inherits = parents\<rparr>\<rparr>"

theorem lint_resolves_witness:
  "\<exists>chain. resolve [(''base'', sample_pack ''base'' [])] (sample_pack ''child'' [''base'']) = Some chain \<and>
     last chain = sample_pack ''child'' [''base'']"
  using lint_resolves [of "sample_pack ''child'' [''base'']" "[(''base'', sample_pack ''base'' [])]"]
  by (auto simp: pack_lint_def sample_pack_def Let_def)

lemma resolve_parents_self_loop:
  assumes "dict_get av n = Some p" and "pack_inherits p = [n]"
  shows "resolve_parents av [n] = None"
proof (rule ccontr)
  assume "resolve_parents av [n] \<noteq> None"
  then obtain chain where c: "resolve_parents av [n] = Some chain" by auto
  have "\<not> (av' = av \<and> ps = [n])" if "resolve_parents av' ps = Some chain'" for av' ps chain'
    using that
  proof (rule resolve_parents.raw_induct [rotated])
    fix f :: "pack_catalog \<Rightarrow> string list \<Rightarrow> policy_pack list option" and av' ps chain'
    assume "\<And>av' ps chain'. f av' ps = Some chain' \<Longrightarrow> \<not> (av' = av \<and> ps = [n])"
      and "(case ps of [] \<Rightarrow> Some [] | p # rest \<Rightarrow> (case dict_get av' p of None \<Rightarrow> f av' rest
        | Some parent \<Rightarrow> Option.bind (f av' (pack_inherits parent)) (\<lambda>chain.
            Option.bind (f av' rest) (\<lambda>chains. Some (chain @ [parent] @ chains))))) = Some chain'"
    then show "\<not> (av' = av \<and> ps = [n])"
      using assms by (fastforce simp: bind_eq_Some_conv)
  qed
  with c show False by blast
qed

lemma pack_catalog_of_name: "dict_get (pack_catalog_of packs) n = Some p \<Longrightarrow> p \<in> set packs \<and> pack_name p = n"
proof -
  have "dict_get (fold (\<lambda>p. dict_put (pack_name p) p) packs d) n = Some p \<Longrightarrow>
      (p \<in> set packs \<and> pack_name p = n) \<or> dict_get d n = Some p" for d
    by (induction packs arbitrary: d) (fastforce split: if_splits)+
  then show "dict_get (pack_catalog_of packs) n = Some p \<Longrightarrow> p \<in> set packs \<and> pack_name p = n"
    by (fastforce simp: pack_catalog_of_def)
qed

text \<open>
  \<open>apply\<close> does not lint. A published pack that inherits from itself is never applied: the
  recursion of \<open>resolve\<close> does not end, although \<open>lint\<close> reports the cycle.
\<close>

theorem apply_self_inheriting_diverges:
  assumes "dict_get (pack_catalog_of (list_packs st ctx)) n = Some p" and "pack_inherits p = [n]"
  shows "pack_apply st ctx n team = None \<and>
    \<not> pl_valid (pack_lint p (pack_catalog_of (list_packs st ctx)))"
proof
  show "pack_apply st ctx n team = None"
    using assms resolve_parents_self_loop by (simp add: pack_apply_def resolve_def)
  show "\<not> pl_valid (pack_lint p (pack_catalog_of (list_packs st ctx)))"
    using assms pack_catalog_of_name [OF assms(1)] by (simp add: pack_lint_def)
qed

theorem apply_self_inheriting_diverges_witness:
  "pack_apply [((''default'', ''loop''), sample_pack ''loop'' [''loop''])] DEFAULT_CONTEXT ''loop'' ''sre'' = None"
  using apply_self_inheriting_diverges [of "[((''default'', ''loop''), sample_pack ''loop'' [''loop''])]"
      DEFAULT_CONTEXT "''loop''" "sample_pack ''loop'' [''loop'']" "''sre''"]
  by (simp add: sample_pack_def pack_catalog_of_def list_packs_def DEFAULT_CONTEXT_def scopes_def
      DEFAULT_TENANT_ID_def)

lemma save_pinned_appends:
  "save_pinned ctx team ps st = (r, st') \<Longrightarrow>
     \<exists>done rest. map (pin_pack team) ps = done @ rest \<and>
       st' = st @ map (\<lambda>p. ((pack_tenant p, pack_name p), p)) done \<and>
       (\<forall>p \<in> set done. scopes ctx (pack_tenant p)) \<and>
       (case r of Inl _ \<Rightarrow> rest \<noteq> [] | Inr applied \<Rightarrow> rest = [] \<and> applied = done)"
proof (induction ps arbitrary: st r st')
  case Nil
  then show ?case by auto
next
  case (Cons p ps)
  show ?case
  proof (cases "pack_save st ctx (pin_pack team p)")
    case (Inl e)
    with Cons.prems show ?thesis
      by (intro exI [of _ "[]"] exI [of _ "map (pin_pack team) (p # ps)"]) auto
  next
    case (Inr st1)
    obtain r1 st2 where s: "save_pinned ctx team ps st1 = (r1, st2)" by fastforce
    from Cons.IH [OF s] obtain dn rest where d: "map (pin_pack team) ps = dn @ rest"
      "st2 = st1 @ map (\<lambda>p. ((pack_tenant p, pack_name p), p)) dn"
      "\<forall>p \<in> set dn. scopes ctx (pack_tenant p)"
      "case r1 of Inl _ \<Rightarrow> rest \<noteq> [] | Inr applied \<Rightarrow> rest = [] \<and> applied = dn"
      by blast
    from Inr have "scopes ctx (pack_tenant (pin_pack team p))"
      and "st1 = st @ [((pack_tenant (pin_pack team p), pack_name (pin_pack team p)), pin_pack team p)]"
      by (simp_all add: pack_save_Inr)
    moreover have "st' = st2" and "r = (case r1 of Inl e \<Rightarrow> Inl e | Inr a \<Rightarrow> Inr (pin_pack team p # a))"
      using Cons.prems Inr s by (auto split: sum.splits)
    ultimately show ?thesis
      using d by (intro exI [of _ "pin_pack team p # dn"] exI [of _ rest]) (auto split: sum.splits)
  qed
qed

text \<open>
  Applying a pack pins its whole resolved chain. When \<open>apply\<close> returns, it has appended one
  pinned copy of every pack of the chain, in order, each bound to the team, without parents and
  within the acting scope; when it raises instead, it may leave a proper prefix of the chain
  saved, but nothing else has changed.
\<close>

theorem pack_apply_pins:
  assumes "dict_get (pack_catalog_of (list_packs st ctx)) name = Some p"
    and "resolve (pack_catalog_of (list_packs st ctx)) p = Some chain"
  shows "\<exists>r dn rest. map (pin_pack team) chain = dn @ rest \<and>
     pack_apply st ctx name team =
       Some (r, st @ map (\<lambda>p. ((pack_tenant p, pack_name p), p)) dn) \<and>
     (\<forall>p \<in> set dn. scopes ctx (pack_tenant p) \<and> pk_team (pp_metadata p) = team \<and> pack_inherits p = []) \<and>
     (case r of Inl _ \<Rightarrow> rest \<noteq> [] | Inr applied \<Rightarrow> applied = map (pin_pack team) chain \<and> rest = [])"
proof -
  obtain r st' where s: "save_pinned ctx team chain st = (r, st')" by fastforce
  from save_pinned_appends [OF s] obtain dn rest where d: "map (pin_pack team) chain = dn @ rest"
      "st' = st @ map (\<lambda>p. ((pack_tenant p, pack_name p), p)) dn"
      "\<forall>p \<in> set dn. scopes ctx (pack_tenant p)"
      "case r of Inl _ \<Rightarrow> rest \<noteq> [] | Inr applied \<Rightarrow> rest = [] \<and> applied = dn"
    by blast
  have "set dn \<subseteq> set (map (pin_pack team) chain)" using d(1) by simp
  then have "\<forall>p \<in> set dn. pk_team (pp_metadata p) = team \<and> pack_inherits p = []"
    by (auto simp: pin_pack_def)
  then show ?thesis
    using assms s d
    by (intro exI [of _ r] exI [of _ dn] exI [of _ rest]) (auto simp: pack_apply_def split: sum.splits)
qed

theorem pack_apply_pins_witness:
  "\<exists>r dn. pack_apply [((''default'', ''base''), sample_pack ''base'' [])] DEFAULT_CONTEXT ''base'' ''web'' =
       Some (r, [((''default'', ''base''), sample_pack ''base'' [])] @
         map (\<lambda>p. ((pack_tenant p, pack_name p), p)) dn)"
  using pack_apply_pins [of "[((''default'', ''base''), sample_pack ''base'' [])]" DEFAULT_CONTEXT "''base''"
      "sample_pack ''base'' []" "[sample_pack ''base'' []]" "''web''"]
  by (force simp: sample_pack_def pack_catalog_of_def list_packs_def DEFAULT_CONTEXT_def scopes_def
      DEFAULT_TENANT_ID_def resolve_def)

end
