(* ===== verification/Policy_Engine.thy ===== *)
theory Policy_Engine
  imports Policy_Packs
begin

text \<open>
  The policy engine (\<open>policy/engine.py\<close>): the blast-radius score and the ordered,
  deny-by-default evaluation of a run or tool call. Telemetry spans and metrics are outputs
  that do not influence the decision and are left out. The clock is read at most twice, once
  for the time windows (\<open>now_w\<close>) and once for the decision (\<open>now_d\<close>); the zone database is a
  parameter.
\<close>

section \<open>Blast radius\<close>

definition blast_factors :: "policy_context \<Rightarrow> (string, int) dict" where
  "blast_factors c =
     (if pc_tool_trust c = Some TRUST_DESTRUCTIVE then [(''tool_trust'', 35)] else []) @
     (case pc_environment c of
        PRODUCTION \<Rightarrow> [(''environment'', 50)] | STAGING \<Rightarrow> [(''environment'', 15)] | SANDBOX \<Rightarrow> []) @
     (case pc_data_sensitivity c of
        RESTRICTED \<Rightarrow> [(''data_sensitivity'', 20)] | PII \<Rightarrow> [(''data_sensitivity'', 15)]
      | INTERNAL \<Rightarrow> [(''data_sensitivity'', 5)] | PUBLIC \<Rightarrow> []) @
     (case pc_action_class c of
        Some AC_PRODUCTION_WRITE \<Rightarrow> [(''action_class'', 20)] | Some AC_DESTRUCTIVE \<Rightarrow> [(''action_class'', 20)]
      | Some AC_HIGH_SPEND \<Rightarrow> [(''action_class'', 10)] | _ \<Rightarrow> []) @
     (case pc_certification_status c of
        UNCERTIFIED \<Rightarrow> [(''certification'', 15)] | PROVISIONAL \<Rightarrow> [(''certification'', 8)] | _ \<Rightarrow> [])"

definition compute_blast_radius :: "policy_context \<Rightarrow> blast_radius" where
  "compute_blast_radius c =
     \<lparr>br_score = min 100 (sum_list (dict_values (blast_factors c))), br_factors = blast_factors c\<rparr>"

section \<open>Evaluation\<close>

definition decide ::
  "time \<Rightarrow> policy_context \<Rightarrow> decision_outcome \<Rightarrow> string \<Rightarrow> string \<Rightarrow> blast_radius \<Rightarrow> string option \<Rightarrow> bool \<Rightarrow>
   policy_decision" where
  "decide now_d c outcome rule reason blast pack_version dry_run =
     \<lparr>pd_run_id = pc_run_id c, pd_outcome = outcome, pd_reason = reason, pd_rule = rule,
      pd_action_class = pc_action_class c,
      pd_timestamp = (case pc_at c of Some t \<Rightarrow> t | None \<Rightarrow> now_d),
      pd_blast_radius = Some blast, pd_certification_status = Some (pc_certification_status c),
      pd_pack_version = pack_version, pd_detector_set_version = None, pd_dry_run = dry_run\<rparr>"

definition override_matches :: "policy_pack_override \<Rightarrow> policy_context \<Rightarrow> bool" where
  "override_matches override c =
     (let m = ov_match override in
      if pm_environment m \<noteq> None \<and> pm_environment m \<noteq> Some (pc_environment c) then False
      else \<not> (pm_data_sensitivity m \<noteq> None \<and> pm_data_sensitivity m \<noteq> Some (pc_data_sensitivity c)))"

text \<open>The innermost loop's guards: the rule applies unless one of them skips it.\<close>

definition rule_applies :: "policy_context \<Rightarrow> policy_pack_rule \<Rightarrow> bool" where
  "rule_applies c rule =
     (if pr_action rule = ALLOW then False
      else if pr_action_class rule \<noteq> None \<and> pr_action_class rule \<noteq> pc_action_class c then False
      else if pr_tool_trust rule \<noteq> None \<and> pr_tool_trust rule \<noteq> pc_tool_trust c then False
      else True)"

text \<open>The three nested loops return at the first applicable rule of a matching override.\<close>

fun first_rule :: "policy_context \<Rightarrow> policy_pack_rule list \<Rightarrow> policy_pack_rule option" where
  "first_rule c [] = None"
| "first_rule c (rule # rules) = (if rule_applies c rule then Some rule else first_rule c rules)"

fun first_override :: "policy_context \<Rightarrow> policy_pack_override list \<Rightarrow> policy_pack_rule option" where
  "first_override c [] = None"
| "first_override c (override # overrides) =
     (if \<not> override_matches override c then first_override c overrides
      else (case first_rule c (ov_rules override) of
          Some rule \<Rightarrow> Some rule | None \<Rightarrow> first_override c overrides))"

fun decision_from_packs ::
  "time \<Rightarrow> policy_pack list \<Rightarrow> policy_context \<Rightarrow> blast_radius \<Rightarrow> bool \<Rightarrow> policy_decision option" where
  "decision_from_packs now_d [] c blast dry_run = None"
| "decision_from_packs now_d (pack # rest) c blast dry_run =
     (case first_override c (ps_overrides (pp_spec pack)) of
        Some rule \<Rightarrow>
          Some (decide now_d c (pr_action rule)
            (if pr_action rule = DENY then ''pack.deny'' else ''pack.escalate'')
            (''policy pack '' @ py_repr (pack_name pack) @ '' applies'') blast
            (Some (pk_version (pp_metadata pack))) dry_run)
      | None \<Rightarrow> decision_from_packs now_d rest c blast dry_run)"

definition pack_decision ::
  "time \<Rightarrow> pack_store \<Rightarrow> policy_context \<Rightarrow> blast_radius \<Rightarrow> bool \<Rightarrow> policy_decision option" where
  "pack_decision now_d st c blast dry_run =
     (let ctx = context_for_run (pc_tenant_id c) None None;
          team_packs = for_team st ctx (pc_team c) in
      case decision_from_packs now_d team_packs c blast dry_run of
        Some d \<Rightarrow> Some d
      | None \<Rightarrow>
          (let team_names = map pack_name team_packs;
               defaults = filter (\<lambda>p. pk_default (pp_metadata p) \<and> pack_name p \<notin> set team_names)
                 (list_packs st ctx)
           in decision_from_packs now_d defaults c blast dry_run))"

fun time_windows_decision ::
  "zone_db \<Rightarrow> time \<Rightarrow> time_window list \<Rightarrow> time \<Rightarrow> policy_context \<Rightarrow> blast_radius \<Rightarrow> bool \<Rightarrow>
   window_error + policy_decision option" where
  "time_windows_decision zone w [] now_d c blast dry_run = Inr None"
| "time_windows_decision zone w (window # windows) now_d c blast dry_run =
     (if \<not> tw_matches window c then time_windows_decision zone w windows now_d c blast dry_run
      else if tw_blackout window then
        Inr (Some (decide now_d c DENY ''blackout'' ''action falls in a blackout calendar'' blast None dry_run))
      else (case tw_allows zone window w of
          Inl e \<Rightarrow> Inl e
        | Inr False \<Rightarrow>
            Inr (Some (decide now_d c DENY ''outside_time_window''
              (''action is outside the allowed window ('' @ tw_start window @ ''-'' @ tw_end window @ '' '' @
                tw_tz window @ '')'') blast None dry_run))
        | Inr True \<Rightarrow> time_windows_decision zone w windows now_d c blast dry_run))"

definition time_decision ::
  "zone_db \<Rightarrow> time \<Rightarrow> time \<Rightarrow> policy_context \<Rightarrow> blast_radius \<Rightarrow> bool \<Rightarrow> window_error + policy_decision option" where
  "time_decision zone now_w now_d c blast dry_run =
     time_windows_decision zone (case pc_at c of Some t \<Rightarrow> t | None \<Rightarrow> now_w)
       (pc_time_windows c) now_d c blast dry_run"

text \<open>
  The checks after the pack decision, for a tool call: sensitivity, the manifest's allow list,
  the environment, trust, approvals and the blast radius, in the order of the source. The two
  calls of \<open>_decide\<close> without \<open>dry_run\<close> take its default.
\<close>

definition tool_decision ::
  "time \<Rightarrow> policy_context \<Rightarrow> string \<Rightarrow> blast_radius \<Rightarrow> bool \<Rightarrow> policy_decision" where
  "tool_decision now_d c tool_id blast dry_run =
     (let dec = (\<lambda>outcome rule reason. decide now_d c outcome rule reason blast None dry_run) in
      if pc_data_sensitivity c = RESTRICTED \<and> pc_action_class c \<noteq> None \<and> pc_action_class c \<noteq> Some AC_READ_ONLY
        then dec DENY ''sensitivity.restricted'' ''restricted data forbids write actions''
      else if pc_data_sensitivity c = RESTRICTED \<and> pc_action_class c = Some AC_READ_ONLY
        then dec ESCALATE ''sensitivity.restricted.read''
          ''read-only access to restricted data requires approval''
      else if pc_data_sensitivity c = PII \<and> pc_tool_trust c = Some TRUST_DESTRUCTIVE
        then dec DENY ''sensitivity.pii'' ''PII forbids destructive tools''
      else (case pc_tools c of
          None \<Rightarrow> dec DENY ''default.deny'' (''tool '' @ py_repr tool_id @ '' is not allowed'')
        | Some tools \<Rightarrow>
            (if \<not> is_allowed tools tool_id
               then dec DENY ''default.deny'' (''tool '' @ py_repr tool_id @ '' is not allowed'')
             else if pc_environment c = SANDBOX
               then dec ALLOW ''sandbox.allow'' ''sandbox context allows the tool''
             else if pc_environment c = PRODUCTION \<and> pc_certification_status c \<noteq> CERTIFIED
               then dec DENY ''certification.production'' ''production requires a certified workload''
             else if pc_tool_trust c = Some TRUST_DESTRUCTIVE
               then dec ESCALATE ''trust.destructive'' ''destructive tools require approval''
             else if approval_required tools tool_id \<or>
                 (case pc_action_class c of None \<Rightarrow> False | Some a \<Rightarrow> a \<in> set (pc_approval_required_for c))
               then dec ESCALATE ''approvals.required'' ''action requires approval''
             else if br_score blast \<ge> 71 then
               (if pc_environment c = PRODUCTION \<and> pc_certification_status c = CERTIFIED
                then dec ALLOW ''blast_radius.high.certified''
                  ''high blast radius permitted by production certification''
                else decide now_d c DENY ''blast_radius.high'' ''blast radius is high'' blast None False)
             else if br_score blast \<ge> 31
               then dec ESCALATE ''blast_radius.medium'' ''blast radius is medium''
             else decide now_d c ALLOW ''manifest.allow'' ''tool is explicitly allowed'' blast None False)))"

definition evaluate ::
  "zone_db \<Rightarrow> time \<Rightarrow> time \<Rightarrow> pack_store \<Rightarrow> policy_context \<Rightarrow> bool \<Rightarrow> window_error + policy_decision" where
  "evaluate zone now_w now_d st c dry_run =
     (let blast = compute_blast_radius c;
          dec = (\<lambda>outcome rule reason. decide now_d c outcome rule reason blast None dry_run) in
      if pc_certification_status c = QUARANTINED \<and> pc_environment c \<noteq> SANDBOX
        then Inr (dec DENY ''certification.quarantined'' ''workload is quarantined'')
      else if pc_injection_detected c
        then Inr (dec BLOCK_INJECTION ''injection.scan'' ''tool output contains injection patterns'')
      else if pc_budget_exhausted c
        then Inr (dec DENY ''budget.exhausted'' ''budget is exhausted'')
      else (case pc_tool_id c of
          None \<Rightarrow>
            (case pack_decision now_d st c blast dry_run of
               Some d \<Rightarrow> Inr d
             | None \<Rightarrow> Inr (dec ALLOW ''run.allow'' ''no tool policy applies''))
        | Some tool_id \<Rightarrow>
            (case time_decision zone now_w now_d c blast dry_run of
               Inl e \<Rightarrow> Inl e
             | Inr (Some d) \<Rightarrow> Inr d
             | Inr None \<Rightarrow>
                 (if pc_taint_untrusted c \<and> pc_tool_trust c = Some TRUST_DESTRUCTIVE \<and>
                     (case pc_tools c of None \<Rightarrow> True | Some tools \<Rightarrow> \<not> allows_untrusted tools tool_id)
                    then Inr (dec DENY ''taint.block'' ''untrusted input may not reach a destructive tool'')
                  else if (case pc_tools c of None \<Rightarrow> False | Some tools \<Rightarrow> is_denied tools tool_id)
                    then Inr (dec DENY ''manifest.deny'' (''tool '' @ py_repr tool_id @ '' is explicitly denied''))
                  else (case pack_decision now_d st c blast dry_run of
                      Some d \<Rightarrow> Inr d
                    | None \<Rightarrow> Inr (tool_decision now_d c tool_id blast dry_run))))))"

section \<open>Packs\<close>

lemma decide_sel [simp]:
  "pd_outcome (decide n c out rule reason b v dry) = out"
  "pd_rule (decide n c out rule reason b v dry) = rule"
  "pd_dry_run (decide n c out rule reason b v dry) = dry"
  "(decide n c out rule reason b v dry)\<lparr>pd_dry_run := dry'\<rparr> = decide n c out rule reason b v dry'"
  by (simp_all add: decide_def)

lemma first_rule_not_allow: "first_rule c rules = Some r \<Longrightarrow> pr_action r \<noteq> ALLOW"
  by (induction rules) (auto simp: rule_applies_def split: if_splits)

lemma first_override_not_allow: "first_override c ovs = Some r \<Longrightarrow> pr_action r \<noteq> ALLOW"
  by (induction ovs) (auto split: if_splits option.splits dest: first_rule_not_allow)

lemma decision_from_packs_not_allow:
  "decision_from_packs n ps c b dry = Some d \<Longrightarrow>
     pd_outcome d \<noteq> ALLOW \<and> pd_rule d \<in> {''pack.deny'', ''pack.escalate''} \<and> pd_dry_run d = dry"
  by (induction ps) (auto split: option.splits if_splits dest: first_override_not_allow)

lemma pack_decision_not_allow:
  "pack_decision n st c b dry = Some d \<Longrightarrow>
     pd_outcome d \<noteq> ALLOW \<and> pd_rule d \<in> {''pack.deny'', ''pack.escalate''} \<and> pd_dry_run d = dry"
  by (auto simp: pack_decision_def Let_def split: option.splits dest: decision_from_packs_not_allow)

lemma pack_decision_empty [simp]: "pack_decision n [] c b dry = None"
  by (simp add: pack_decision_def for_team_def list_packs_def Let_def split: option.splits)

section \<open>Time windows\<close>

lemma time_windows_deny:
  "time_windows_decision zone w ws n c b dry = Inr (Some d) \<Longrightarrow>
     pd_outcome d = DENY \<and> pd_rule d \<in> {''blackout'', ''outside_time_window''} \<and> pd_dry_run d = dry"
  by (induction ws) (auto split: if_splits sum.splits bool.splits)

lemma time_windows_pass:
  "time_windows_decision zone w ws n c b dry = Inr None \<Longrightarrow>
     \<forall>window \<in> set ws. tw_matches window c \<longrightarrow> \<not> tw_blackout window \<and> tw_allows zone window w = Inr True"
  by (induction ws) (auto split: if_splits sum.splits bool.splits)

section \<open>Properties\<close>

text \<open>The weight each attribute of the context contributes.\<close>

fun environment_weight :: "admission_context \<Rightarrow> int" where
  "environment_weight PRODUCTION = 50"
| "environment_weight STAGING = 15"
| "environment_weight SANDBOX = 0"

fun certification_weight :: "certification_status \<Rightarrow> int" where
  "certification_weight UNCERTIFIED = 15"
| "certification_weight PROVISIONAL = 8"
| "certification_weight CERTIFIED = 0"
| "certification_weight QUARANTINED = 0"

fun sensitivity_weight :: "data_sensitivity \<Rightarrow> int" where
  "sensitivity_weight RESTRICTED = 20"
| "sensitivity_weight PII = 15"
| "sensitivity_weight INTERNAL = 5"
| "sensitivity_weight PUBLIC = 0"

fun action_weight :: "action_class option \<Rightarrow> int" where
  "action_weight (Some AC_PRODUCTION_WRITE) = 20"
| "action_weight (Some AC_DESTRUCTIVE) = 20"
| "action_weight (Some AC_HIGH_SPEND) = 10"
| "action_weight (Some AC_READ_ONLY) = 0"
| "action_weight None = 0"

definition trust_weight :: "tool_trust_level option \<Rightarrow> int" where
  "trust_weight t = (if t = Some TRUST_DESTRUCTIVE then 35 else 0)"

lemma weight_bounds:
  "environment_weight SANDBOX \<le> environment_weight e" "environment_weight e \<le> environment_weight PRODUCTION"
  "0 \<le> certification_weight s" "0 \<le> sensitivity_weight v" "0 \<le> action_weight a" "0 \<le> trust_weight t"
  "trust_weight t \<le> trust_weight (Some TRUST_DESTRUCTIVE)"
proof -
  show "environment_weight SANDBOX \<le> environment_weight e" "environment_weight e \<le> environment_weight PRODUCTION"
    by (cases e; simp)+
  show "0 \<le> certification_weight s" by (cases s) simp_all
  show "0 \<le> sensitivity_weight v" by (cases v) simp_all
  show "0 \<le> action_weight a" by (cases a rule: action_weight.cases) simp_all
  show "0 \<le> trust_weight t" "trust_weight t \<le> trust_weight (Some TRUST_DESTRUCTIVE)"
    by (simp_all add: trust_weight_def)
qed

lemma blast_sum:
  "sum_list (dict_values (blast_factors c)) =
     trust_weight (pc_tool_trust c) + environment_weight (pc_environment c) +
     sensitivity_weight (pc_data_sensitivity c) + action_weight (pc_action_class c) +
     certification_weight (pc_certification_status c)"
proof -
  have env: "sum_list (dict_values (case e of PRODUCTION \<Rightarrow> [(''environment'', 50)]
      | STAGING \<Rightarrow> [(''environment'', 15)] | SANDBOX \<Rightarrow> [])) = environment_weight e" for e
    by (cases e) auto
  have sens: "sum_list (dict_values (case v of RESTRICTED \<Rightarrow> [(''data_sensitivity'', 20)]
      | PII \<Rightarrow> [(''data_sensitivity'', 15)] | INTERNAL \<Rightarrow> [(''data_sensitivity'', 5)] | PUBLIC \<Rightarrow> [])) =
      sensitivity_weight v" for v
    by (cases v) auto
  have act: "sum_list (dict_values (case a of Some AC_PRODUCTION_WRITE \<Rightarrow> [(''action_class'', 20)]
      | Some AC_DESTRUCTIVE \<Rightarrow> [(''action_class'', 20)] | Some AC_HIGH_SPEND \<Rightarrow> [(''action_class'', 10)]
      | _ \<Rightarrow> [])) = action_weight a" for a
    by (cases a rule: action_weight.cases) auto
  have cert: "sum_list (dict_values (case s of UNCERTIFIED \<Rightarrow> [(''certification'', 15)]
      | PROVISIONAL \<Rightarrow> [(''certification'', 8)] | _ \<Rightarrow> [])) = certification_weight s" for s
    by (cases s) auto
  show ?thesis
    by (simp add: blast_factors_def env sens act cert trust_weight_def)
qed

lemma blast_score:
  "br_score (compute_blast_radius c) = min 100
     (trust_weight (pc_tool_trust c) + environment_weight (pc_environment c) +
      sensitivity_weight (pc_data_sensitivity c) + action_weight (pc_action_class c) +
      certification_weight (pc_certification_status c))"
  by (simp add: compute_blast_radius_def blast_sum)

text \<open>
  The blast radius is the sum of its factors capped at 100, lies in the range the model
  declares, and every factor that makes an action riskier never lowers the score: losing
  certification, a destructive tool, and production instead of a sandbox.
\<close>

theorem blast_radius_score:
  "0 \<le> br_score (compute_blast_radius c) \<and> br_score (compute_blast_radius c) \<le> 100 \<and>
   br_score (compute_blast_radius c) = min 100 (sum_list (dict_values (br_factors (compute_blast_radius c)))) \<and>
   br_score (compute_blast_radius (c\<lparr>pc_certification_status := CERTIFIED\<rparr>)) \<le> br_score (compute_blast_radius c) \<and>
   br_score (compute_blast_radius c) \<le> br_score (compute_blast_radius (c\<lparr>pc_tool_trust := Some TRUST_DESTRUCTIVE\<rparr>)) \<and>
   br_score (compute_blast_radius (c\<lparr>pc_environment := SANDBOX\<rparr>)) \<le> br_score (compute_blast_radius c) \<and>
   br_score (compute_blast_radius c) \<le> br_score (compute_blast_radius (c\<lparr>pc_environment := PRODUCTION\<rparr>))"
proof (intro conjI)
  note w = weight_bounds(1,2) [of "pc_environment c"] weight_bounds(3) [of "pc_certification_status c"]
    weight_bounds(4) [of "pc_data_sensitivity c"] weight_bounds(5) [of "pc_action_class c"]
    weight_bounds(6,7) [of "pc_tool_trust c"]
  show "0 \<le> br_score (compute_blast_radius c)" "br_score (compute_blast_radius c) \<le> 100"
    using w by (simp_all add: blast_score)
  show "br_score (compute_blast_radius c) = min 100 (sum_list (dict_values (br_factors (compute_blast_radius c))))"
    by (simp add: compute_blast_radius_def)
  show "br_score (compute_blast_radius (c\<lparr>pc_certification_status := CERTIFIED\<rparr>)) \<le> br_score (compute_blast_radius c)"
    using w by (simp add: blast_score)
  show "br_score (compute_blast_radius c) \<le> br_score (compute_blast_radius (c\<lparr>pc_tool_trust := Some TRUST_DESTRUCTIVE\<rparr>))"
    using w by (simp add: blast_score)
  show "br_score (compute_blast_radius (c\<lparr>pc_environment := SANDBOX\<rparr>)) \<le> br_score (compute_blast_radius c)"
    using w by (simp add: blast_score)
  show "br_score (compute_blast_radius c) \<le> br_score (compute_blast_radius (c\<lparr>pc_environment := PRODUCTION\<rparr>))"
    using w by (simp add: blast_score)
qed

lemma tool_decision_allow:
  assumes "pd_outcome (tool_decision n c t b dry) = ALLOW"
  shows "\<exists>tools. pc_tools c = Some tools \<and> is_allowed tools t \<and>
    (pc_data_sensitivity c = RESTRICTED \<longrightarrow> pc_action_class c = None) \<and>
    (pc_data_sensitivity c = PII \<longrightarrow> pc_tool_trust c \<noteq> Some TRUST_DESTRUCTIVE) \<and>
    (pc_environment c = PRODUCTION \<longrightarrow> pc_certification_status c = CERTIFIED) \<and>
    (pc_environment c \<noteq> SANDBOX \<longrightarrow> pc_tool_trust c \<noteq> Some TRUST_DESTRUCTIVE \<and>
       \<not> approval_required tools t \<and>
       (\<forall>a. pc_action_class c = Some a \<longrightarrow> a \<notin> set (pc_approval_required_for c)))"
  using assms by (auto simp: tool_decision_def Let_def split: if_splits option.splits)

lemma evaluate_checks:
  assumes "evaluate zone now_w now_d st c dry = Inr d" "pd_outcome d = ALLOW"
  shows "(pc_certification_status c = QUARANTINED \<longrightarrow> pc_environment c = SANDBOX) \<and>
    \<not> pc_injection_detected c \<and> \<not> pc_budget_exhausted c \<and>
    pack_decision now_d st c (compute_blast_radius c) dry = None \<and>
    (case pc_tool_id c of
       None \<Rightarrow> pd_rule d = ''run.allow''
     | Some t \<Rightarrow> d = tool_decision now_d c t (compute_blast_radius c) dry \<and>
         time_decision zone now_w now_d c (compute_blast_radius c) dry = Inr None \<and>
         (pc_taint_untrusted c \<and> pc_tool_trust c = Some TRUST_DESTRUCTIVE \<longrightarrow>
            (\<exists>tools. pc_tools c = Some tools \<and> allows_untrusted tools t)))"
  using assms
  by (auto simp: evaluate_def Let_def time_decision_def split: if_splits option.splits sum.splits
      dest: pack_decision_not_allow time_windows_deny)

text \<open>
  C1: deny by default. A tool call is allowed only when the manifest lists the tool and does not
  deny it; the workload is not quarantined outside a sandbox; no injection was detected and the
  budget is not exhausted; every matching time window is open; untrusted input reaches a
  destructive tool only by an explicit exemption; restricted data is not touched by a
  classified action and PII not by a destructive tool; production requires certification; and
  outside a sandbox the tool is neither destructive nor subject to approval.
\<close>

theorem evaluate_allow_sound:
  assumes "evaluate zone now_w now_d st c dry = Inr d" "pd_outcome d = ALLOW" "pc_tool_id c = Some t"
  shows "\<exists>tools. pc_tools c = Some tools \<and> list_ex (\<lambda>e. tr_tool_id e = t) (ts_allow tools) \<and>
    t \<notin> set (ts_deny tools) \<and>
    (pc_certification_status c = QUARANTINED \<longrightarrow> pc_environment c = SANDBOX) \<and>
    \<not> pc_injection_detected c \<and> \<not> pc_budget_exhausted c \<and>
    (\<forall>w \<in> set (pc_time_windows c). tw_matches w c \<longrightarrow>
       \<not> tw_blackout w \<and> tw_allows zone w (case pc_at c of Some t \<Rightarrow> t | None \<Rightarrow> now_w) = Inr True) \<and>
    (pc_taint_untrusted c \<and> pc_tool_trust c = Some TRUST_DESTRUCTIVE \<longrightarrow> allows_untrusted tools t) \<and>
    (pc_data_sensitivity c = RESTRICTED \<longrightarrow> pc_action_class c = None) \<and>
    (pc_data_sensitivity c = PII \<longrightarrow> pc_tool_trust c \<noteq> Some TRUST_DESTRUCTIVE) \<and>
    (pc_environment c = PRODUCTION \<longrightarrow> pc_certification_status c = CERTIFIED) \<and>
    (pc_environment c \<noteq> SANDBOX \<longrightarrow> pc_tool_trust c \<noteq> Some TRUST_DESTRUCTIVE \<and>
       \<not> approval_required tools t \<and>
       (\<forall>a. pc_action_class c = Some a \<longrightarrow> a \<notin> set (pc_approval_required_for c)))"
proof -
  note ch = evaluate_checks [OF assms(1,2)]
  have d: "d = tool_decision now_d c t (compute_blast_radius c) dry"
    and win: "time_decision zone now_w now_d c (compute_blast_radius c) dry = Inr None"
    using ch assms(3) by auto
  obtain tools where tools: "pc_tools c = Some tools" "is_allowed tools t"
    using tool_decision_allow assms(2) d by blast
  have "list_ex (\<lambda>e. tr_tool_id e = t) (ts_allow tools)" "t \<notin> set (ts_deny tools)"
    using tools by (auto simp: is_allowed_def is_denied_def split: if_splits)
  moreover have "\<forall>w \<in> set (pc_time_windows c). tw_matches w c \<longrightarrow>
       \<not> tw_blackout w \<and> tw_allows zone w (case pc_at c of Some t \<Rightarrow> t | None \<Rightarrow> now_w) = Inr True"
    using win unfolding time_decision_def by (rule time_windows_pass)
  ultimately show ?thesis
    using tools ch tool_decision_allow [OF assms(2) [unfolded d]] assms(3)
    by (intro exI [of _ tools]) auto
qed

text \<open>A context for a listed tool, used to exercise the properties.\<close>

definition sample_context :: "admission_context \<Rightarrow> data_sensitivity \<Rightarrow> action_class option \<Rightarrow> policy_context" where
  "sample_context env sens act =
     \<lparr>pc_run_id = ''r1'', pc_workload = ''w'', pc_team = Some ''sre'', pc_tenant_id = ''default'',
      pc_environment = env, pc_action_class = act, pc_tool_id = Some ''search'',
      pc_tool_trust = Some TRUST_READ_ONLY, pc_data_sensitivity = sens,
      pc_certification_status = CERTIFIED,
      pc_tools = Some \<lparr>ts_allow = [\<lparr>tr_tool_id = ''search'', tr_trust_level = TRUST_READ_ONLY,
          tr_require_approval = False, tr_allow_untrusted = False\<rparr>],
        ts_deny = [], ts_mcp_servers = [], ts_default_trust = TRUST_READ_ONLY\<rparr>,
      pc_approval_required_for = [], pc_injection_detected = False, pc_budget_exhausted = False,
      pc_taint_untrusted = False, pc_at = None, pc_time_windows = []\<rparr>"

lemmas evaluate_sample_simps =
  evaluate_def sample_context_def time_decision_def tool_decision_def is_allowed_def is_denied_def
  approval_required_def compute_blast_radius_def blast_factors_def Let_def

theorem evaluate_allow_sound_witness:
  "\<exists>d. evaluate (\<lambda>_ _. None) 0 0 [] (sample_context STAGING PUBLIC None) False = Inr d \<and>
     pd_outcome d = ALLOW \<and> ''search'' \<notin> set (ts_deny (the (pc_tools (sample_context STAGING PUBLIC None))))"
proof -
  obtain d where "evaluate (\<lambda>_ _. None) 0 0 [] (sample_context STAGING PUBLIC None) False = Inr d"
    and "pd_outcome d = ALLOW"
    by (simp add: evaluate_sample_simps)
  with evaluate_allow_sound [OF this, of "''search''"] show ?thesis
    by (auto simp: sample_context_def)
qed

text \<open>
  A pack can only withhold an \<open>ALLOW\<close>. A decision that packs leave at \<open>ALLOW\<close> is the
  decision the engine takes without any pack.
\<close>

theorem packs_never_allow:
  assumes "evaluate zone now_w now_d st c dry = Inr d" "pd_outcome d = ALLOW"
  shows "evaluate zone now_w now_d [] c dry = Inr d"
proof -
  have "pack_decision now_d st c (compute_blast_radius c) dry = None"
    using evaluate_checks [OF assms] by blast
  then have "evaluate zone now_w now_d st c dry = evaluate zone now_w now_d [] c dry"
    unfolding evaluate_def Let_def by (simp only: pack_decision_empty)
  with assms show ?thesis by simp
qed

definition escalate_pack :: policy_pack where
  "escalate_pack = (sample_pack ''p'' [])\<lparr>pp_spec := (pp_spec (sample_pack ''p'' []))
     \<lparr>ps_overrides := [\<lparr>ov_match = \<lparr>pm_environment = None, pm_data_sensitivity = None\<rparr>,
        ov_rules = [\<lparr>pr_action = ESCALATE, pr_action_class = None, pr_tool_trust = None\<rparr>]\<rparr>]\<rparr>\<rparr>"

theorem packs_never_allow_witness:
  "\<exists>d. evaluate (\<lambda>_ _. None) 0 0 [((''other'', ''p''), escalate_pack\<lparr>pp_metadata := (pp_metadata escalate_pack)\<lparr>pk_tenant_id := ''other''\<rparr>\<rparr>)]
       (sample_context STAGING PUBLIC None) False = Inr d \<and>
     evaluate (\<lambda>_ _. None) 0 0 [] (sample_context STAGING PUBLIC None) False = Inr d"
proof -
  obtain d where "evaluate (\<lambda>_ _. None) 0 0 [((''other'', ''p''), escalate_pack\<lparr>pp_metadata := (pp_metadata escalate_pack)\<lparr>pk_tenant_id := ''other''\<rparr>\<rparr>)]
       (sample_context STAGING PUBLIC None) False = Inr d" and "pd_outcome d = ALLOW"
    by (simp add: evaluate_sample_simps pack_decision_def for_team_def list_packs_def)
  with packs_never_allow [OF this] show ?thesis by blast
qed

text \<open>
  A pack can loosen a denial. For a tool the manifest does not list, the engine denies the
  call by default, but a team pack whose rule escalates turns the denial into an approval
  request, contrary to the rule that packs may tighten but never loosen.
\<close>

theorem pack_loosens_denial:
  "\<exists>d d'. evaluate zone now_w now_d [] ((sample_context STAGING PUBLIC None)\<lparr>pc_tools := None\<rparr>) False = Inr d \<and>
     pd_outcome d = DENY \<and> pd_rule d = ''default.deny'' \<and>
     evaluate zone now_w now_d [((''default'', ''p''), escalate_pack)]
       ((sample_context STAGING PUBLIC None)\<lparr>pc_tools := None\<rparr>) False = Inr d' \<and>
     pd_outcome d' = ESCALATE \<and> pd_rule d' = ''pack.escalate''"
  by (simp add: evaluate_sample_simps pack_decision_def for_team_def list_packs_def escalate_pack_def
      sample_pack_def override_matches_def rule_applies_def)

text \<open>
  Packs of other tenants have no influence. Whatever packs contexts outside the tenant save,
  the decision for the tenant's runs is the same.
\<close>

theorem evaluate_tenant_isolated:
  assumes "\<forall>w \<in> set ws. \<not> scopes (fst w) (pc_tenant_id c)"
  shows "evaluate zone now_w now_d (packs.writes st ws) c dry = evaluate zone now_w now_d st c dry"
proof -
  have "list_packs (packs.writes st ws) (context_for_run (pc_tenant_id c) None None) =
      list_packs st (context_for_run (pc_tenant_id c) None None)"
    using assms by (intro list_packs_writes_other) auto
  then have "pack_decision now_d (packs.writes st ws) c b dry = pack_decision now_d st c b dry" for b
    unfolding pack_decision_def for_team_def Let_def by (simp only:)
  then show ?thesis
    unfolding evaluate_def Let_def by (simp only:)
qed

theorem evaluate_tenant_isolated_witness:
  "evaluate (\<lambda>_ _. None) 0 0 (packs.writes [] [(context_for_run ''other'' None None, escalate_pack)])
     (sample_context STAGING PUBLIC None) False =
   evaluate (\<lambda>_ _. None) 0 0 [] (sample_context STAGING PUBLIC None) False"
  using evaluate_tenant_isolated [of "[(context_for_run ''other'' None None, escalate_pack)]"
      "sample_context STAGING PUBLIC None" "\<lambda>_ _. None" 0 0 "[]" False]
  by (simp add: sample_context_def)

text \<open>What a dry run does to the decision of the real evaluation.\<close>

definition mark_dry :: "policy_decision \<Rightarrow> policy_decision" where
  "mark_dry d = (if pd_rule d \<in> {''blast_radius.high'', ''manifest.allow''} then d
     else d\<lparr>pd_dry_run := True\<rparr>)"

lemma mark_dry_decide:
  "mark_dry (decide n c out rule reason b v False) =
     decide n c out rule reason b v (rule \<notin> {''blast_radius.high'', ''manifest.allow''})"
  by (simp add: mark_dry_def decide_def)

lemma if_eqI: "(b \<Longrightarrow> x = x') \<Longrightarrow> (\<not> b \<Longrightarrow> y = y') \<Longrightarrow> (if b then x else y) = (if b then x' else y')"
  by simp

lemma case_option_eqI:
  "(x = None \<Longrightarrow> n = n') \<Longrightarrow> (\<And>y. x = Some y \<Longrightarrow> f y = f' y) \<Longrightarrow>
     (case x of None \<Rightarrow> n | Some y \<Rightarrow> f y) = (case x of None \<Rightarrow> n' | Some y \<Rightarrow> f' y)"
  by (cases x) auto

lemma tool_decision_dry: "tool_decision n c t b True = mark_dry (tool_decision n c t b False)"
  unfolding tool_decision_def Let_def if_distrib [of mark_dry] option.case_distrib [of mark_dry]
  by (intro if_eqI case_option_eqI) (simp_all add: mark_dry_decide)

lemma decision_from_packs_dry:
  "decision_from_packs n ps c b True = map_option mark_dry (decision_from_packs n ps c b False)"
  by (induction ps) (simp_all add: mark_dry_decide split: option.split)

lemma pack_decision_dry:
  "pack_decision n st c b True = map_option mark_dry (pack_decision n st c b False)"
  by (cases "decision_from_packs n (for_team st (context_for_run (pc_tenant_id c) None None) (pc_team c)) c b False")
     (simp_all add: pack_decision_def Let_def decision_from_packs_dry)

lemma time_windows_dry:
  "time_windows_decision zone w ws n c b True =
     map_sum id (map_option mark_dry) (time_windows_decision zone w ws n c b False)"
  by (induction ws) (simp_all add: mark_dry_decide split: sum.split bool.split)

lemma time_decision_dry:
  "time_decision zone now_w n c b True =
     map_sum id (map_option mark_dry) (time_decision zone now_w n c b False)"
  by (simp add: time_decision_def time_windows_dry)

text \<open>
  A dry run is decided by the identical evaluator: it raises exactly when the real evaluation
  does and gives the same decision but for the mark. The mark itself is missing from two
  decisions, the denial for a high blast radius and the plain manifest allow.
\<close>

theorem evaluate_dry_run:
  "evaluate zone now_w now_d st c True = map_sum id mark_dry (evaluate zone now_w now_d st c False)"
proof -
  let ?b = "compute_blast_radius c"
  consider "pc_certification_status c = QUARANTINED \<and> pc_environment c \<noteq> SANDBOX \<or>
      pc_injection_detected c \<or> pc_budget_exhausted c"
    | (run) "\<not> (pc_certification_status c = QUARANTINED \<and> pc_environment c \<noteq> SANDBOX)"
      "\<not> pc_injection_detected c" "\<not> pc_budget_exhausted c" "pc_tool_id c = None"
    | (tool) t where "\<not> (pc_certification_status c = QUARANTINED \<and> pc_environment c \<noteq> SANDBOX)"
      "\<not> pc_injection_detected c" "\<not> pc_budget_exhausted c" "pc_tool_id c = Some t"
    by fastforce
  then show ?thesis
  proof cases
    case 1
    then show ?thesis
      unfolding evaluate_def Let_def if_distrib [of "map_sum id mark_dry"]
      by (intro if_eqI) (simp_all add: mark_dry_decide)
  next
    case run
    then show ?thesis
      by (cases "pack_decision now_d st c ?b False")
        (auto simp: evaluate_def Let_def pack_decision_dry mark_dry_decide)
  next
    case (tool t)
    show ?thesis
    proof (cases "time_decision zone now_w now_d c ?b False = Inr None")
      case False
      with tool show ?thesis
        by (cases "time_decision zone now_w now_d c ?b False")
          (auto simp: evaluate_def Let_def time_decision_dry)
    next
      case True
      with tool show ?thesis
        by (cases "pack_decision now_d st c ?b False")
          (auto simp: evaluate_def Let_def time_decision_dry pack_decision_dry mark_dry_decide
            tool_decision_dry)
    qed
  qed
qed

text \<open>
  In production, once a certified workload's call of a listed, non-destructive tool passes
  every other check, the blast radius works backwards: the call is allowed exactly when its score
  is high (at least 71) and needs an approval when it is lower.
\<close>

theorem production_blast_radius_inverted:
  assumes "pc_environment c = PRODUCTION" "pc_certification_status c = CERTIFIED"
    "pc_tools c = Some tools" "is_allowed tools t" "pc_tool_trust c \<noteq> Some TRUST_DESTRUCTIVE"
    "pc_data_sensitivity c \<noteq> RESTRICTED" "\<not> approval_required tools t"
    "\<forall>a. pc_action_class c = Some a \<longrightarrow> a \<notin> set (pc_approval_required_for c)"
  shows "pd_outcome (tool_decision now_d c t (compute_blast_radius c) dry) =
    (if br_score (compute_blast_radius c) \<ge> 71 then ALLOW else ESCALATE)"
proof -
  have "br_score (compute_blast_radius c) \<ge> 31"
    using assms(1) weight_bounds(3) [of "pc_certification_status c"] weight_bounds(4) [of "pc_data_sensitivity c"]
      weight_bounds(5) [of "pc_action_class c"] weight_bounds(6) [of "pc_tool_trust c"]
    by (simp add: blast_score)
  then show ?thesis
    using assms by (auto simp: tool_decision_def Let_def split: option.splits)
qed

theorem production_blast_radius_inverted_witness:
  "pd_outcome (tool_decision 0 (sample_context PRODUCTION PII (Some AC_READ_ONLY)) ''search''
      (compute_blast_radius (sample_context PRODUCTION PII (Some AC_READ_ONLY))) False) = ESCALATE \<and>
   pd_outcome (tool_decision 0 (sample_context PRODUCTION PII (Some AC_HIGH_SPEND)) ''search''
      (compute_blast_radius (sample_context PRODUCTION PII (Some AC_HIGH_SPEND))) False) = ALLOW"
  using production_blast_radius_inverted [of "sample_context PRODUCTION PII (Some AC_READ_ONLY)"
      "the (pc_tools (sample_context PRODUCTION PII None))" "''search''" 0 False]
    production_blast_radius_inverted [of "sample_context PRODUCTION PII (Some AC_HIGH_SPEND)"
      "the (pc_tools (sample_context PRODUCTION PII None))" "''search''" 0 False]
  by (simp add: sample_context_def is_allowed_def is_denied_def approval_required_def
      compute_blast_radius_def blast_factors_def)

end
