(* ===== verification/Calendar.thy ===== *)
theory Calendar
  imports HP_Prelude
begin

text \<open>
  The proleptic Gregorian calendar of Python's \<open>datetime\<close> module, as far as the sources use it:
  the date of an instant in UTC as its ordinal (day 1 is 0001-01-01), the year, month and day of
  an ordinal, weekdays, ISO weeks and \<open>date.isoformat\<close>. The definitions follow the module's
  published algorithms (\<open>_ord2ymd\<close>, \<open>_ymd2ord\<close>, \<open>_isoweek1monday\<close>).
\<close>

section \<open>Ordinals\<close>

definition microseconds_per_day :: int where
  "microseconds_per_day = 86400000000"

text \<open>1970-01-01, the origin of instants, has ordinal 719163.\<close>

definition date_of :: "time \<Rightarrow> int" where
  "date_of t = t div microseconds_per_day + 719163"

definition midnight :: "int \<Rightarrow> time" where
  "midnight ordinal = (ordinal - 719163) * microseconds_per_day"

definition weekday :: "int \<Rightarrow> int" where
  "weekday ordinal = (ordinal + 6) mod 7"

definition is_leap :: "int \<Rightarrow> bool" where
  "is_leap year = (year mod 4 = 0 \<and> (year mod 100 \<noteq> 0 \<or> year mod 400 = 0))"

definition days_before_year :: "int \<Rightarrow> int" where
  "days_before_year year = (let y = year - 1 in y * 365 + y div 4 - y div 100 + y div 400)"

definition month_table :: "int list" where
  "month_table = [0, 31, 59, 90, 120, 151, 181, 212, 243, 273, 304, 334]"

text \<open>\<open>_DAYS_BEFORE_MONTH[month]\<close> with the leap day added after February.\<close>

definition days_before_month :: "bool \<Rightarrow> int \<Rightarrow> int" where
  "days_before_month leap month = month_table ! nat (month - 1) + (if month > 2 \<and> leap then 1 else 0)"

definition ymd2ord :: "int \<Rightarrow> int \<Rightarrow> int \<Rightarrow> int" where
  "ymd2ord year month day =
     days_before_year year + days_before_month (is_leap year) month + day"

text \<open>The month and day of the \<open>n\<close>-th day (from 0) of a year.\<close>

definition month_day :: "bool \<Rightarrow> int \<Rightarrow> int \<times> int" where
  "month_day leap n =
     (let month = (n + 50) div 32;
          month' = (if days_before_month leap month > n then month - 1 else month)
      in (month', n - days_before_month leap month' + 1))"

definition ord2ymd :: "int \<Rightarrow> int \<times> int \<times> int" where
  "ord2ymd ordinal =
     (let n = ordinal - 1;
          n400 = n div 146097; n = n mod 146097;
          n100 = n div 36524; n = n mod 36524;
          n4 = n div 1461; n = n mod 1461;
          n1 = n div 365; n = n mod 365;
          year = n400 * 400 + 1 + n100 * 100 + n4 * 4 + n1
      in if n1 = 4 \<or> n100 = 4 then (year - 1, 12, 31)
         else (let leap = (n1 = 3 \<and> (n4 \<noteq> 24 \<or> n100 = 3)) in (year, month_day leap n)))"

definition year_of :: "int \<Rightarrow> int" where
  "year_of ordinal = fst (ord2ymd ordinal)"

definition month_of :: "int \<Rightarrow> int" where
  "month_of ordinal = fst (snd (ord2ymd ordinal))"

definition day_of :: "int \<Rightarrow> int" where
  "day_of ordinal = snd (snd (ord2ymd ordinal))"

text \<open>\<open>date.replace(day=1)\<close>.\<close>

definition first_of_month :: "int \<Rightarrow> int" where
  "first_of_month ordinal = ordinal - day_of ordinal + 1"

section \<open>ISO weeks\<close>

definition isoweek1monday :: "int \<Rightarrow> int" where
  "isoweek1monday year =
     (let firstday = ymd2ord year 1 1;
          firstweekday = (firstday + 6) mod 7;
          week1monday = firstday - firstweekday
      in if firstweekday > 3 then week1monday + 7 else week1monday)"

text \<open>The year and week of \<open>date.isocalendar()\<close>.\<close>

definition isocalendar :: "int \<Rightarrow> int \<times> int" where
  "isocalendar ordinal =
     (let year = year_of ordinal;
          week = (ordinal - isoweek1monday year) div 7
      in if week < 0 then (year - 1, (ordinal - isoweek1monday (year - 1)) div 7 + 1)
         else if week \<ge> 52 \<and> ordinal \<ge> isoweek1monday (year + 1) then (year + 1, 1)
         else (year, week + 1))"

section \<open>Printing\<close>

text \<open>The format specifications \<open>:02d\<close> and \<open>:04d\<close> on non-negative numbers.\<close>

definition zero_pad :: "nat \<Rightarrow> int \<Rightarrow> string" where
  "zero_pad width i = (let s = int_str i in replicate (width - length s) (CHR ''0'') @ s)"

definition date_isoformat :: "int \<Rightarrow> string" where
  "date_isoformat ordinal =
     zero_pad 4 (year_of ordinal) @ ''-'' @ zero_pad 2 (month_of ordinal) @ ''-'' @ zero_pad 2 (day_of ordinal)"

text \<open>\<open>datetime.isoformat()\<close> of an instant in UTC; the fraction is left out when it is zero.\<close>

definition time_isoformat :: "int \<Rightarrow> string" where
  "time_isoformat r =
     zero_pad 2 (r div 3600000000) @ '':'' @ zero_pad 2 (r div 60000000 mod 60) @ '':'' @
     zero_pad 2 (r div 1000000 mod 60) @
     (if r mod 1000000 = 0 then [] else ''.'' @ zero_pad 6 (r mod 1000000)) @ ''+00:00''"

definition datetime_isoformat :: "time \<Rightarrow> string" where
  "datetime_isoformat t =
     date_isoformat (date_of t) @ ''T'' @ time_isoformat (t mod microseconds_per_day)"

section \<open>Correctness\<close>

lemma month_day_sum: "month_day leap n = (m, d) \<Longrightarrow> days_before_month leap m + d = n + 1"
  by (auto simp: month_day_def Let_def split: if_splits)

text \<open>
  A day of the last year of a cycle: the decomposition of the ordinal by cycles of 400, 100, 4
  and 1 years adds up.
\<close>

lemma div_small: "0 \<le> r \<Longrightarrow> r < k \<Longrightarrow> (x * k + r) div k = x" for r k x :: int
  by simp

lemma mod_small: "0 \<le> r \<Longrightarrow> r < k \<Longrightarrow> (x * k + r) mod k = r" for r k x :: int
  by simp

lemma days_before_year_cycles:
  assumes "0 \<le> c" "c \<le> 3" "0 \<le> q" "q \<le> 24" "0 \<le> e" "e \<le> 3"
  shows "days_before_year (a * 400 + 1 + c * 100 + q * 4 + e) = a * 146097 + c * 36524 + q * 1461 + e * 365"
proof -
  let ?y = "a * 400 + c * 100 + q * 4 + e"
  have "?y div 4 = ((a * 100 + c * 25 + q) * 4 + e) div 4" by (simp add: algebra_simps)
  then have "?y div 4 = a * 100 + c * 25 + q" using assms by (simp only: div_small)
  moreover have "?y div 100 = ((a * 4 + c) * 100 + (q * 4 + e)) div 100" by (simp add: algebra_simps)
  then have "?y div 100 = a * 4 + c" using assms by (subst (asm) div_small) auto
  moreover have "?y div 400 = (a * 400 + (c * 100 + q * 4 + e)) div 400" by (simp add: algebra_simps)
  then have "?y div 400 = a" using assms by (subst (asm) div_small) auto
  moreover have "a * 400 + 1 + c * 100 + q * 4 + e - 1 = ?y" by simp
  ultimately show ?thesis
    unfolding days_before_year_def Let_def by (simp only:) simp
qed

lemma is_leap_cycles:
  assumes "0 \<le> c" "c \<le> 3" "0 \<le> q" "q \<le> 24" "0 \<le> e" "e \<le> 3"
  shows "is_leap (a * 400 + 1 + c * 100 + q * 4 + e) = (e = 3 \<and> (q \<noteq> 24 \<or> c = 3))"
proof (cases "e = 3")
  case False
  have "a * 400 + 1 + c * 100 + q * 4 + e = (a * 100 + c * 25 + q) * 4 + (e + 1)" by simp
  then have "(a * 400 + 1 + c * 100 + q * 4 + e) mod 4 = e + 1"
    using assms False by (simp only: mod_small)
  with assms False show ?thesis by (auto simp: is_leap_def)
next
  case True
  let ?y = "a * 400 + 1 + c * 100 + q * 4 + e"
  have "?y = (a * 100 + c * 25 + q + 1) * 4 + 0" using True by simp
  then have m4: "?y mod 4 = 0" by (simp only: mod_small)
  show ?thesis
  proof (cases "q = 24")
    case False
    have "?y = (a * 4 + c) * 100 + (q * 4 + 4)" using True by simp
    then have "?y mod 100 = q * 4 + 4" using assms False by (simp only: mod_small)
    then show ?thesis using m4 True False assms by (simp add: is_leap_def)
  next
    case q: True
    have "?y = (a * 4 + c + 1) * 100 + 0" using True q by simp
    then have m100: "?y mod 100 = 0" by (simp only: mod_small)
    show ?thesis
    proof (cases "c = 3")
      case True
      have "?y = (a + 1) * 400 + 0" using \<open>e = 3\<close> q True by simp
      then have "?y mod 400 = 0" by (simp only: mod_small)
      then show ?thesis using m4 \<open>e = 3\<close> True by (simp add: is_leap_def)
    next
      case False
      have "?y = a * 400 + (c + 1) * 100" using \<open>e = 3\<close> q by simp
      then have "?y mod 400 = (c + 1) * 100" using assms False by (simp only: mod_small)
      then show ?thesis using m100 q False assms by (simp add: is_leap_def)
    qed
  qed
qed

lemma ord2ymd_correct: "ord2ymd ordinal = (y, m, d) \<Longrightarrow> ymd2ord y m d = ordinal"
proof -
  assume r: "ord2ymd ordinal = (y, m, d)"
  define n where "n = ordinal - 1"
  define a where "a = n div 146097"
  define n1 where "n1 = n mod 146097"
  define c where "c = n1 div 36524"
  define n2 where "n2 = n1 mod 36524"
  define q where "q = n2 div 1461"
  define n3 where "n3 = n2 mod 1461"
  define e where "e = n3 div 365"
  define f where "f = n3 mod 365"
  have n: "n = a * 146097 + n1" "n1 = c * 36524 + n2" "n2 = q * 1461 + n3" "n3 = e * 365 + f"
    by (simp_all add: a_def n1_def c_def n2_def q_def n3_def e_def f_def)
  have b1: "0 \<le> n1" "n1 < 146097" by (simp_all add: n1_def)
  have b2: "0 \<le> n2" "n2 < 36524" by (simp_all add: n2_def)
  have b3: "0 \<le> n3" "n3 < 1461" by (simp_all add: n3_def)
  have b4: "0 \<le> f" "f < 365" by (simp_all add: f_def)
  have c: "0 \<le> c" "c \<le> 4" using n(2) b1 b2 by auto
  have q: "0 \<le> q" "q \<le> 24" using n(3) b2 b3 by auto
  have e: "0 \<le> e" "e \<le> 4" using n(4) b3 b4 by auto
  have ymd: "ord2ymd ordinal = (let year = a * 400 + 1 + c * 100 + q * 4 + e in
      if e = 4 \<or> c = 4 then (year - 1, 12, 31)
      else (year, month_day (e = 3 \<and> (q \<noteq> 24 \<or> c = 3)) f))"
    unfolding ord2ymd_def Let_def n_def a_def n1_def c_def n2_def q_def n3_def e_def f_def by simp
  show ?thesis
  proof (cases "e = 4 \<or> c = 4")
    case False
    then have bounds: "0 \<le> c" "c \<le> 3" "0 \<le> q" "q \<le> 24" "0 \<le> e" "e \<le> 3" using c q e by auto
    have y: "y = a * 400 + 1 + c * 100 + q * 4 + e"
      and md: "month_day (e = 3 \<and> (q \<noteq> 24 \<or> c = 3)) f = (m, d)"
      using r False by (auto simp: ymd Let_def)
    have "ymd2ord y m d = a * 146097 + c * 36524 + q * 1461 + e * 365 + (f + 1)"
      using month_day_sum [OF md]
      by (simp add: y ymd2ord_def days_before_year_cycles [OF bounds] is_leap_cycles [OF bounds])
    then show ?thesis using n by (simp add: n_def)
  next
    case True
    show ?thesis
    proof (cases "c = 4")
      case True
      then have "n2 = 0" using n(2) b1(2) b2(1) by auto
      then have z: "n2 = 0" "q = 0" "e = 0" "f = 0" by (simp_all add: q_def n3_def e_def f_def)
      then have "y = a * 400 + 1 + 3 * 100 + 24 * 4 + 3" "m = 12" "d = 31"
        using r True by (auto simp: ymd Let_def)
      then have "ymd2ord y m d = a * 146097 + 3 * 36524 + 24 * 1461 + 3 * 365 + (335 + 31)"
        using days_before_year_cycles [of 3 24 3 a] is_leap_cycles [of 3 24 3 a]
        by (simp add: ymd2ord_def days_before_month_def month_table_def)
      then show ?thesis using n z True by (simp add: n_def)
    next
      case False
      with \<open>e = 4 \<or> c = 4\<close> have e4: "e = 4" by simp
      then have f: "f = 0" "n3 = 1460" using n(4) b3(2) b4(1) by auto
      have c3: "c \<le> 3" using False c by simp
      have nt: "q \<noteq> 24"
        using n(3) b2(2) f(2) by auto
      have y: "y = a * 400 + 1 + c * 100 + q * 4 + 3" "m = 12" "d = 31"
        using r e4 by (auto simp: ymd Let_def)
      have "ymd2ord y m d = a * 146097 + c * 36524 + q * 1461 + 3 * 365 + (335 + 31)"
        using days_before_year_cycles [of c q 3 a] is_leap_cycles [of c q 3 a] c c3 q nt
        by (simp add: y ymd2ord_def days_before_month_def month_table_def)
      then show ?thesis using n f e4 by (simp add: n_def)
    qed
  qed
qed

lemma ymd_of_ordinal: "ymd2ord (year_of ordinal) (month_of ordinal) (day_of ordinal) = ordinal"
  by (rule ord2ymd_correct) (simp add: year_of_def month_of_def day_of_def)

lemma first_of_month_ymd: "first_of_month ordinal = ymd2ord (year_of ordinal) (month_of ordinal) 1"
  using ymd_of_ordinal [of ordinal] by (simp add: first_of_month_def ymd2ord_def)

lemma date_of_midnight [simp]: "date_of (midnight d) = d"
  by (simp add: date_of_def midnight_def microseconds_per_day_def)

lemma midnight_bounds: "midnight (date_of t) \<le> t \<and> t < midnight (date_of t + 1)"
  by (simp add: date_of_def midnight_def microseconds_per_day_def) presburger

section \<open>Ranges and printing\<close>

lemma month_range:
  fixes n :: int
  assumes "0 \<le> n" "n < 365"
  shows "1 \<le> (n + 50) div 32 \<and> (n + 50) div 32 \<le> 12"
  using assms by auto

lemma days_before_month_step:
  fixes m :: int
  assumes "2 \<le> m" "m \<le> 12"
  shows "days_before_month leap (m - 1) \<le> 32 * m - 50"
proof -
  have "m = 2 \<or> m = 3 \<or> m = 4 \<or> m = 5 \<or> m = 6 \<or> m = 7 \<or> m = 8 \<or> m = 9 \<or> m = 10 \<or> m = 11 \<or> m = 12"
    using assms by presburger
  then show ?thesis
    by (elim disjE) (simp_all add: days_before_month_def month_table_def)
qed

lemma month_day_range:
  assumes "0 \<le> n" "n < 365" "month_day leap n = (m, d)"
  shows "1 \<le> m \<and> m \<le> 12 \<and> 1 \<le> d"
proof -
  let ?m = "(n + 50) div 32"
  have r: "1 \<le> ?m" "?m \<le> 12" using month_range [OF assms(1,2)] by auto
  show ?thesis
  proof (cases "days_before_month leap ?m > n")
    case False
    then show ?thesis using r assms(3) by (auto simp: month_day_def Let_def)
  next
    case True
    have m2: "2 \<le> ?m"
    proof (rule ccontr)
      assume "\<not> 2 \<le> ?m"
      then have "?m = 1" using r by simp
      then show False using True assms(1) by (simp add: days_before_month_def month_table_def)
    qed
    have "32 * ?m \<le> n + 50" by simp
    then have "days_before_month leap (?m - 1) \<le> n"
      using days_before_month_step [OF m2 r(2), of leap] by linarith
    then show ?thesis using True m2 r assms(3) by (auto simp: month_day_def Let_def)
  qed
qed

lemma ord2ymd_range:
  assumes "1 \<le> ordinal" "ord2ymd ordinal = (y, m, d)"
  shows "1 \<le> y \<and> 1 \<le> m \<and> m \<le> 12 \<and> 1 \<le> d"
proof -
  define n where "n = ordinal - 1"
  define n1 where "n1 = n mod 146097"
  define n2 where "n2 = n1 mod 36524"
  define n3 where "n3 = n2 mod 1461"
  have pos: "0 \<le> n div 146097" using assms(1) by (simp add: n_def pos_imp_zdiv_nonneg_iff)
  have nn: "0 \<le> n1 div 36524" "0 \<le> n2 div 1461" "0 \<le> n3 div 365"
    by (simp_all add: n1_def n2_def n3_def pos_imp_zdiv_nonneg_iff)
  have f: "0 \<le> n3 mod 365" "n3 mod 365 < 365" by simp_all
  have r: "(let year = n div 146097 * 400 + 1 + n1 div 36524 * 100 + n2 div 1461 * 4 + n3 div 365 in
      if n3 div 365 = 4 \<or> n1 div 36524 = 4 then (year - 1, 12, 31)
      else (year, month_day (n3 div 365 = 3 \<and> (n2 div 1461 \<noteq> 24 \<or> n1 div 36524 = 3)) (n3 mod 365))) = (y, m, d)"
    using assms(2) unfolding ord2ymd_def Let_def n_def n1_def n2_def n3_def by simp
  show ?thesis
  proof (cases "n3 div 365 = 4 \<or> n1 div 36524 = 4")
    case True
    with r have "y = n div 146097 * 400 + n1 div 36524 * 100 + n2 div 1461 * 4 + n3 div 365" "m = 12" "d = 31"
      by (auto simp: Let_def)
    with True pos nn show ?thesis by (elim disjE) linarith+
  next
    case False
    with r have y: "y = n div 146097 * 400 + 1 + n1 div 36524 * 100 + n2 div 1461 * 4 + n3 div 365"
      and md: "month_day (n3 div 365 = 3 \<and> (n2 div 1461 \<noteq> 24 \<or> n1 div 36524 = 3)) (n3 mod 365) = (m, d)"
      by (auto simp: Let_def)
    have "1 \<le> y" using y pos nn by linarith
    then show ?thesis using month_day_range [OF f md] by simp
  qed
qed

lemma ymd_ranges:
  assumes "1 \<le> ordinal"
  shows "1 \<le> year_of ordinal" "1 \<le> month_of ordinal" "1 \<le> day_of ordinal"
  using ord2ymd_range [OF assms, of "year_of ordinal" "month_of ordinal" "day_of ordinal"]
  by (simp_all add: year_of_def month_of_def day_of_def)

lemma digits_value_zeros: "digits_value (replicate n (CHR ''0'') @ s) = digits_value s"
  by (induction n) (simp_all add: digits_value_def digit_value_def)

lemma zero_pad_digits:
  assumes "0 \<le> i"
  shows "digits_value (zero_pad w i) = i \<and> list_all is_digit (zero_pad w i)"
  using assms nat_str_digits [of "nat i"] digits_value_nat_str [of "nat i"]
  by (auto simp: zero_pad_def Let_def int_str_def digits_value_zeros list_all_iff is_digit_def)

lemma zero_pad_inj: "0 \<le> i \<Longrightarrow> 0 \<le> j \<Longrightarrow> zero_pad w i = zero_pad w j \<Longrightarrow> i = j"
  by (metis zero_pad_digits)

lemma int_str_digits: "0 \<le> i \<Longrightarrow> digits_value (int_str i) = i \<and> list_all is_digit (int_str i)"
  using zero_pad_digits [of i 0] by (simp add: zero_pad_def Let_def)

lemma int_str_inj: "0 \<le> i \<Longrightarrow> 0 \<le> j \<Longrightarrow> int_str i = int_str j \<Longrightarrow> i = j"
  by (metis int_str_digits)

text \<open>Digits end where the first other character starts.\<close>

lemma digits_sep_inj:
  assumes "list_all is_digit a" "list_all is_digit a'" "\<not> is_digit c" "a @ c # b = a' @ c # b'"
  shows "a = a' \<and> b = b'"
  using assms
proof (induction a arbitrary: a')
  case Nil
  then show ?case by (cases a') auto
next
  case (Cons x xs)
  then show ?case by (cases a') auto
qed

lemma dash_not_digit: "\<not> is_digit (CHR ''-'')"
  by (simp add: is_digit_def)

lemma date_isoformat_inj:
  assumes "1 \<le> a" "1 \<le> b" "date_isoformat a = date_isoformat b"
  shows "a = b"
proof -
  have z: "list_all is_digit (zero_pad w i)" if "1 \<le> i" for w i
    using zero_pad_digits [of i w] that by simp
  have y: "zero_pad 4 (year_of a) = zero_pad 4 (year_of b)"
    and md: "zero_pad 2 (month_of a) @ CHR ''-'' # zero_pad 2 (day_of a) =
      zero_pad 2 (month_of b) @ CHR ''-'' # zero_pad 2 (day_of b)"
    using assms(3) digits_sep_inj [OF z [OF ymd_ranges(1) [OF assms(1)]] z [OF ymd_ranges(1) [OF assms(2)]] dash_not_digit]
    unfolding date_isoformat_def by simp_all
  have "zero_pad 2 (month_of a) = zero_pad 2 (month_of b) \<and> zero_pad 2 (day_of a) = zero_pad 2 (day_of b)"
    using digits_sep_inj [OF z [OF ymd_ranges(2) [OF assms(1)]] z [OF ymd_ranges(2) [OF assms(2)]] dash_not_digit md] .
  then have "year_of a = year_of b" "month_of a = month_of b" "day_of a = day_of b"
    using y ymd_ranges [OF assms(1)] ymd_ranges [OF assms(2)] by (auto intro: zero_pad_inj)
  then show ?thesis using ymd_of_ordinal by metis
qed

text \<open>The same for groups of digits that end in possibly different characters.\<close>

lemma digits_end_inj:
  assumes "list_all is_digit a" "list_all is_digit a'" "\<not> is_digit c" "\<not> is_digit c'" "a @ c # b = a' @ c' # b'"
  shows "a = a' \<and> c = c' \<and> b = b'"
  using assms
proof (induction a arbitrary: a')
  case Nil
  then show ?case by (cases a') auto
next
  case (Cons x xs)
  then show ?case by (cases a') auto
qed

lemma time_mark_not_digit: "\<not> is_digit (CHR '':'')" "\<not> is_digit (CHR ''.'')" "\<not> is_digit (CHR ''+'')" "\<not> is_digit (CHR ''T'')"
  by (simp_all add: is_digit_def)

lemma zero_pad_all_digits: "0 \<le> i \<Longrightarrow> list_all is_digit (zero_pad w i)"
  by (simp add: zero_pad_digits)

lemma time_fields: "r = (r div 3600000000) * 3600000000 + (r div 60000000 mod 60) * 60000000 +
    (r div 1000000 mod 60) * 1000000 + r mod 1000000" for r :: int
proof -
  have a: "r = r div 1000000 * 1000000 + r mod 1000000" by simp
  have b: "r div 1000000 = r div 1000000 div 60 * 60 + r div 1000000 mod 60" by simp
  have c: "r div 1000000 div 60 = r div 1000000 div 60 div 60 * 60 + r div 1000000 div 60 mod 60" by simp
  have d: "r div 1000000 div 60 = r div 60000000" "r div 60000000 div 60 = r div 3600000000"
    by (simp_all add: zdiv_zmult2_eq [symmetric])
  from a b c show ?thesis unfolding d by linarith
qed

lemma fraction_mark:
  obtains c b where "(if u = 0 then [] else ''.'' @ zero_pad 6 u) @ ''+00:00'' = c # b" "\<not> is_digit c"
  using time_mark_not_digit by (cases "u = 0") auto

lemma fraction_inj:
  assumes "0 \<le> u" "0 \<le> v"
    "(if u = 0 then [] else ''.'' @ zero_pad 6 u) @ ''+00:00'' = (if v = 0 then [] else ''.'' @ zero_pad 6 v) @ ''+00:00''"
  shows "u = v"
  using assms zero_pad_inj [of u v 6] by (auto split: if_splits)

lemma clock_inj:
  assumes "0 \<le> h" "0 \<le> m" "0 \<le> s" "0 \<le> u" "0 \<le> h'" "0 \<le> m'" "0 \<le> s'" "0 \<le> u'"
    "zero_pad 2 h @ CHR '':'' # zero_pad 2 m @ CHR '':'' # zero_pad 2 s @
       (if u = 0 then [] else ''.'' @ zero_pad 6 u) @ ''+00:00'' =
     zero_pad 2 h' @ CHR '':'' # zero_pad 2 m' @ CHR '':'' # zero_pad 2 s' @
       (if u' = 0 then [] else ''.'' @ zero_pad 6 u') @ ''+00:00''"
  shows "h = h' \<and> m = m' \<and> s = s' \<and> u = u'"
proof -
  note z = zero_pad_all_digits
  note hh = digits_sep_inj [OF z [OF assms(1)] z [OF assms(5)] time_mark_not_digit(1) assms(9)]
  note mm = digits_sep_inj [OF z [OF assms(2)] z [OF assms(6)] time_mark_not_digit(1) conjunct2 [OF hh]]
  obtain c b where c: "(if u = 0 then [] else ''.'' @ zero_pad 6 u) @ ''+00:00'' = c # b" "\<not> is_digit c"
    by (rule fraction_mark)
  obtain c' b' where c': "(if u' = 0 then [] else ''.'' @ zero_pad 6 u') @ ''+00:00'' = c' # b'" "\<not> is_digit c'"
    by (rule fraction_mark)
  note ss = digits_end_inj [OF z [OF assms(3)] z [OF assms(7)] c(2) c'(2) conjunct2 [OF mm, unfolded c(1) c'(1)]]
  have "u = u'" by (rule fraction_inj [OF assms(4,8)]) (simp only: c(1) c'(1) ss)
  with hh mm ss zero_pad_inj assms(1-8) show ?thesis by blast
qed

lemma time_isoformat_inj:
  assumes "0 \<le> r" "0 \<le> q" "time_isoformat r = time_isoformat q"
  shows "r = q"
proof -
  have "r div 3600000000 = q div 3600000000 \<and> r div 60000000 mod 60 = q div 60000000 mod 60 \<and>
      r div 1000000 mod 60 = q div 1000000 mod 60 \<and> r mod 1000000 = q mod 1000000"
  proof (rule clock_inj)
    show "0 \<le> r div 3600000000" "0 \<le> q div 3600000000"
      using assms(1,2) by (simp_all only: pos_imp_zdiv_nonneg_iff)
  qed (use assms(3) in \<open>simp_all add: time_isoformat_def\<close>)
  then show ?thesis using time_fields [of r] time_fields [of q] by metis
qed

lemma date_isoformat_marks: "1 \<le> d \<Longrightarrow> CHR ''T'' \<notin> set (date_isoformat d)"
  using zero_pad_all_digits [of "year_of d" 4] zero_pad_all_digits [of "month_of d" 2] zero_pad_all_digits [of "day_of d" 2]
    ymd_ranges [of d] time_mark_not_digit(4)
  by (auto simp: date_isoformat_def list_all_iff)

lemma append_mark_inj: "c \<notin> set a \<Longrightarrow> c \<notin> set a' \<Longrightarrow> a @ c # b = a' @ c # b' \<Longrightarrow> a = a' \<and> b = b'"
proof (induction a arbitrary: a')
  case Nil
  then show ?case by (cases a') auto
next
  case (Cons x xs)
  then show ?case by (cases a') auto
qed

text \<open>The printed form of an instant determines it; Python's instants lie on the days from 1 on.\<close>

lemma datetime_isoformat_inj:
  assumes "1 \<le> date_of t" "1 \<le> date_of u" "datetime_isoformat t = datetime_isoformat u"
  shows "t = u"
proof -
  have "date_isoformat (date_of t) = date_isoformat (date_of u) \<and>
      time_isoformat (t mod microseconds_per_day) = time_isoformat (u mod microseconds_per_day)"
    by (rule append_mark_inj [where c = "CHR ''T''"])
      (use assms in \<open>simp_all add: date_isoformat_marks datetime_isoformat_def\<close>)
  then have d: "date_of t = date_of u" and r: "t mod microseconds_per_day = u mod microseconds_per_day"
    using date_isoformat_inj [OF assms(1,2)] time_isoformat_inj
    by (auto simp: microseconds_per_day_def)
  from d have "t div microseconds_per_day = u div microseconds_per_day" by (simp add: date_of_def)
  with r show ?thesis by (metis div_mult_mod_eq)
qed

end
