(* ===== verification/Cost.thy ===== *)
theory Cost
  imports Tenancy Calendar
begin

text \<open>
  Cost attribution and budget periods: the models (\<open>cost/models.py\<close>, \<open>fleet/cost.py\<close>), the
  in-memory store (\<open>cost/store.py\<close>), the service that records usage, fires threshold alerts,
  enforces tenant caps and rolls periods over (\<open>cost/service.py\<close>), and the estimator, the burn
  forecast and the attested result cache of \<open>cost/depth.py\<close>. Instants are taken in UTC.
\<close>

section \<open>Models\<close>

datatype cost_period_kind = PERIOD_DAY | PERIOD_WEEK | PERIOD_MONTH

fun cost_period_kind_value :: "cost_period_kind \<Rightarrow> string" where
  "cost_period_kind_value PERIOD_DAY = ''day''"
| "cost_period_kind_value PERIOD_WEEK = ''week''"
| "cost_period_kind_value PERIOD_MONTH = ''month''"

text \<open>The order in which \<open>for kind in CostPeriodKind\<close> iterates.\<close>

definition cost_period_kinds :: "cost_period_kind list" where
  "cost_period_kinds = [PERIOD_DAY, PERIOD_WEEK, PERIOD_MONTH]"

datatype cost_type = COST_LLM | COST_TOOL | COST_COMPUTE | COST_STORAGE

datatype carry_rule = CARRY_NONE | CARRY_CAPPED | CARRY_FULL

datatype budget_scope = SCOPE_TENANT | SCOPE_TEAM | SCOPE_WORKLOAD

fun budget_scope_value :: "budget_scope \<Rightarrow> string" where
  "budget_scope_value SCOPE_TENANT = ''tenant''"
| "budget_scope_value SCOPE_TEAM = ''team''"
| "budget_scope_value SCOPE_WORKLOAD = ''workload''"

record cost_event =
  ce_event_id :: string
  ce_tenant_id :: string
  ce_team_id :: string
  ce_workload_id :: string
  ce_run_id :: "string option"
  ce_pipeline_run_id :: "string option"
  ce_cost_type :: cost_type
  ce_model :: "string option"
  ce_cost_usd :: usd
  ce_saved_usd :: usd
  ce_completed :: bool
  ce_retry :: bool
  ce_escalation :: bool
  ce_occurred_at :: time

record budget_period =
  bp_period_id :: string
  bp_tenant_id :: string
  bp_scope :: budget_scope
  bp_scope_id :: string
  bp_kind :: cost_period_kind
  bp_period_key :: string
  bp_limit_usd :: usd
  bp_carry_rule :: carry_rule
  bp_carry_in_usd :: usd
  bp_spent_usd :: usd
  bp_cap_usd :: "usd option"
  bp_enforced :: bool

definition effective_limit_usd :: "budget_period \<Rightarrow> usd" where
  "effective_limit_usd p = bp_limit_usd p + bp_carry_in_usd p"

definition period_remaining_usd :: "budget_period \<Rightarrow> usd" where
  "period_remaining_usd p = max 0 (effective_limit_usd p - bp_spent_usd p)"

record threshold_alert =
  ta_alert_id :: string
  ta_tenant_id :: string
  ta_scope :: budget_scope
  ta_scope_id :: string
  ta_kind :: cost_period_kind
  ta_period_key :: string
  ta_threshold :: int
  ta_spent_usd :: usd
  ta_limit_usd :: usd
  ta_fired_at :: time

record showback_row =
  sr_tenant_id :: string
  sr_team_id :: "string option"
  sr_workload_id :: "string option"
  sr_total_cost_usd :: usd
  sr_wasted_usd :: usd
  sr_cache_savings_usd :: usd
  sr_completed_tasks :: int
  sr_cost_per_completed_task :: usd

record showback_report =
  sp_tenant_id :: string
  sp_kind :: cost_period_kind
  sp_period_key :: string
  sp_group_by :: string
  sp_rows :: "showback_row list"
  sp_total_cost_usd :: usd
  sp_total_completed_tasks :: int
  sp_fleet_cpct :: usd
  sp_cache_savings_usd :: usd
  sp_unattributed :: nat

datatype cost_error =
    CostScopeError tenancy_error
  | CostValidationError string
  | UnattributedUsageError string "string list"
  | SpendCapExceededError string usd usd

text \<open>The field constraints of \<open>BudgetPeriod\<close> and \<open>ThresholdAlert\<close>.\<close>

definition period_valid :: "budget_period \<Rightarrow> bool" where
  "period_valid p =
     (bp_period_id p \<noteq> [] \<and> bp_tenant_id p \<noteq> [] \<and> length (bp_tenant_id p) \<le> 64 \<and>
      bp_scope_id p \<noteq> [] \<and> length (bp_scope_id p) \<le> 253 \<and> bp_period_key p \<noteq> [] \<and> length (bp_period_key p) \<le> 32 \<and>
      0 \<le> bp_limit_usd p \<and> 0 \<le> bp_carry_in_usd p \<and> 0 \<le> bp_spent_usd p \<and>
      (case bp_cap_usd p of None \<Rightarrow> True | Some cap \<Rightarrow> 0 \<le> cap))"

definition alert_valid :: "threshold_alert \<Rightarrow> bool" where
  "alert_valid a =
     (ta_alert_id a \<noteq> [] \<and> ta_tenant_id a \<noteq> [] \<and> length (ta_tenant_id a) \<le> 64 \<and>
      ta_scope_id a \<noteq> [] \<and> length (ta_scope_id a) \<le> 253 \<and> ta_period_key a \<noteq> [] \<and>
      1 \<le> ta_threshold a \<and> 0 \<le> ta_spent_usd a \<and> 0 \<le> ta_limit_usd a)"

section \<open>The in-memory store\<close>

record cost_store =
  co_events :: "(string, cost_event) dict"
  co_periods :: "(string, budget_period) dict"
  co_alerts :: "(string, threshold_alert) dict"
  co_dead :: "(cost_event \<times> string) list"

definition cost_save_event :: "cost_store \<Rightarrow> tenant_context \<Rightarrow> cost_event \<Rightarrow> cost_error + cost_store" where
  "cost_save_event st ctx event = (case require ctx (ce_tenant_id event) of
       Inl e \<Rightarrow> Inl (CostScopeError e)
     | Inr _ \<Rightarrow> Inr (st\<lparr>co_events := dict_put (ce_event_id event) event (co_events st)\<rparr>))"

definition dead_letter :: "cost_store \<Rightarrow> cost_event \<Rightarrow> string \<Rightarrow> cost_store" where
  "dead_letter st event reason = st\<lparr>co_dead := co_dead st @ [(event, reason)]\<rparr>"

definition cost_list_events ::
  "cost_store \<Rightarrow> tenant_context \<Rightarrow> string \<Rightarrow> time option \<Rightarrow> time option \<Rightarrow> cost_event list" where
  "cost_list_events st ctx tenant_id start end_at =
     (if \<not> scopes ctx tenant_id then []
      else filter (\<lambda>e. ce_tenant_id e = tenant_id \<and>
             (case start of None \<Rightarrow> True | Some s \<Rightarrow> ce_occurred_at e \<ge> s) \<and>
             (case end_at of None \<Rightarrow> True | Some t \<Rightarrow> ce_occurred_at e < t))
           (map snd (sort_key fst (co_events st))))"

definition mark_run_completed :: "cost_store \<Rightarrow> tenant_context \<Rightarrow> string \<Rightarrow> cost_store \<times> nat" where
  "mark_run_completed st ctx run_id =
     (let hit = (\<lambda>(_, e). ce_run_id e = Some run_id \<and> scopes ctx (ce_tenant_id e) \<and> \<not> ce_completed e)
      in (st\<lparr>co_events := map (\<lambda>(k, e). if hit (k, e) then (k, e\<lparr>ce_completed := True\<rparr>) else (k, e)) (co_events st)\<rparr>,
          length (filter hit (co_events st))))"

definition delete_events_before :: "cost_store \<Rightarrow> tenant_context \<Rightarrow> time \<Rightarrow> string \<Rightarrow> cost_store \<times> nat" where
  "delete_events_before st ctx cutoff tenant_id =
     (if \<not> scopes ctx tenant_id then (st, 0)
      else (let stale = map fst (filter (\<lambda>(_, e). ce_tenant_id e = tenant_id \<and> ce_occurred_at e < cutoff) (co_events st))
            in (st\<lparr>co_events := fold dict_pop stale (co_events st)\<rparr>, length stale)))"

definition unattributed :: "cost_store \<Rightarrow> nat" where
  "unattributed st = length (co_dead st)"

definition save_period :: "cost_store \<Rightarrow> tenant_context \<Rightarrow> budget_period \<Rightarrow> cost_error + cost_store" where
  "save_period st ctx period = (case require ctx (bp_tenant_id period) of
       Inl e \<Rightarrow> Inl (CostScopeError e)
     | Inr _ \<Rightarrow> Inr (st\<lparr>co_periods := dict_put (bp_period_id period) period (co_periods st)\<rparr>))"

definition get_period :: "cost_store \<Rightarrow> tenant_context \<Rightarrow> string \<Rightarrow> budget_period option" where
  "get_period st ctx period_id = (case dict_get (co_periods st) period_id of
       None \<Rightarrow> None
     | Some p \<Rightarrow> if \<not> scopes ctx (bp_tenant_id p) then None else Some p)"

definition list_periods :: "cost_store \<Rightarrow> tenant_context \<Rightarrow> string \<Rightarrow> budget_period list" where
  "list_periods st ctx tenant_id =
     (if \<not> scopes ctx tenant_id then []
      else filter (\<lambda>p. bp_tenant_id p = tenant_id) (map snd (sort_key fst (co_periods st))))"

definition save_alert :: "cost_store \<Rightarrow> tenant_context \<Rightarrow> threshold_alert \<Rightarrow> cost_error + cost_store" where
  "save_alert st ctx alert = (case require ctx (ta_tenant_id alert) of
       Inl e \<Rightarrow> Inl (CostScopeError e)
     | Inr _ \<Rightarrow> Inr (st\<lparr>co_alerts := dict_put (ta_alert_id alert) alert (co_alerts st)\<rparr>))"

definition list_alerts :: "cost_store \<Rightarrow> tenant_context \<Rightarrow> string \<Rightarrow> threshold_alert list" where
  "list_alerts st ctx tenant_id =
     (if \<not> scopes ctx tenant_id then []
      else filter (\<lambda>a. ta_tenant_id a = tenant_id) (map snd (sort_key fst (co_alerts st))))"

definition cost_purge_tenant :: "cost_store \<Rightarrow> string \<Rightarrow> cost_store \<times> nat" where
  "cost_purge_tenant st tenant_id =
     (let event_ids = map fst (filter (\<lambda>(_, e). ce_tenant_id e = tenant_id) (co_events st));
          period_ids = map fst (filter (\<lambda>(_, p). bp_tenant_id p = tenant_id) (co_periods st));
          alert_ids = map fst (filter (\<lambda>(_, a). ta_tenant_id a = tenant_id) (co_alerts st));
          dead = filter (\<lambda>(e, _). ce_tenant_id e = tenant_id) (co_dead st)
      in (st\<lparr>co_events := fold dict_pop event_ids (co_events st),
            co_periods := fold dict_pop period_ids (co_periods st),
            co_alerts := fold dict_pop alert_ids (co_alerts st),
            co_dead := filter (\<lambda>(e, _). ce_tenant_id e \<noteq> tenant_id) (co_dead st)\<rparr>,
          length event_ids + length period_ids + length alert_ids + length dead))"

section \<open>Periods\<close>

definition period_start :: "cost_period_kind \<Rightarrow> time \<Rightarrow> int" where
  "period_start kind t =
     (let moment = date_of t in
      case kind of
        PERIOD_DAY \<Rightarrow> moment
      | PERIOD_WEEK \<Rightarrow> moment - weekday moment
      | PERIOD_MONTH \<Rightarrow> first_of_month moment)"

definition start_key :: "cost_period_kind \<Rightarrow> int \<Rightarrow> string" where
  "start_key kind start = (case kind of
       PERIOD_DAY \<Rightarrow> date_isoformat start
     | PERIOD_WEEK \<Rightarrow> (let (year, week) = isocalendar start in int_str year @ ''-W'' @ zero_pad 2 week)
     | PERIOD_MONTH \<Rightarrow> int_str (year_of start) @ ''-'' @ zero_pad 2 (month_of start))"

definition period_key :: "cost_period_kind \<Rightarrow> time \<Rightarrow> string" where
  "period_key kind t = start_key kind (period_start kind t)"

definition period_following :: "cost_period_kind \<Rightarrow> int \<Rightarrow> int" where
  "period_following kind start = (case kind of
       PERIOD_DAY \<Rightarrow> start + 1
     | PERIOD_WEEK \<Rightarrow> start + 7
     | PERIOD_MONTH \<Rightarrow> first_of_month (start - day_of start + 28 + 4))"

definition next_period_key :: "cost_period_kind \<Rightarrow> time \<Rightarrow> string" where
  "next_period_key kind t = period_key kind (midnight (period_following kind (period_start kind t)))"

definition period_bounds :: "cost_period_kind \<Rightarrow> time \<Rightarrow> time \<times> time" where
  "period_bounds kind t =
     (midnight (period_start kind t), midnight (period_following kind (period_start kind t)))"

section \<open>The service\<close>

definition period_id_of :: "string \<Rightarrow> budget_scope \<Rightarrow> string \<Rightarrow> cost_period_kind \<Rightarrow> string \<Rightarrow> string" where
  "period_id_of tenant_id scope scope_id kind key =
     tenant_id @ '':'' @ budget_scope_value scope @ '':'' @ scope_id @ '':'' @ cost_period_kind_value kind @ '':'' @ key"

text \<open>An existing period keeps its spend and what was carried into it.\<close>

definition keep_usage :: "budget_period option \<Rightarrow> budget_period \<Rightarrow> budget_period" where
  "keep_usage existing p = (case existing of
       None \<Rightarrow> p
     | Some e \<Rightarrow> p\<lparr>bp_spent_usd := bp_spent_usd e, bp_carry_in_usd := bp_carry_in_usd e\<rparr>)"

definition set_budget ::
  "cost_store \<Rightarrow> tenant_context \<Rightarrow> string \<Rightarrow> budget_scope \<Rightarrow> string \<Rightarrow> cost_period_kind \<Rightarrow> usd \<Rightarrow>
   carry_rule \<Rightarrow> usd option \<Rightarrow> bool \<Rightarrow> time \<Rightarrow> cost_error + (cost_store \<times> budget_period)" where
  "set_budget st ctx tenant_id scope scope_id kind limit carry cap enforced t =
     (let key = period_key kind t;
          period_id = period_id_of tenant_id scope scope_id kind key;
          fresh = \<lparr>bp_period_id = period_id, bp_tenant_id = tenant_id, bp_scope = scope,
            bp_scope_id = scope_id, bp_kind = kind, bp_period_key = key, bp_limit_usd = limit,
            bp_carry_rule = carry, bp_carry_in_usd = 0, bp_spent_usd = 0, bp_cap_usd = cap, bp_enforced = enforced\<rparr>;
          period = keep_usage (get_period st ctx period_id) fresh
      in if \<not> period_valid fresh then Inl (CostValidationError ''BudgetPeriod'')
         else case save_period st ctx period of
           Inl e \<Rightarrow> Inl e
         | Inr st' \<Rightarrow> Inr (st', period))"

definition period_matches :: "cost_event \<Rightarrow> budget_period \<Rightarrow> bool" where
  "period_matches event period =
     (if bp_scope period = SCOPE_TEAM \<and> bp_scope_id period \<noteq> ce_team_id event then False
      else if bp_scope period = SCOPE_WORKLOAD \<and> bp_scope_id period \<noteq> ce_workload_id event then False
      else if bp_period_key period \<noteq> period_key (bp_kind period) (ce_occurred_at event) then False
      else True)"

definition matching_periods :: "cost_store \<Rightarrow> tenant_context \<Rightarrow> cost_event \<Rightarrow> budget_period list" where
  "matching_periods st ctx event =
     filter (period_matches event) (list_periods st ctx (ce_tenant_id event))"

definition alert_id_of :: "budget_period \<Rightarrow> int \<Rightarrow> string" where
  "alert_id_of period threshold = bp_period_id period @ '':'' @ int_str threshold"

definition alert_of :: "budget_period \<Rightarrow> int \<Rightarrow> time \<Rightarrow> threshold_alert" where
  "alert_of period threshold t =
     \<lparr>ta_alert_id = alert_id_of period threshold, ta_tenant_id = bp_tenant_id period,
      ta_scope = bp_scope period, ta_scope_id = bp_scope_id period, ta_kind = bp_kind period,
      ta_period_key = bp_period_key period, ta_threshold = threshold, ta_spent_usd = bp_spent_usd period,
      ta_limit_usd = effective_limit_usd period, ta_fired_at = t\<rparr>"

text \<open>The loop of \<open>_evaluate\<close> over the thresholds.\<close>

fun evaluate_thresholds ::
  "int list \<Rightarrow> budget_period \<Rightarrow> time \<Rightarrow> tenant_context \<Rightarrow> (cost_store, cost_error, threshold_alert list) exec" where
  "evaluate_thresholds [] period t ctx = returnE []"
| "evaluate_thresholds (threshold # rest) period t ctx =
     bindE (getE (\<lambda>st. list_alerts st ctx (bp_tenant_id period))) (\<lambda>alerts.
       if bp_spent_usd period < effective_limit_usd period * of_int threshold / 100
         then evaluate_thresholds rest period t ctx
       else if list_ex (\<lambda>a. ta_alert_id a = alert_id_of period threshold) alerts
         then evaluate_thresholds rest period t ctx
       else if \<not> alert_valid (alert_of period threshold t)
         then raiseE (CostValidationError ''ThresholdAlert'')
       else bindE (\<lambda>st. case save_alert st ctx (alert_of period threshold t) of
                Inl e \<Rightarrow> (Inl e, st) | Inr st' \<Rightarrow> (Inr (), st')) (\<lambda>_.
            bindE (evaluate_thresholds rest period t ctx) (\<lambda>fired.
              returnE (alert_of period threshold t # fired))))"

definition evaluate_alerts ::
  "int list \<Rightarrow> budget_period \<Rightarrow> time \<Rightarrow> tenant_context \<Rightarrow> (cost_store, cost_error, threshold_alert list) exec" where
  "evaluate_alerts thresholds period t ctx =
     (if effective_limit_usd period \<le> 0 then returnE [] else evaluate_thresholds thresholds period t ctx)"

fun apply_spend ::
  "int list \<Rightarrow> cost_event \<Rightarrow> tenant_context \<Rightarrow> budget_period list \<Rightarrow> (cost_store, cost_error, threshold_alert list) exec" where
  "apply_spend thresholds event ctx [] = returnE []"
| "apply_spend thresholds event ctx (period # rest) =
     (let period' = period\<lparr>bp_spent_usd := bp_spent_usd period + ce_cost_usd event\<rparr> in
      bindE (\<lambda>st. case save_period st ctx period' of Inl e \<Rightarrow> (Inl e, st) | Inr st' \<Rightarrow> (Inr (), st')) (\<lambda>_.
      bindE (evaluate_alerts thresholds period' (ce_occurred_at event) ctx) (\<lambda>fired.
      bindE (apply_spend thresholds event ctx rest) (\<lambda>more. returnE (fired @ more)))))"

definition cost_record ::
  "int list \<Rightarrow> tenant_context \<Rightarrow> cost_event \<Rightarrow> (cost_store, cost_error, threshold_alert list) exec" where
  "cost_record thresholds ctx event =
     (let missing = (if ce_tenant_id event = [] then [''tenant_id''] else []) @
            (if ce_workload_id event = [] then [''workload_id''] else []);
          scope = (if scopes ctx (ce_tenant_id event) then ctx
            else context_for_run (ce_tenant_id event) None None)
      in if missing \<noteq> [] then
           thenE (modifyE (\<lambda>st. dead_letter st event ''missing attribution''))
             (raiseE (UnattributedUsageError (ce_event_id event) missing))
         else
           bindE (\<lambda>st. case cost_save_event st scope event of Inl e \<Rightarrow> (Inl e, st) | Inr st' \<Rightarrow> (Inr (), st')) (\<lambda>_.
           bindE (getE (\<lambda>st. matching_periods st scope event)) (\<lambda>periods.
             apply_spend thresholds event scope periods)))"

definition check_cap ::
  "cost_store \<Rightarrow> tenant_context \<Rightarrow> string \<Rightarrow> cost_period_kind \<Rightarrow> time \<Rightarrow> usd \<Rightarrow> cost_error + unit" where
  "check_cap st ctx tenant_id kind t projected =
     (let key = period_key kind t in
      case List.find (\<lambda>p. bp_scope p = SCOPE_TENANT \<and> bp_enforced p \<and>
          (case bp_cap_usd p of None \<Rightarrow> False
           | Some cap \<Rightarrow> bp_period_key p = key \<and> bp_spent_usd p + projected > cap))
          (list_periods st ctx tenant_id) of
        None \<Rightarrow> Inr ()
      | Some p \<Rightarrow> Inl (SpendCapExceededError tenant_id (the (bp_cap_usd p)) (bp_spent_usd p)))"

definition carry_over :: "budget_period \<Rightarrow> usd" where
  "carry_over p = (case bp_carry_rule p of
       CARRY_FULL \<Rightarrow> period_remaining_usd p
     | CARRY_CAPPED \<Rightarrow> min (period_remaining_usd p) (bp_limit_usd p)
     | CARRY_NONE \<Rightarrow> 0)"

text \<open>The period the loop of \<open>rollover\<close> saves for one current period.\<close>

definition next_period ::
  "cost_store \<Rightarrow> tenant_context \<Rightarrow> string \<Rightarrow> cost_period_kind \<Rightarrow> string \<Rightarrow> budget_period \<Rightarrow> cost_error + budget_period" where
  "next_period st ctx tenant_id kind next_key p =
     (let next_id = period_id_of tenant_id (bp_scope p) (bp_scope_id p) kind next_key;
          fresh = \<lparr>bp_period_id = next_id, bp_tenant_id = tenant_id, bp_scope = bp_scope p,
            bp_scope_id = bp_scope_id p, bp_kind = kind, bp_period_key = next_key,
            bp_limit_usd = bp_limit_usd p, bp_carry_rule = bp_carry_rule p, bp_carry_in_usd = carry_over p,
            bp_spent_usd = 0, bp_cap_usd = bp_cap_usd p, bp_enforced = bp_enforced p\<rparr>
      in if \<not> period_valid fresh then Inl (CostValidationError ''BudgetPeriod'')
         else Inr (keep_usage (get_period st ctx next_id) fresh))"

fun rollover_periods ::
  "tenant_context \<Rightarrow> string \<Rightarrow> cost_period_kind \<Rightarrow> string \<Rightarrow> string \<Rightarrow> budget_period list \<Rightarrow>
   (cost_store, cost_error, budget_period list) exec" where
  "rollover_periods ctx tenant_id kind current_key next_key [] = returnE []"
| "rollover_periods ctx tenant_id kind current_key next_key (p # ps) =
     (if bp_kind p \<noteq> kind \<or> bp_period_key p \<noteq> current_key \<or> next_key = current_key
        then rollover_periods ctx tenant_id kind current_key next_key ps
      else bindE (\<lambda>st. (next_period st ctx tenant_id kind next_key p, st)) (\<lambda>np.
           bindE (\<lambda>st. case save_period st ctx np of Inl e \<Rightarrow> (Inl e, st) | Inr st' \<Rightarrow> (Inr (), st')) (\<lambda>_.
           bindE (rollover_periods ctx tenant_id kind current_key next_key ps) (\<lambda>rolled.
             returnE (np # rolled)))))"

definition rollover ::
  "tenant_context \<Rightarrow> string \<Rightarrow> cost_period_kind \<Rightarrow> time \<Rightarrow> (cost_store, cost_error, budget_period list) exec" where
  "rollover ctx tenant_id kind t =
     bindE (getE (\<lambda>st. list_periods st ctx tenant_id)) (\<lambda>periods.
       rollover_periods ctx tenant_id kind (period_key kind t) (next_period_key kind t) periods)"

definition showback_group :: "string \<Rightarrow> cost_event \<Rightarrow> string" where
  "showback_group group_by e = (if group_by = ''team'' then ce_team_id e else ce_workload_id e)"

definition showback_add :: "string \<Rightarrow> string \<Rightarrow> cost_event \<Rightarrow> (string, showback_row) dict \<Rightarrow> (string, showback_row) dict" where
  "showback_add tenant_id group_by e groups =
     (let g = showback_group group_by e;
          row = dict_get_default groups g
            \<lparr>sr_tenant_id = tenant_id,
             sr_team_id = (if group_by = ''team'' then Some (ce_team_id e) else None),
             sr_workload_id = (if group_by \<noteq> ''team'' then Some (ce_workload_id e) else None),
             sr_total_cost_usd = 0, sr_wasted_usd = 0, sr_cache_savings_usd = 0,
             sr_completed_tasks = 0, sr_cost_per_completed_task = 0\<rparr>
      in dict_put g (row\<lparr>sr_total_cost_usd := sr_total_cost_usd row + ce_cost_usd e,
           sr_cache_savings_usd := sr_cache_savings_usd row + ce_saved_usd e,
           sr_wasted_usd := sr_wasted_usd row + (if ce_retry e \<or> ce_escalation e then ce_cost_usd e else 0),
           sr_completed_tasks := sr_completed_tasks row + (if ce_completed e then 1 else 0)\<rparr>) groups)"

definition finish_row :: "showback_row \<Rightarrow> showback_row" where
  "finish_row row =
     (if sr_completed_tasks row \<noteq> 0
      then row\<lparr>sr_cost_per_completed_task := sr_total_cost_usd row / of_int (sr_completed_tasks row)\<rparr>
      else row)"

definition showback ::
  "cost_store \<Rightarrow> tenant_context \<Rightarrow> string \<Rightarrow> cost_period_kind \<Rightarrow> time \<Rightarrow> string \<Rightarrow> showback_report" where
  "showback st ctx tenant_id kind t group_by =
     (let (start, end_at) = period_bounds kind t;
          events = cost_list_events st ctx tenant_id (Some start) (Some end_at);
          groups = fold (showback_add tenant_id group_by) events [];
          rows = sort_key (\<lambda>row. str_or (sr_team_id row) (str_or (sr_workload_id row) [])) (dict_values groups);
          total = sum_list (map ce_cost_usd events);
          completed = int (length (filter ce_completed events))
      in \<lparr>sp_tenant_id = tenant_id, sp_kind = kind, sp_period_key = period_key kind t,
          sp_group_by = group_by, sp_rows = map finish_row rows, sp_total_cost_usd = total,
          sp_total_completed_tasks = completed,
          sp_fleet_cpct = (if completed \<noteq> 0 then total / of_int completed else 0),
          sp_cache_savings_usd = sum_list (map ce_saved_usd events),
          sp_unattributed = unattributed st\<rparr>)"

section \<open>Estimates and forecasts\<close>

type_synonym cost_history = "(string \<times> string, usd list) dict"

definition estimator_record :: "cost_history \<Rightarrow> string \<Rightarrow> string \<Rightarrow> usd \<Rightarrow> cost_history" where
  "estimator_record h workload_id task_type cost =
     dict_put (workload_id, task_type) (dict_get_default h (workload_id, task_type) [] @ [max 0 cost]) h"

definition percentile :: "usd list \<Rightarrow> rat \<Rightarrow> usd" where
  "percentile ordered fraction =
     (if length ordered = 1 then ordered ! 0
      else (let index = fraction * of_nat (length ordered - 1);
                lower = nat \<lfloor>index\<rfloor>;
                upper = min (lower + 1) (length ordered - 1);
                weight = index - of_nat lower
            in ordered ! lower * (1 - weight) + ordered ! upper * weight))"

record cost_estimate =
  es_workload_id :: string
  es_task_type :: string
  es_p50_usd :: usd
  es_p90_usd :: usd
  es_samples :: nat
  es_confidence :: string

definition estimate :: "nat \<Rightarrow> cost_history \<Rightarrow> string \<Rightarrow> string \<Rightarrow> cost_estimate" where
  "estimate min_samples h workload_id task_type =
     (let ordered = sort (dict_get_default h (workload_id, task_type) []) in
      if ordered = [] then
        \<lparr>es_workload_id = workload_id, es_task_type = task_type, es_p50_usd = 0, es_p90_usd = 0,
         es_samples = 0, es_confidence = ''low''\<rparr>
      else
        \<lparr>es_workload_id = workload_id, es_task_type = task_type,
         es_p50_usd = percentile ordered (1 / 2), es_p90_usd = percentile ordered (9 / 10),
         es_samples = length ordered,
         es_confidence = (if length ordered \<ge> min_samples then ''high'' else ''low'')\<rparr>)"

record burn_forecast =
  bf_spent_usd :: usd
  bf_elapsed_fraction :: rat
  bf_projected_usd :: usd
  bf_projected_overrun_usd :: usd
  bf_overrun_probability :: rat

definition forecast :: "usd \<Rightarrow> rat \<Rightarrow> usd option \<Rightarrow> burn_forecast" where
  "forecast spent elapsed limit =
     (let projected = (if elapsed \<le> 0 then spent else spent / elapsed);
          overrun = (case limit of None \<Rightarrow> 0 | Some l \<Rightarrow> max 0 (projected - l));
          probability = (case limit of None \<Rightarrow> 0
            | Some l \<Rightarrow>
                (if l \<le> 0 then 0
                 else if spent \<ge> l then 1
                 else if projected \<ge> l then min 1 (projected / l - 1 + 1 / 2)
                 else max 0 (projected / l * (1 / 2))))
      in \<lparr>bf_spent_usd = spent, bf_elapsed_fraction = elapsed, bf_projected_usd = projected,
          bf_projected_overrun_usd = overrun, bf_overrun_probability = probability\<rparr>)"

section \<open>Recording usage\<close>

definition cost_store_ok :: "cost_store \<Rightarrow> bool" where
  "cost_store_ok st \<longleftrightarrow> dict_ok (co_periods st) \<and> dict_ok (co_alerts st) \<and>
     (\<forall>k p. dict_get (co_periods st) k = Some p \<longrightarrow> bp_period_id p = k \<and> period_valid p) \<and>
     (\<forall>k a. dict_get (co_alerts st) k = Some a \<longrightarrow> ta_alert_id a = k)"

lemma save_period_Inr:
  "(save_period st ctx p = Inr st') =
     (scopes ctx (bp_tenant_id p) \<and> st' = st\<lparr>co_periods := dict_put (bp_period_id p) p (co_periods st)\<rparr>)"
  by (auto simp: save_period_def require_def)

lemma save_alert_Inr:
  "(save_alert st ctx a = Inr st') =
     (scopes ctx (ta_tenant_id a) \<and> st' = st\<lparr>co_alerts := dict_put (ta_alert_id a) a (co_alerts st)\<rparr>)"
  by (auto simp: save_alert_def require_def)

lemma alert_of_sel [simp]:
  "ta_alert_id (alert_of p th t) = alert_id_of p th" "ta_tenant_id (alert_of p th t) = bp_tenant_id p"
  by (simp_all add: alert_of_def)

lemma alert_of_valid: "period_valid p \<Longrightarrow> 1 \<le> th \<Longrightarrow> alert_valid (alert_of p th t)"
  by (simp add: alert_valid_def alert_of_def period_valid_def alert_id_of_def effective_limit_usd_def)

lemma list_alerts_ex:
  assumes "scopes ctx t" "\<forall>k a. dict_get (co_alerts st) k = Some a \<longrightarrow> ta_alert_id a = k" "dict_ok (co_alerts st)"
  shows "list_ex (\<lambda>a. ta_alert_id a = i) (list_alerts st ctx t) =
    (\<exists>a. dict_get (co_alerts st) i = Some a \<and> ta_tenant_id a = t)"
proof -
  have "a \<in> set (map snd (co_alerts st)) \<and> ta_alert_id a = i \<longleftrightarrow> dict_get (co_alerts st) i = Some a" for a
  proof
    assume "a \<in> set (map snd (co_alerts st)) \<and> ta_alert_id a = i"
    then obtain k where "(k, a) \<in> set (co_alerts st)" "ta_alert_id a = i" by auto
    then show "dict_get (co_alerts st) i = Some a"
      using assms(2,3) by (auto simp: dict_get_in_set)
  next
    assume "dict_get (co_alerts st) i = Some a"
    then show "a \<in> set (map snd (co_alerts st)) \<and> ta_alert_id a = i"
      using assms(2) by (auto dest: map_of_SomeD intro: rev_image_eqI)
  qed
  then have "(\<exists>a \<in> set (map snd (co_alerts st)). ta_tenant_id a = t \<and> ta_alert_id a = i) =
      (\<exists>a. dict_get (co_alerts st) i = Some a \<and> ta_tenant_id a = t)"
    by metis
  then show ?thesis
    using assms(1) by (simp add: list_alerts_def list_ex_iff Bex_def conj_ac)
qed

text \<open>
  What evaluating the thresholds of a period leaves behind: only alerts of the period are added,
  none of the tenant's alerts is replaced, and every threshold the spend has reached has its
  alert.
\<close>

definition alerts_extended :: "int list \<Rightarrow> budget_period \<Rightarrow> cost_store \<Rightarrow> cost_store \<Rightarrow> bool" where
  "alerts_extended ths p st st' \<longleftrightarrow>
     co_periods st' = co_periods st \<and> co_events st' = co_events st \<and> co_dead st' = co_dead st \<and>
     dict_ok (co_alerts st') \<and> (\<forall>k a. dict_get (co_alerts st') k = Some a \<longrightarrow> ta_alert_id a = k) \<and>
     (\<forall>i a. dict_get (co_alerts st) i = Some a \<and> ta_tenant_id a = bp_tenant_id p \<longrightarrow>
        dict_get (co_alerts st') i = Some a) \<and>
     (\<forall>th \<in> set ths. effective_limit_usd p * of_int th / 100 \<le> bp_spent_usd p \<longrightarrow>
        (\<exists>a. dict_get (co_alerts st') (alert_id_of p th) = Some a \<and> ta_tenant_id a = bp_tenant_id p))"

lemma evaluate_thresholds_alerts:
  assumes "scopes ctx (bp_tenant_id p)" "dict_ok (co_alerts st)"
    "\<forall>k a. dict_get (co_alerts st) k = Some a \<longrightarrow> ta_alert_id a = k" "period_valid p" "\<forall>th \<in> set ths. 1 \<le> th"
  shows "\<exists>fired st'. evaluate_thresholds ths p t ctx st = (Inr fired, st') \<and> alerts_extended ths p st st'"
  using assms(2,3,5)
proof (induction ths arbitrary: st)
  case Nil
  then show ?case by (simp add: returnE_def alerts_extended_def)
next
  case (Cons th ths)
  let ?reached = "\<not> bp_spent_usd p < effective_limit_usd p * of_int th / 100"
  let ?known = "\<exists>a. dict_get (co_alerts st) (alert_id_of p th) = Some a \<and> ta_tenant_id a = bp_tenant_id p"
  have known: "list_ex (\<lambda>a. ta_alert_id a = alert_id_of p th) (list_alerts st ctx (bp_tenant_id p)) = ?known"
    using list_alerts_ex [OF assms(1) Cons.prems(2,1)] .
  show ?case
  proof (cases "?reached \<and> \<not> ?known")
    case False
    then have step: "evaluate_thresholds (th # ths) p t ctx st = evaluate_thresholds ths p t ctx st"
      by (auto simp: bindE_def getE_def known)
    obtain fired st' where e: "evaluate_thresholds ths p t ctx st = (Inr fired, st')"
      and a: "alerts_extended ths p st st'"
      using Cons.IH [OF Cons.prems(1,2)] Cons.prems(3) by auto
    have "effective_limit_usd p * of_int th / 100 \<le> bp_spent_usd p \<longrightarrow>
        (\<exists>a. dict_get (co_alerts st') (alert_id_of p th) = Some a \<and> ta_tenant_id a = bp_tenant_id p)"
      using a False unfolding alerts_extended_def by (meson not_less)
    then have "alerts_extended (th # ths) p st st'"
      using a unfolding alerts_extended_def by simp
    with step e show ?thesis by auto
  next
    case True
    let ?st = "st\<lparr>co_alerts := dict_put (alert_id_of p th) (alert_of p th t) (co_alerts st)\<rparr>"
    have save: "save_alert st ctx (alert_of p th t) = Inr ?st"
      using assms(1) by (simp add: save_alert_Inr)
    have ok: "dict_ok (co_alerts ?st)" "\<forall>k a. dict_get (co_alerts ?st) k = Some a \<longrightarrow> ta_alert_id a = k"
      using Cons.prems by auto
    obtain fired st' where e: "evaluate_thresholds ths p t ctx ?st = (Inr fired, st')"
      and a: "alerts_extended ths p ?st st'"
      using Cons.IH [OF ok] Cons.prems(3) by auto
    have va: "alert_valid (alert_of p th t)" using alert_of_valid [OF assms(4)] Cons.prems(3) by simp
    have nk: "list_ex (\<lambda>a. ta_alert_id a = alert_id_of p th) (list_alerts st ctx (bp_tenant_id p)) = False"
      using known True by blast
    have nr: "(bp_spent_usd p < effective_limit_usd p * of_int th / 100) = False"
      using True by blast
    have "evaluate_thresholds (th # ths) p t ctx st = (Inr (alert_of p th t # fired), st')"
      by (simp only: evaluate_thresholds.simps bindE_def getE_def nk nr va not_True_eq_False if_False save e returnE_def
          prod.case sum.case)
    moreover have "alerts_extended (th # ths) p st st'"
    proof -
      have keep: "dict_get (co_alerts st') i = Some x"
        if "dict_get (co_alerts ?st) i = Some x" "ta_tenant_id x = bp_tenant_id p" for i x
        using a that unfolding alerts_extended_def by blast
      have "dict_get (co_alerts st') (alert_id_of p th) = Some (alert_of p th t)"
        by (rule keep) simp_all
      then have new: "\<exists>x. dict_get (co_alerts st') (alert_id_of p th) = Some x \<and> ta_tenant_id x = bp_tenant_id p"
        by simp
      have pres: "dict_get (co_alerts st') i = Some x"
        if "dict_get (co_alerts st) i = Some x" "ta_tenant_id x = bp_tenant_id p" for i x
        using that True by (intro keep) auto
      note a' = a [unfolded alerts_extended_def]
      show ?thesis
        unfolding alerts_extended_def
      proof (intro conjI ballI allI impI)
        have same: "co_periods ?st = co_periods st" "co_events ?st = co_events st" "co_dead ?st = co_dead st"
          by simp_all
        show "co_periods st' = co_periods st" "co_events st' = co_events st" "co_dead st' = co_dead st"
          "dict_ok (co_alerts st')"
          using a' unfolding same by blast+
        show "ta_alert_id x = k" if "dict_get (co_alerts st') k = Some x" for k x
          using a' that by blast
        show "dict_get (co_alerts st') i = Some x"
          if "dict_get (co_alerts st) i = Some x \<and> ta_tenant_id x = bp_tenant_id p" for i x
          using pres that by blast
        show "\<exists>x. dict_get (co_alerts st') (alert_id_of p th') = Some x \<and> ta_tenant_id x = bp_tenant_id p"
          if "th' \<in> set (th # ths)" "effective_limit_usd p * of_int th' / 100 \<le> bp_spent_usd p" for th'
        proof (cases "th' = th")
          case True
          then show ?thesis using new by blast
        next
          case False
          then have "th' \<in> set ths" using that(1) by simp
          then show ?thesis using a' that(2) by blast
        qed
      qed
    qed
    ultimately show ?thesis by auto
  qed
qed

lemma evaluate_alerts_alerts:
  assumes "scopes ctx (bp_tenant_id p)" "dict_ok (co_alerts st)"
    "\<forall>k a. dict_get (co_alerts st) k = Some a \<longrightarrow> ta_alert_id a = k" "period_valid p" "\<forall>th \<in> set ths. 1 \<le> th"
  shows "\<exists>fired st'. evaluate_alerts ths p t ctx st = (Inr fired, st') \<and>
    alerts_extended (if 0 < effective_limit_usd p then ths else []) p st st'"
proof (cases "0 < effective_limit_usd p")
  case True
  then show ?thesis
    using evaluate_thresholds_alerts [OF assms, of t] by (simp add: evaluate_alerts_def)
next
  case False
  then show ?thesis
    using assms by (simp add: evaluate_alerts_def returnE_def alerts_extended_def)
qed

definition charged :: "cost_event \<Rightarrow> budget_period \<Rightarrow> budget_period" where
  "charged e p = p\<lparr>bp_spent_usd := bp_spent_usd p + ce_cost_usd e\<rparr>"

lemma charged_sel [simp]:
  "bp_period_id (charged e p) = bp_period_id p" "bp_tenant_id (charged e p) = bp_tenant_id p"
  "effective_limit_usd (charged e p) = effective_limit_usd p"
  by (simp_all add: charged_def effective_limit_usd_def)

text \<open>The state after charging the periods \<open>ps\<close> of tenant \<open>t\<close>.\<close>

definition spend_applied :: "int list \<Rightarrow> cost_event \<Rightarrow> string \<Rightarrow> budget_period list \<Rightarrow> cost_store \<Rightarrow> cost_store \<Rightarrow> bool" where
  "spend_applied ths e t ps st st' \<longleftrightarrow>
     co_events st' = co_events st \<and> co_dead st' = co_dead st \<and> (dict_ok (co_periods st) \<longrightarrow> dict_ok (co_periods st')) \<and>
     dict_ok (co_alerts st') \<and> (\<forall>k a. dict_get (co_alerts st') k = Some a \<longrightarrow> ta_alert_id a = k) \<and>
     (\<forall>p \<in> set ps. dict_get (co_periods st') (bp_period_id p) = Some (charged e p)) \<and>
     (\<forall>k. k \<notin> bp_period_id ` set ps \<longrightarrow> dict_get (co_periods st') k = dict_get (co_periods st) k) \<and>
     (\<forall>i a. dict_get (co_alerts st) i = Some a \<and> ta_tenant_id a = t \<longrightarrow> dict_get (co_alerts st') i = Some a) \<and>
     (\<forall>p \<in> set ps. \<forall>th \<in> set ths. 0 < effective_limit_usd p \<and>
        effective_limit_usd p * of_int th / 100 \<le> bp_spent_usd (charged e p) \<longrightarrow>
        (\<exists>a. dict_get (co_alerts st') (alert_id_of p th) = Some a \<and> ta_tenant_id a = t))"

lemma alert_id_charged [simp]: "alert_id_of (charged e p) th = alert_id_of p th"
  by (simp add: alert_id_of_def)

lemma apply_spend_applied:
  assumes "scopes ctx t" "\<forall>th \<in> set ths. 1 \<le> th" "\<forall>p \<in> set ps. bp_tenant_id p = t \<and> period_valid (charged e p)" "distinct (map bp_period_id ps)"
    "dict_ok (co_alerts st)" "\<forall>k a. dict_get (co_alerts st) k = Some a \<longrightarrow> ta_alert_id a = k"
  shows "\<exists>fired st'. apply_spend ths e ctx ps st = (Inr fired, st') \<and> spend_applied ths e t ps st st'"
  using assms(3-)
proof (induction ps arbitrary: st)
  case Nil
  then show ?case by (simp add: returnE_def spend_applied_def)
next
  case (Cons p ps)
  let ?p = "charged e p"
  let ?st1 = "st\<lparr>co_periods := dict_put (bp_period_id p) ?p (co_periods st)\<rparr>"
  have sc: "scopes ctx (bp_tenant_id ?p)" using Cons.prems(1) assms(1) by simp
  have save: "save_period st ctx ?p = Inr ?st1" using sc by (simp add: save_period_Inr)
  obtain f1 st2 where e1: "evaluate_alerts ths ?p (ce_occurred_at e) ctx ?st1 = (Inr f1, st2)"
    and a1: "alerts_extended (if 0 < effective_limit_usd ?p then ths else []) ?p ?st1 st2"
    using evaluate_alerts_alerts [of ctx ?p ?st1 ths "ce_occurred_at e"] sc Cons.prems assms(2) by auto
  have ok2: "dict_ok (co_alerts st2)" "\<forall>k a. dict_get (co_alerts st2) k = Some a \<longrightarrow> ta_alert_id a = k"
    using a1 unfolding alerts_extended_def by blast+
  have tl: "\<forall>p \<in> set ps. bp_tenant_id p = t \<and> period_valid (charged e p)" "distinct (map bp_period_id ps)"
    using Cons.prems(1,2) by simp_all
  obtain f2 st3 where e2: "apply_spend ths e ctx ps st2 = (Inr f2, st3)"
    and s2: "spend_applied ths e t ps st2 st3"
    using Cons.IH [OF tl ok2] by blast
  have run: "apply_spend ths e ctx (p # ps) st = (Inr (f1 @ f2), st3)"
    using save e1 e2 by (simp add: Let_def charged_def [symmetric] bindE_def returnE_def)
  have same: "co_events ?st1 = co_events st" "co_dead ?st1 = co_dead st" "co_alerts ?st1 = co_alerts st"
    "co_periods ?st1 = dict_put (bp_period_id p) ?p (co_periods st)"
    by simp_all
  note a = a1 [unfolded alerts_extended_def charged_sel alert_id_charged same]
  note s = s2 [unfolded spend_applied_def]
  have new: "bp_period_id p \<notin> bp_period_id ` set ps" using Cons.prems(2) by simp
  have t: "bp_tenant_id p = t" using Cons.prems(1) by simp
  have "spend_applied ths e t (p # ps) st st3"
    unfolding spend_applied_def
  proof (intro conjI ballI allI impI)
    have "co_events st3 = co_events st2" "co_events st2 = co_events st" using a s by blast+
    then show "co_events st3 = co_events st" by simp
    have "co_dead st3 = co_dead st2" "co_dead st2 = co_dead st" using a s by blast+
    then show "co_dead st3 = co_dead st" by simp
    show "dict_ok (co_periods st3)" if "dict_ok (co_periods st)"
    proof -
      have "co_periods st2 = dict_put (bp_period_id p) ?p (co_periods st)" using a by blast
      then have "dict_ok (co_periods st2)" using that by simp
      then show ?thesis using s by blast
    qed
    show "dict_ok (co_alerts st3)" using s by blast
    show "ta_alert_id x = k" if "dict_get (co_alerts st3) k = Some x" for k x
      using s that by blast
    show "dict_get (co_periods st3) (bp_period_id q) = Some (charged e q)" if "q \<in> set (p # ps)" for q
    proof (cases "q = p")
      case True
      then have "dict_get (co_periods st3) (bp_period_id q) = dict_get (co_periods st2) (bp_period_id p)"
        using s new by blast
      moreover have "co_periods st2 = dict_put (bp_period_id p) ?p (co_periods st)" using a by blast
      ultimately show ?thesis using True by simp
    next
      case False
      then have "q \<in> set ps" using that by simp
      then show ?thesis using s by blast
    qed
    show "dict_get (co_periods st3) k = dict_get (co_periods st) k" if "k \<notin> bp_period_id ` set (p # ps)" for k
    proof -
      have "k \<notin> bp_period_id ` set ps" "k \<noteq> bp_period_id p" using that by simp_all
      moreover have "co_periods st2 = dict_put (bp_period_id p) ?p (co_periods st)" using a by blast
      moreover have "dict_get (co_periods st3) k = dict_get (co_periods st2) k" using s calculation(1) by blast
      ultimately show ?thesis by simp
    qed
    show "dict_get (co_alerts st3) i = Some x" if "dict_get (co_alerts st) i = Some x \<and> ta_tenant_id x = t" for i x
    proof -
      have "dict_get (co_alerts st2) i = Some x" using a that unfolding t by blast
      then show ?thesis using s that by blast
    qed
    show "\<exists>x. dict_get (co_alerts st3) (alert_id_of q th) = Some x \<and> ta_tenant_id x = t"
      if h: "q \<in> set (p # ps)" "th \<in> set ths" "0 < effective_limit_usd q \<and>
        effective_limit_usd q * of_int th / 100 \<le> bp_spent_usd (charged e q)" for q th
    proof (cases "q \<in> set ps")
      case True
      then show ?thesis using s h by blast
    next
      case False
      then have q: "q = p" using h by simp
      then have "th \<in> set (if 0 < effective_limit_usd p then ths else [])" using h by simp
      then obtain x where "dict_get (co_alerts st2) (alert_id_of p th) = Some x" "ta_tenant_id x = t"
        using a h(3) t q by blast
      then show ?thesis using s q by blast
    qed
  qed
  with run show ?case by blast
qed

lemma matching_periods_in:
  assumes "cost_store_ok st" "scopes ctx (ce_tenant_id e)"
  shows "p \<in> set (matching_periods st ctx e) \<longleftrightarrow>
    dict_get (co_periods st) (bp_period_id p) = Some p \<and> bp_tenant_id p = ce_tenant_id e \<and> period_matches e p"
proof -
  have "p \<in> snd ` set (co_periods st) \<longleftrightarrow> dict_get (co_periods st) (bp_period_id p) = Some p"
  proof
    assume "p \<in> snd ` set (co_periods st)"
    then obtain k where "(k, p) \<in> set (co_periods st)" by auto
    then have "dict_get (co_periods st) k = Some p"
      using assms(1) by (simp add: cost_store_ok_def dict_get_in_set)
    then show "dict_get (co_periods st) (bp_period_id p) = Some p"
      using assms(1) unfolding cost_store_ok_def by blast
  next
    assume "dict_get (co_periods st) (bp_period_id p) = Some p"
    then have "(bp_period_id p, p) \<in> set (co_periods st)" by (rule map_of_SomeD)
    then show "p \<in> snd ` set (co_periods st)" by (rule rev_image_eqI) simp
  qed
  then show ?thesis
    using assms(2) by (auto simp: matching_periods_def list_periods_def)
qed

lemma matching_periods_distinct:
  assumes "cost_store_ok st"
  shows "distinct (map bp_period_id (matching_periods st ctx e))"
proof -
  have ids: "map bp_period_id (map snd (co_periods st)) = map fst (co_periods st)"
    using assms by (auto simp: cost_store_ok_def dict_get_in_set)
  have "map bp_period_id (map snd (sort_key fst (co_periods st))) = map fst (sort_key fst (co_periods st))"
    using assms by (auto simp: cost_store_ok_def dict_get_in_set)
  moreover have "distinct (map fst (sort_key fst (co_periods st)))"
    using assms by (simp add: cost_store_ok_def distinct_map inj_on_def)
  ultimately have "distinct (map bp_period_id (map snd (sort_key fst (co_periods st))))" by (simp only:)
  then show ?thesis
    unfolding matching_periods_def list_periods_def
    by (simp del: map_map filter_filter add: distinct_map_filter)
qed

text \<open>Setting and rolling over budgets keep the store valid too.\<close>

lemma save_period_ok:
  assumes "cost_store_ok st" "period_valid p" "save_period st ctx p = Inr st'"
  shows "cost_store_ok st'"
  using assms by (auto simp: save_period_Inr cost_store_ok_def)

lemma get_period_valid: "cost_store_ok st \<Longrightarrow> get_period st ctx i = Some p \<Longrightarrow> period_valid p"
  by (auto simp: get_period_def cost_store_ok_def split: option.splits if_splits)

lemma keep_usage_valid:
  assumes "cost_store_ok st" "period_valid p"
  shows "period_valid (keep_usage (get_period st ctx i) p)"
  using assms(2) get_period_valid [OF assms(1), of ctx i]
  by (cases "get_period st ctx i") (auto simp: keep_usage_def period_valid_def)

lemma set_budget_ok:
  assumes "cost_store_ok st" "set_budget st ctx tenant_id scope scope_id kind limit carry cap enforced t = Inr (st', p)"
  shows "cost_store_ok st' \<and> dict_get (co_periods st') (bp_period_id p) = Some p"
proof -
  have "period_valid p \<and> save_period st ctx p = Inr st'"
    using assms(2) by (auto simp: set_budget_def Let_def split: if_splits sum.splits
        intro!: keep_usage_valid [OF assms(1)])
  then show ?thesis using save_period_ok [OF assms(1)] by (auto simp: save_period_Inr)
qed

lemma rollover_periods_ok:
  "cost_store_ok st \<Longrightarrow> rollover_periods ctx tenant_id kind current_key next_key ps st = (r, st') \<Longrightarrow> cost_store_ok st'"
proof (induction ps arbitrary: st r st')
  case Nil
  then show ?case by (simp add: returnE_def)
next
  case (Cons p ps)
  show ?case
  proof (cases "bp_kind p \<noteq> kind \<or> bp_period_key p \<noteq> current_key \<or> next_key = current_key")
    case True
    then show ?thesis using Cons by auto
  next
    case False
    show ?thesis
    proof (cases "next_period st ctx tenant_id kind next_key p")
      case (Inl e)
      then show ?thesis using Cons.prems False by (simp add: bindE_def)
    next
      case (Inr np)
      then have v: "period_valid np"
        by (auto simp: next_period_def Let_def split: if_splits intro!: keep_usage_valid [OF Cons.prems(1)])
      show ?thesis
      proof (cases "save_period st ctx np")
        case (Inl e)
        then show ?thesis using Cons.prems False Inr by (simp add: bindE_def)
      next
        case saved: (Inr st1)
        have ok: "cost_store_ok st1" by (rule save_period_ok [OF Cons.prems(1) v saved])
        obtain r2 st2 where rest: "rollover_periods ctx tenant_id kind current_key next_key ps st1 = (r2, st2)"
          by (rule prod.exhaust)
        then have "st' = st2" using Cons.prems(2) False Inr saved by (auto simp: bindE_def returnE_def split: sum.splits)
        then show ?thesis using Cons.IH [OF ok rest] by simp
      qed
    qed
  qed
qed

lemma rollover_ok: "cost_store_ok st \<Longrightarrow> rollover ctx tenant_id kind t st = (r, st') \<Longrightarrow> cost_store_ok st'"
  by (auto simp: rollover_def bindE_def getE_def dest: rollover_periods_ok)

text \<open>
  C28: recording an attributed usage event. With alert thresholds of at least 1 and a cost that is
  not negative, recording succeeds. It stores the event, adds its cost to every budget
  period of the event's tenant that covers the event and to no other period, keeps every alert of
  the event's tenant (so an alert of that tenant fires once), leaves an alert of that tenant for every threshold
  that a covering period reaches, provided the limit of the period with what was carried in is positive, and
  keeps the store valid. A period with no positive limit gets no alert.
\<close>

theorem cost_record_charges:
  assumes "cost_store_ok st" "ce_tenant_id e \<noteq> []" "ce_workload_id e \<noteq> []" "0 \<le> ce_cost_usd e" "\<forall>th \<in> set ths. 1 \<le> th"
  shows "\<exists>fired st'. cost_record ths ctx e st = (Inr fired, st') \<and> cost_store_ok st' \<and>
    dict_get (co_events st') (ce_event_id e) = Some e \<and>
    (\<forall>k. dict_get (co_periods st') k = map_option (\<lambda>p.
       if bp_tenant_id p = ce_tenant_id e \<and> period_matches e p
       then p\<lparr>bp_spent_usd := bp_spent_usd p + ce_cost_usd e\<rparr> else p) (dict_get (co_periods st) k)) \<and>
    (\<forall>i a. dict_get (co_alerts st) i = Some a \<and> ta_tenant_id a = ce_tenant_id e \<longrightarrow>
       dict_get (co_alerts st') i = Some a) \<and>
    (\<forall>k p th. dict_get (co_periods st) k = Some p \<and> bp_tenant_id p = ce_tenant_id e \<and> period_matches e p \<and>
       th \<in> set ths \<and> 0 < effective_limit_usd p \<and>
       effective_limit_usd p * of_int th / 100 \<le> bp_spent_usd p + ce_cost_usd e \<longrightarrow>
       (\<exists>a. dict_get (co_alerts st') (alert_id_of p th) = Some a \<and> ta_tenant_id a = ce_tenant_id e))"
proof -
  let ?t = "ce_tenant_id e"
  let ?scope = "if scopes ctx ?t then ctx else context_for_run ?t None None"
  let ?st1 = "st\<lparr>co_events := dict_put (ce_event_id e) e (co_events st)\<rparr>"
  have sc: "scopes ?scope ?t" by simp
  have ok1: "cost_store_ok ?st1" using assms(1) by (simp add: cost_store_ok_def)
  let ?ps = "matching_periods ?st1 ?scope e"
  have in_ps: "p \<in> set ?ps \<longleftrightarrow> dict_get (co_periods st) (bp_period_id p) = Some p \<and>
      bp_tenant_id p = ?t \<and> period_matches e p" for p
    using matching_periods_in [OF ok1 sc, of p] by simp
  have valid: "period_valid (charged e p)" if "dict_get (co_periods st) k = Some p" for k p
  proof -
    have "period_valid p" using that assms(1) unfolding cost_store_ok_def by blast
    then show ?thesis using assms(4) by (simp add: period_valid_def charged_def)
  qed
  have pre: "\<forall>p \<in> set ?ps. bp_tenant_id p = ?t \<and> period_valid (charged e p)" "distinct (map bp_period_id ?ps)"
      "dict_ok (co_alerts ?st1)" "\<forall>k a. dict_get (co_alerts ?st1) k = Some a \<longrightarrow> ta_alert_id a = k"
    using in_ps valid matching_periods_distinct [OF ok1] ok1 unfolding cost_store_ok_def by blast+
  obtain fired st' where run: "apply_spend ths e ?scope ?ps ?st1 = (Inr fired, st')"
    and sp: "spend_applied ths e ?t ?ps ?st1 st'"
    using apply_spend_applied [OF sc assms(5) pre] by blast
  have run_all: "cost_record ths ctx e st = (Inr fired, st')"
    using assms(2,3) run sc by (simp add: cost_record_def Let_def cost_save_event_def require_def bindE_def getE_def)
  note s = sp [unfolded spend_applied_def]
  have ev: "dict_get (co_events st') (ce_event_id e) = Some e"
  proof -
    have "co_events st' = co_events ?st1" using s by blast
    then show ?thesis by simp
  qed
  have per: "dict_get (co_periods st') k = map_option (\<lambda>p. if bp_tenant_id p = ?t \<and> period_matches e p
       then p\<lparr>bp_spent_usd := bp_spent_usd p + ce_cost_usd e\<rparr> else p) (dict_get (co_periods st) k)" for k
  proof (cases "k \<in> bp_period_id ` set ?ps")
    case True
    then obtain p where p: "p \<in> set ?ps" "k = bp_period_id p" by blast
    then have "dict_get (co_periods st') k = Some (charged e p)" using s by blast
    then show ?thesis using p in_ps [of p] by (simp add: charged_def)
  next
    case False
    then have same: "dict_get (co_periods st') k = dict_get (co_periods ?st1) k" using s by blast
    have "\<not> (bp_tenant_id p = ?t \<and> period_matches e p)" if "dict_get (co_periods st) k = Some p" for p
    proof -
      have "bp_period_id p = k" using that assms(1) unfolding cost_store_ok_def by blast
      then show ?thesis using in_ps [of p] that False by blast
    qed
    then show ?thesis using same by (cases "dict_get (co_periods st) k") auto
  qed
  have al: "\<exists>a. dict_get (co_alerts st') (alert_id_of p th) = Some a \<and> ta_tenant_id a = ?t"
    if "dict_get (co_periods st) k = Some p \<and> bp_tenant_id p = ?t \<and> period_matches e p \<and>
       th \<in> set ths \<and> 0 < effective_limit_usd p \<and>
       effective_limit_usd p * of_int th / 100 \<le> bp_spent_usd p + ce_cost_usd e" for k p th
  proof -
    have "bp_period_id p = k" using that assms(1) unfolding cost_store_ok_def by blast
    then have "p \<in> set ?ps" using in_ps [of p] that by blast
    moreover have "bp_spent_usd (charged e p) = bp_spent_usd p + ce_cost_usd e" by (simp add: charged_def)
    ultimately show ?thesis using s that by metis
  qed
  have pr: "dict_get (co_alerts st') i = Some a"
    if "dict_get (co_alerts st) i = Some a \<and> ta_tenant_id a = ?t" for i a
  proof -
    have "co_alerts ?st1 = co_alerts st" by simp
    then show ?thesis using s that by metis
  qed
  have "bp_period_id p = k \<and> period_valid p" if p: "dict_get (co_periods st') k = Some p" for k p
  proof -
    obtain q where q: "dict_get (co_periods st) k = Some q"
      "p = (if bp_tenant_id q = ?t \<and> period_matches e q then charged e q else q)"
      using p unfolding per by (auto simp: charged_def simp del: if_split)
    have "bp_period_id q = k \<and> period_valid q" using q(1) assms(1) unfolding cost_store_ok_def by blast
    then show ?thesis using q(2) valid [OF q(1)] by simp
  qed
  moreover have "dict_ok (co_periods ?st1)" using ok1 by (simp add: cost_store_ok_def)
  ultimately have "cost_store_ok st'" using s unfolding cost_store_ok_def by blast
  then show ?thesis
    using run_all ev per al pr by blast
qed

text \<open>Sample budget state, used to exercise the properties.\<close>

definition sample_period :: "usd \<Rightarrow> budget_period" where
  "sample_period spent = \<lparr>bp_period_id = ''p'', bp_tenant_id = ''t'', bp_scope = SCOPE_TENANT, bp_scope_id = ''t'',
     bp_kind = PERIOD_DAY, bp_period_key = period_key PERIOD_DAY 0, bp_limit_usd = 10, bp_carry_rule = CARRY_NONE,
     bp_carry_in_usd = 0, bp_spent_usd = spent, bp_cap_usd = Some 10, bp_enforced = True\<rparr>"

definition sample_cost_store :: cost_store where
  "sample_cost_store = \<lparr>co_events = [], co_periods = [(''p'', sample_period 6)], co_alerts = [], co_dead = []\<rparr>"

definition sample_cost_event :: cost_event where
  "sample_cost_event = \<lparr>ce_event_id = ''e'', ce_tenant_id = ''t'', ce_team_id = ''x'', ce_workload_id = ''w'',
     ce_run_id = None, ce_pipeline_run_id = None, ce_cost_type = COST_LLM, ce_model = None, ce_cost_usd = 5,
     ce_saved_usd = 0, ce_completed = False, ce_retry = False, ce_escalation = False, ce_occurred_at = 0\<rparr>"

theorem cost_record_charges_witness:
  "\<exists>fired st'. cost_record [50, 80, 100] (context_for_run ''t'' None None) sample_cost_event sample_cost_store = (Inr fired, st') \<and>
     dict_get (co_periods st') ''p'' = Some (sample_period 11)"
proof -
  have "period_key PERIOD_DAY 0 = ''1970-01-01''" by code_simp
  then have ok: "cost_store_ok sample_cost_store"
    by (simp add: cost_store_ok_def sample_cost_store_def sample_period_def period_valid_def)
  have ne: "ce_tenant_id sample_cost_event \<noteq> []" "ce_workload_id sample_cost_event \<noteq> []" "0 \<le> ce_cost_usd sample_cost_event"
    by (simp_all add: sample_cost_event_def)
  obtain fired st' where
      run: "cost_record [50, 80, 100] (context_for_run ''t'' None None) sample_cost_event sample_cost_store = (Inr fired, st')"
    and per: "\<forall>k. dict_get (co_periods st') k = map_option (\<lambda>p.
       if bp_tenant_id p = ce_tenant_id sample_cost_event \<and> period_matches sample_cost_event p
       then p\<lparr>bp_spent_usd := bp_spent_usd p + ce_cost_usd sample_cost_event\<rparr> else p)
         (dict_get (co_periods sample_cost_store) k)"
    using cost_record_charges [OF ok ne, of "[50, 80, 100]" "context_for_run ''t'' None None"] by auto
  have "dict_get (co_periods st') ''p'' = Some (sample_period 11)"
    using per by (simp add: sample_cost_store_def sample_cost_event_def sample_period_def period_matches_def)
  with run show ?thesis by blast
qed

text \<open>
  The constructor of the service does not check its thresholds. With one below 1 recording raises once
  a period reaches it, after the event is stored and the period is charged.
\<close>

lemma threshold_below_one_raises:
  "\<exists>st'. cost_record [0] (context_for_run ''t'' None None) sample_cost_event sample_cost_store =
       (Inl (CostValidationError ''ThresholdAlert''), st') \<and>
     dict_get (co_events st') ''e'' = Some sample_cost_event \<and> dict_get (co_periods st') ''p'' = Some (sample_period 11)"
  by (simp add: cost_record_def Let_def cost_save_event_def require_def bindE_def getE_def raiseE_def matching_periods_def
      list_periods_def period_matches_def evaluate_alerts_def effective_limit_usd_def save_period_def list_alerts_def alert_valid_def
      alert_of_def sample_cost_event_def sample_cost_store_def sample_period_def)

text \<open>
  The tenant cap is enforced exactly. \<open>check_cap\<close> raises if and only if the acting context
  sees the tenant and some enforced tenant-wide period of the current key has a cap that its
  spend together with the projected cost exceeds.
\<close>

theorem check_cap_iff:
  assumes "dict_ok (co_periods st)"
  shows "(\<exists>e. check_cap st ctx t kind now projected = Inl e) =
    (scopes ctx t \<and> (\<exists>k p cap. dict_get (co_periods st) k = Some p \<and> bp_tenant_id p = t \<and>
       bp_scope p = SCOPE_TENANT \<and> bp_enforced p \<and> bp_cap_usd p = Some cap \<and>
       bp_period_key p = period_key kind now \<and> bp_spent_usd p + projected > cap))"
proof -
  let ?P = "\<lambda>p. bp_scope p = SCOPE_TENANT \<and> bp_enforced p \<and>
      (case bp_cap_usd p of None \<Rightarrow> False
       | Some cap \<Rightarrow> bp_period_key p = period_key kind now \<and> bp_spent_usd p + projected > cap)"
  have "(\<exists>e. check_cap st ctx t kind now projected = Inl e) = (\<exists>p \<in> set (list_periods st ctx t). ?P p)"
    by (auto simp: check_cap_def Let_def find_None_iff find_Some_iff split: option.split)
  also have "\<dots> = (scopes ctx t \<and> (\<exists>k p. dict_get (co_periods st) k = Some p \<and> bp_tenant_id p = t \<and> ?P p))"
    using assms by (auto simp: list_periods_def dict_get_in_set) (metis snd_conv image_eqI)+
  also have "\<dots> = (scopes ctx t \<and> (\<exists>k p cap. dict_get (co_periods st) k = Some p \<and> bp_tenant_id p = t \<and>
       bp_scope p = SCOPE_TENANT \<and> bp_enforced p \<and> bp_cap_usd p = Some cap \<and>
       bp_period_key p = period_key kind now \<and> bp_spent_usd p + projected > cap))"
  proof -
    have "?P p = (\<exists>cap. bp_scope p = SCOPE_TENANT \<and> bp_enforced p \<and> bp_cap_usd p = Some cap \<and>
        bp_period_key p = period_key kind now \<and> bp_spent_usd p + projected > cap)" for p
      by (cases "bp_cap_usd p") auto
    then show ?thesis by blast
  qed
  finally show ?thesis .
qed

theorem check_cap_iff_witness:
  "\<exists>e. check_cap sample_cost_store SYSTEM_CONTEXT ''t'' PERIOD_DAY 0 5 = Inl e"
  using check_cap_iff [of sample_cost_store SYSTEM_CONTEXT "''t''" PERIOD_DAY 0 5]
  by (auto simp: sample_cost_store_def sample_period_def)

text \<open>
  A burn forecast is well formed: the overrun is never negative and the probability lies
  between 0 and 1; it is 1 when the limit is already spent, and at least one half exactly when
  the projection reaches the limit.
\<close>

theorem forecast_bounds:
  assumes "0 \<le> spent" "0 \<le> elapsed" "elapsed \<le> 1"
  shows "0 \<le> bf_projected_overrun_usd (forecast spent elapsed limit) \<and>
    spent \<le> bf_projected_usd (forecast spent elapsed limit) \<and>
    0 \<le> bf_overrun_probability (forecast spent elapsed limit) \<and>
    bf_overrun_probability (forecast spent elapsed limit) \<le> 1 \<and>
    (\<forall>l. limit = Some l \<and> 0 < l \<longrightarrow>
       (spent \<ge> l \<longrightarrow> bf_overrun_probability (forecast spent elapsed limit) = 1) \<and>
       (1 / 2 \<le> bf_overrun_probability (forecast spent elapsed limit)) = (l \<le> bf_projected_usd (forecast spent elapsed limit)))"
proof -
  define pr where "pr = (if elapsed \<le> 0 then spent else spent / elapsed)"
  have pr: "spent \<le> pr"
  proof (cases "elapsed \<le> 0")
    case False
    then have "spent * elapsed \<le> spent * 1" using assms by (intro mult_left_mono) auto
    then show ?thesis using False by (simp add: pr_def pos_le_divide_eq)
  qed (simp add: pr_def)
  have proj: "bf_projected_usd (forecast spent elapsed limit) = pr"
    by (simp add: forecast_def Let_def pr_def)
  have prob: "bf_overrun_probability (forecast spent elapsed limit) = (case limit of None \<Rightarrow> 0
      | Some l \<Rightarrow> (if l \<le> 0 then 0 else if spent \<ge> l then 1
          else if pr \<ge> l then min 1 (pr / l - 1 + 1 / 2) else max 0 (pr / l * (1 / 2))))"
    unfolding forecast_def Let_def pr_def [symmetric] by simp
  have "0 \<le> bf_projected_overrun_usd (forecast spent elapsed limit)"
    by (simp add: forecast_def Let_def split: option.split)
  then show ?thesis
    using assms pr unfolding proj prob
    by (auto simp: divide_simps min_def max_def split: option.split)
qed

theorem forecast_bounds_witness:
  "bf_overrun_probability (forecast 5 (1 / 2) (Some 4)) = 1 \<and> bf_overrun_probability (forecast 5 (1 / 2) (Some 4)) \<le> 1"
  using forecast_bounds [of 5 "1 / 2" "Some 4"] by simp

end
