(* ===== verification/Budget.thy ===== *)
theory Budget
  imports Core_Model Cost
begin

text \<open>
  Pricing and budget enforcement: the cost table (\<open>budget/pricing.py\<close>), the in-memory spend
  store (\<open>budget/store.py\<close>), the budget service (\<open>budget/service.py\<close>) with its optional cost
  service and estimator, and the spend summary (\<open>budget/summary.py\<close>). Metrics are left out. The
  clock readings are arguments: \<open>today\<close> for the day of the totals and \<open>cap_at kind\<close> for each
  cap check; \<open>uid\<close> is the random part of a cost event's id.
\<close>

section \<open>Pricing\<close>

record model_price =
  mp_input_per_1k :: usd
  mp_output_per_1k :: usd

definition DEFAULT_PRICES :: "(string, model_price) dict" where
  "DEFAULT_PRICES =
     [(''openai/gpt-4o/2024-08-06'', \<lparr>mp_input_per_1k = 5 / 1000, mp_output_per_1k = 15 / 1000\<rparr>),
      (''openai/gpt-4o-mini/2024-07-18'', \<lparr>mp_input_per_1k = 15 / 100000, mp_output_per_1k = 6 / 10000\<rparr>),
      (''anthropic/claude-3-5-sonnet/20241022'', \<lparr>mp_input_per_1k = 3 / 1000, mp_output_per_1k = 15 / 1000\<rparr>)]"

definition ZERO_COST_PREFIXES :: "string list" where
  "ZERO_COST_PREFIXES = [''local/'', ''fake/'', ''omlx/'']"

record cost_table =
  ct_prices :: "(string, model_price) dict"
  ct_zero_cost_prefixes :: "string list"

definition make_cost_table :: "(string, model_price) dict option \<Rightarrow> string list \<Rightarrow> cost_table" where
  "make_cost_table prices prefixes =
     \<lparr>ct_prices = (case prices of None \<Rightarrow> DEFAULT_PRICES
        | Some ps \<Rightarrow> fold (\<lambda>(k, v). dict_put k v) ps DEFAULT_PRICES),
      ct_zero_cost_prefixes = prefixes\<rparr>"

definition starts_with :: "string \<Rightarrow> string \<Rightarrow> bool" where
  "starts_with s pre = (take (length pre) s = pre)"

datatype budget_error =
    UnknownModelPriceError string
  | MissingModelIdentityError
  | BudgetScopeError tenancy_error
  | BudgetValidationError string
  | BudgetCostError cost_error

definition price :: "cost_table \<Rightarrow> string \<Rightarrow> int \<Rightarrow> int \<Rightarrow> budget_error + usd" where
  "price table model_identity input_tokens output_tokens =
     (if list_ex (starts_with model_identity) (ct_zero_cost_prefixes table) then Inr 0
      else (case dict_get (ct_prices table) model_identity of
          None \<Rightarrow> Inl (UnknownModelPriceError model_identity)
        | Some p \<Rightarrow> Inr (of_int input_tokens / 1000 * mp_input_per_1k p +
            of_int output_tokens / 1000 * mp_output_per_1k p)))"

section \<open>The spend store\<close>

record cost_attribution =
  cn_run_id :: string
  cn_workload :: string
  cn_team :: "string option"
  cn_model_identity :: "string option"
  cn_input_tokens :: int
  cn_output_tokens :: int
  cn_tool_calls :: int
  cn_cost_usd :: usd
  cn_timestamp :: time
  cn_tenant_id :: string
  cn_attribution_key :: "string option"

record budget_state =
  bu_run_spend :: "(string \<times> string, usd) dict"
  bu_day_spend :: "(string \<times> string \<times> string, usd) dict"
  bu_team_spend :: "(string \<times> string \<times> string, usd) dict"
  bu_attributions :: "cost_attribution list"
  bu_cost :: "cost_store option"
  bu_history :: "cost_history option"

definition add_run_spend :: "tenant_context \<Rightarrow> string \<Rightarrow> usd \<Rightarrow> budget_state \<Rightarrow> budget_state" where
  "add_run_spend ctx run_id amount st =
     (let key = (tc_tenant_id ctx, run_id) in
      st\<lparr>bu_run_spend := dict_put key (dict_get_default (bu_run_spend st) key 0 + amount) (bu_run_spend st)\<rparr>)"

definition run_spend :: "budget_state \<Rightarrow> tenant_context \<Rightarrow> string \<Rightarrow> usd" where
  "run_spend st ctx run_id = dict_get_default (bu_run_spend st) (tc_tenant_id ctx, run_id) 0"

definition add_day_spend :: "tenant_context \<Rightarrow> string \<Rightarrow> string \<Rightarrow> usd \<Rightarrow> budget_state \<Rightarrow> budget_state" where
  "add_day_spend ctx workload day amount st =
     (let key = (tc_tenant_id ctx, workload, day) in
      st\<lparr>bu_day_spend := dict_put key (dict_get_default (bu_day_spend st) key 0 + amount) (bu_day_spend st)\<rparr>)"

definition day_spend :: "budget_state \<Rightarrow> tenant_context \<Rightarrow> string \<Rightarrow> string \<Rightarrow> usd" where
  "day_spend st ctx workload day = dict_get_default (bu_day_spend st) (tc_tenant_id ctx, workload, day) 0"

definition add_team_spend :: "tenant_context \<Rightarrow> string \<Rightarrow> string \<Rightarrow> usd \<Rightarrow> budget_state \<Rightarrow> budget_state" where
  "add_team_spend ctx team_name day amount st =
     (let key = (tc_tenant_id ctx, team_name, day) in
      st\<lparr>bu_team_spend := dict_put key (dict_get_default (bu_team_spend st) key 0 + amount) (bu_team_spend st)\<rparr>)"

definition team_spend :: "budget_state \<Rightarrow> tenant_context \<Rightarrow> string \<Rightarrow> string \<Rightarrow> usd" where
  "team_spend st ctx team_name day = dict_get_default (bu_team_spend st) (tc_tenant_id ctx, team_name, day) 0"

definition record_attribution ::
  "tenant_context \<Rightarrow> cost_attribution \<Rightarrow> budget_state \<Rightarrow> budget_error + budget_state" where
  "record_attribution ctx r st = (case require ctx (cn_tenant_id r) of
       Inl e \<Rightarrow> Inl (BudgetScopeError e)
     | Inr _ \<Rightarrow> Inr (st\<lparr>bu_attributions := bu_attributions st @ [r]\<rparr>))"

definition list_attributions :: "budget_state \<Rightarrow> tenant_context \<Rightarrow> string option \<Rightarrow> cost_attribution list" where
  "list_attributions st ctx workload =
     filter (\<lambda>r. scopes ctx (cn_tenant_id r) \<and>
       (case workload of None \<Rightarrow> True | Some w \<Rightarrow> cn_workload r = w)) (bu_attributions st)"

section \<open>The budget service\<close>

definition exceeded :: "budget_level \<Rightarrow> usd \<Rightarrow> budget_check" where
  "exceeded level limit =
     \<lparr>bc_allowed = False, bc_level = level, bc_limit_usd = limit, bc_spent_usd = limit,
      bc_remaining_usd = 0, bc_reason = Some (budget_level_value level @ '' budget exceeded'')\<rparr>"

text \<open>The estimator has its default of five samples for a confident estimate, which the p90 ignores.\<close>

definition projected_usd :: "budget_state \<Rightarrow> agent_workload \<Rightarrow> usd" where
  "projected_usd st workload = (case bu_history st of
       None \<Rightarrow> 0
     | Some h \<Rightarrow> es_p90_usd (estimate 5 h (workload_name workload) ''default''))"

text \<open>The loop over the period kinds; only a spend-cap error is caught, and it is the only one raised.\<close>

fun tenant_cap_kinds ::
  "cost_store \<Rightarrow> tenant_context \<Rightarrow> (cost_period_kind \<Rightarrow> time) \<Rightarrow> usd \<Rightarrow> cost_period_kind list \<Rightarrow> budget_check option" where
  "tenant_cap_kinds cst ctx cap_at projected [] = None"
| "tenant_cap_kinds cst ctx cap_at projected (kind # kinds) =
     (case check_cap cst ctx (tc_tenant_id ctx) kind (cap_at kind) projected of
        Inl (SpendCapExceededError _ cap spent) \<Rightarrow>
          Some \<lparr>bc_allowed = False, bc_level = LEVEL_DAY, bc_limit_usd = cap, bc_spent_usd = spent,
            bc_remaining_usd = 0, bc_reason = Some ''tenant spend cap exceeded''\<rparr>
      | _ \<Rightarrow> tenant_cap_kinds cst ctx cap_at projected kinds)"

definition tenant_cap ::
  "budget_state \<Rightarrow> tenant_context \<Rightarrow> (cost_period_kind \<Rightarrow> time) \<Rightarrow> usd \<Rightarrow> budget_check option" where
  "tenant_cap st ctx cap_at projected = (case bu_cost st of
       None \<Rightarrow> None
     | Some cst \<Rightarrow> tenant_cap_kinds cst ctx cap_at projected cost_period_kinds)"

definition budget_check_run ::
  "budget_state \<Rightarrow> tenant_context \<Rightarrow> agent_workload \<Rightarrow> time \<Rightarrow> (cost_period_kind \<Rightarrow> time) \<Rightarrow> budget_check" where
  "budget_check_run st ctx workload today cap_at =
     (let budget = ws_budget (aw_spec workload);
          day = date_isoformat (date_of today);
          day_limit = bs_per_day_usd budget;
          day_spent = day_spend st ctx (workload_name workload) day;
          rest = (case tenant_cap st ctx cap_at (projected_usd st workload) of
              Some cap \<Rightarrow> cap
            | None \<Rightarrow> \<lparr>bc_allowed = True, bc_level = LEVEL_RUN, bc_limit_usd = bs_per_run_usd budget,
                bc_spent_usd = 0, bc_remaining_usd = bs_per_run_usd budget, bc_reason = None\<rparr>)
      in if day_spent \<ge> day_limit then
           \<lparr>bc_allowed = False, bc_level = LEVEL_DAY, bc_limit_usd = day_limit, bc_spent_usd = day_spent,
            bc_remaining_usd = 0,
            bc_reason = Some (''day budget exhausted for '' @ py_repr (workload_name workload))\<rparr>
         else (case (bs_per_team_usd budget, workload_team workload) of
             (Some team_limit, Some team_name) \<Rightarrow>
               (let team_spent = team_spend st ctx team_name day in
                if team_spent \<ge> team_limit then
                  \<lparr>bc_allowed = False, bc_level = LEVEL_TEAM, bc_limit_usd = team_limit,
                   bc_spent_usd = team_spent, bc_remaining_usd = 0,
                   bc_reason = Some (''team budget exhausted for '' @ py_repr team_name)\<rparr>
                else rest)
           | _ \<Rightarrow> rest))"

text \<open>The check after the spend has been added.\<close>

definition usage_check ::
  "budget_state \<Rightarrow> tenant_context \<Rightarrow> agent_workload \<Rightarrow> string \<Rightarrow> string \<Rightarrow> (cost_period_kind \<Rightarrow> time) \<Rightarrow> budget_check" where
  "usage_check st ctx workload run_id day cap_at =
     (let budget = ws_budget (aw_spec workload);
          run_spent = run_spend st ctx run_id;
          rest = (case tenant_cap st ctx cap_at 0 of
              Some cap \<Rightarrow> cap
            | None \<Rightarrow> \<lparr>bc_allowed = True, bc_level = LEVEL_RUN, bc_limit_usd = bs_per_run_usd budget,
                bc_spent_usd = run_spent, bc_remaining_usd = max 0 (bs_per_run_usd budget - run_spent),
                bc_reason = None\<rparr>)
      in if run_spent > bs_per_run_usd budget then exceeded LEVEL_RUN (bs_per_run_usd budget)
         else if day_spend st ctx (workload_name workload) day > bs_per_day_usd budget
           then exceeded LEVEL_DAY (bs_per_day_usd budget)
         else (case (bs_per_team_usd budget, workload_team workload) of
             (Some team_limit, Some team_name) \<Rightarrow>
               (if team_spend st ctx team_name day > team_limit then exceeded LEVEL_TEAM team_limit else rest)
           | _ \<Rightarrow> rest))"

definition attribution_of :: "tenant_context \<Rightarrow> agent_workload \<Rightarrow> usage_report \<Rightarrow> usd \<Rightarrow> cost_attribution" where
  "attribution_of ctx workload report cost =
     \<lparr>cn_run_id = ur_run_id report, cn_workload = workload_name workload, cn_team = workload_team workload,
      cn_model_identity = ur_model_identity report, cn_input_tokens = ur_input_tokens report,
      cn_output_tokens = ur_output_tokens report, cn_tool_calls = ur_tool_calls report,
      cn_cost_usd = cost, cn_timestamp = ur_timestamp report, cn_tenant_id = tc_tenant_id ctx,
      cn_attribution_key = tc_attribution_key ctx\<rparr>"

definition cost_event_of ::
  "tenant_context \<Rightarrow> agent_workload \<Rightarrow> usage_report \<Rightarrow> string \<Rightarrow> usd \<Rightarrow> cost_event" where
  "cost_event_of ctx workload report uid cost =
     \<lparr>ce_event_id = ''budget-'' @ ur_run_id report @ ''-'' @ uid, ce_tenant_id = tc_tenant_id ctx,
      ce_team_id = str_or (workload_team workload) (str_or (tc_team_id ctx) ''default''),
      ce_workload_id = workload_name workload, ce_run_id = Some (ur_run_id report),
      ce_pipeline_run_id = None, ce_cost_type = COST_LLM, ce_model = ur_model_identity report,
      ce_cost_usd = cost, ce_saved_usd = 0, ce_completed = False, ce_retry = False,
      ce_escalation = False, ce_occurred_at = ur_timestamp report\<rparr>"

text \<open>
  The field constraints that constructing the two models checks. They are checked where the
  code constructs them: the attribution after the totals are added, the cost event after the
  attribution is stored.
\<close>

definition attribution_valid :: "cost_attribution \<Rightarrow> bool" where
  "attribution_valid r =
     (cn_run_id r \<noteq> [] \<and> cn_workload r \<noteq> [] \<and> 0 \<le> cn_input_tokens r \<and> 0 \<le> cn_output_tokens r \<and>
      0 \<le> cn_tool_calls r \<and> 0 \<le> cn_cost_usd r \<and> cn_tenant_id r \<noteq> [] \<and> length (cn_tenant_id r) \<le> 64)"

definition cost_event_valid :: "cost_event \<Rightarrow> bool" where
  "cost_event_valid e =
     (ce_event_id e \<noteq> [] \<and> length (ce_event_id e) \<le> 128 \<and> length (ce_tenant_id e) \<le> 64 \<and>
      ce_team_id e \<noteq> [] \<and> length (ce_team_id e) \<le> 64 \<and> length (ce_workload_id e) \<le> 253 \<and>
      (case ce_run_id e of None \<Rightarrow> True | Some r \<Rightarrow> length r \<le> 64) \<and>
      (case ce_pipeline_run_id e of None \<Rightarrow> True | Some r \<Rightarrow> length r \<le> 64) \<and>
      (case ce_model e of None \<Rightarrow> True | Some m \<Rightarrow> length m \<le> 253) \<and>
      0 \<le> ce_cost_usd e \<and> 0 \<le> ce_saved_usd e)"

definition add_spend ::
  "tenant_context \<Rightarrow> agent_workload \<Rightarrow> string \<Rightarrow> string \<Rightarrow> usd \<Rightarrow> budget_state \<Rightarrow> budget_state" where
  "add_spend ctx workload run_id day cost st =
     (let st1 = add_day_spend ctx (workload_name workload) day cost (add_run_spend ctx run_id cost st)
      in case workload_team workload of
           None \<Rightarrow> st1
         | Some team_name \<Rightarrow> add_team_spend ctx team_name day cost st1)"

text \<open>The call on the optional cost service.\<close>

definition meter :: "int list \<Rightarrow> tenant_context \<Rightarrow> cost_event \<Rightarrow> (budget_state, budget_error, unit) exec" where
  "meter thresholds ctx event st = (case bu_cost st of
       None \<Rightarrow> (Inr (), st)
     | Some cst \<Rightarrow> if \<not> cost_event_valid event then (Inl (BudgetValidationError ''CostEvent''), st)
         else (case cost_record thresholds ctx event cst of
           (Inl e, cst') \<Rightarrow> (Inl (BudgetCostError e), st\<lparr>bu_cost := Some cst'\<rparr>)
         | (Inr _, cst') \<Rightarrow> (Inr (), st\<lparr>bu_cost := Some cst'\<rparr>)))"

definition budget_record_usage ::
  "cost_table \<Rightarrow> int list \<Rightarrow> tenant_context \<Rightarrow> agent_workload \<Rightarrow> usage_report \<Rightarrow> time \<Rightarrow>
   (cost_period_kind \<Rightarrow> time) \<Rightarrow> string \<Rightarrow> (budget_state, budget_error, budget_outcome) exec" where
  "budget_record_usage table thresholds ctx workload report today cap_at uid =
     (case ur_model_identity report of
        None \<Rightarrow> raiseE MissingModelIdentityError
      | Some model_identity \<Rightarrow>
          bindE (liftE (price table model_identity (ur_input_tokens report) (ur_output_tokens report))) (\<lambda>cost.
          let day = date_isoformat (date_of today) in
          thenE (modifyE (add_spend ctx workload (ur_run_id report) day cost)) (
          thenE (\<lambda>st. if \<not> attribution_valid (attribution_of ctx workload report cost)
                 then (Inl (BudgetValidationError ''CostAttribution''), st)
                 else (case record_attribution ctx (attribution_of ctx workload report cost) st of
                   Inl e \<Rightarrow> (Inl e, st) | Inr st' \<Rightarrow> (Inr (), st'))) (
          thenE (meter thresholds ctx (cost_event_of ctx workload report uid cost)) (
          getE (\<lambda>st. \<lparr>bo_check = usage_check st ctx workload (ur_run_id report) day cap_at,
                      bo_cost_usd = cost\<rparr>))))))"

record budget_snapshot =
  sn_workload :: string
  sn_team :: "string option"
  sn_day :: string
  sn_run_usd :: usd
  sn_day_usd :: usd
  sn_team_usd :: usd

definition budget_snapshot_of ::
  "budget_state \<Rightarrow> tenant_context \<Rightarrow> agent_workload \<Rightarrow> string \<Rightarrow> time \<Rightarrow> budget_snapshot" where
  "budget_snapshot_of st ctx workload run_id today =
     (let day = date_isoformat (date_of today) in
      \<lparr>sn_workload = workload_name workload, sn_team = workload_team workload, sn_day = day,
       sn_run_usd = run_spend st ctx run_id,
       sn_day_usd = day_spend st ctx (workload_name workload) day,
       sn_team_usd = (case workload_team workload of None \<Rightarrow> 0 | Some t \<Rightarrow> team_spend st ctx t day)\<rparr>)"

section \<open>The spend summary\<close>

record spend_by_workload =
  sw_workload :: string
  sw_team :: "string option"
  sw_total_usd :: usd
  sw_run_count :: nat

record spend_by_team =
  st_team :: string
  st_total_usd :: usd
  st_run_count :: nat

record spend_summary =
  su_by_workload :: "spend_by_workload list"
  su_by_team :: "spend_by_team list"

record summary_state =
  wk_totals :: "(string, usd) dict"
  wk_runs :: "(string, string list) dict"
  wk_teams :: "(string, string option) dict"
  tm_totals :: "(string, usd) dict"
  tm_runs :: "(string, string list) dict"

text \<open>One iteration of the loop; a set of run ids is kept as a list without duplicates.\<close>

definition summary_step :: "cost_attribution \<Rightarrow> summary_state \<Rightarrow> summary_state" where
  "summary_step r s =
     (let w = cn_workload r;
          s1 = s\<lparr>wk_totals := dict_put w (dict_get_default (wk_totals s) w 0 + cn_cost_usd r) (wk_totals s),
                 wk_runs := dict_put w (List.insert (cn_run_id r) (dict_get_default (wk_runs s) w [])) (wk_runs s),
                 wk_teams := (case dict_get (wk_teams s) w of
                     Some (Some t) \<Rightarrow> wk_teams s
                   | _ \<Rightarrow> dict_put w (cn_team r) (wk_teams s))\<rparr>
      in case cn_team r of
           None \<Rightarrow> s1
         | Some t \<Rightarrow> s1\<lparr>tm_totals := dict_put t (dict_get_default (tm_totals s) t 0 + cn_cost_usd r) (tm_totals s),
               tm_runs := dict_put t (List.insert (cn_run_id r) (dict_get_default (tm_runs s) t [])) (tm_runs s)\<rparr>)"

definition summarize_spend :: "cost_attribution list \<Rightarrow> spend_summary" where
  "summarize_spend attributions =
     (let s = fold summary_step attributions
            \<lparr>wk_totals = [], wk_runs = [], wk_teams = [], tm_totals = [], tm_runs = []\<rparr>
      in \<lparr>su_by_workload = sort_key (\<lambda>row. (- sw_total_usd row, sw_workload row))
            (map (\<lambda>(name, total). \<lparr>sw_workload = name, sw_team = dict_get_default (wk_teams s) name None,
               sw_total_usd = total, sw_run_count = length (dict_get_default (wk_runs s) name [])\<rparr>) (wk_totals s)),
          su_by_team = sort_key (\<lambda>row. (- st_total_usd row, st_team row))
            (map (\<lambda>(t, total). \<lparr>st_team = t, st_total_usd = total,
               st_run_count = length (dict_get_default (tm_runs s) t [])\<rparr>) (tm_totals s))\<rparr>)"

section \<open>Lemmas\<close>

lemmas spend_defs = add_run_spend_def add_day_spend_def add_team_spend_def
  run_spend_def day_spend_def team_spend_def

lemma add_spend_run: "dict_get_default (bu_run_spend (add_spend ctx w r day c st)) k 0 =
    dict_get_default (bu_run_spend st) k 0 + (if k = (tc_tenant_id ctx, r) then c else 0)"
  by (simp add: add_spend_def spend_defs Let_def split: option.split)

lemma add_spend_day: "dict_get_default (bu_day_spend (add_spend ctx w r day c st)) k 0 =
    dict_get_default (bu_day_spend st) k 0 + (if k = (tc_tenant_id ctx, workload_name w, day) then c else 0)"
  by (simp add: add_spend_def spend_defs Let_def split: option.split)

lemma add_spend_team: "dict_get_default (bu_team_spend (add_spend ctx w r day c st)) k 0 =
    dict_get_default (bu_team_spend st) k 0 +
      (if \<exists>t. workload_team w = Some t \<and> k = (tc_tenant_id ctx, t, day) then c else 0)"
  by (simp add: add_spend_def spend_defs Let_def split: option.split)

lemma add_spend_other [simp]:
  "bu_attributions (add_spend ctx w r day c st) = bu_attributions st"
  "bu_cost (add_spend ctx w r day c st) = bu_cost st"
  "bu_history (add_spend ctx w r day c st) = bu_history st"
  by (simp_all add: add_spend_def spend_defs Let_def split: option.split)

lemma record_attribution_own [simp]:
  "record_attribution ctx (attribution_of ctx w u c) st =
     Inr (st\<lparr>bu_attributions := bu_attributions st @ [attribution_of ctx w u c]\<rparr>)"
  by (simp add: record_attribution_def attribution_of_def require_def scopes_def)

text \<open>The state in which the cost service is called.\<close>

abbreviation metered :: "tenant_context \<Rightarrow> agent_workload \<Rightarrow> usage_report \<Rightarrow> time \<Rightarrow> usd \<Rightarrow> budget_state \<Rightarrow> budget_state" where
  "metered ctx w u today c st \<equiv>
     (add_spend ctx w (ur_run_id u) (date_isoformat (date_of today)) c st)
       \<lparr>bu_attributions := bu_attributions st @ [attribution_of ctx w u c]\<rparr>"

lemma record_usage_eq:
  assumes "ur_model_identity u = Some m" "price table m (ur_input_tokens u) (ur_output_tokens u) = Inr c"
    "attribution_valid (attribution_of ctx w u c)"
  shows "budget_record_usage table ths ctx w u today cap_at uid st =
    (case meter ths ctx (cost_event_of ctx w u uid c) (metered ctx w u today c st) of
       (Inl e, st') \<Rightarrow> (Inl e, st')
     | (Inr _, st') \<Rightarrow> (Inr \<lparr>bo_check = usage_check st' ctx w (ur_run_id u) (date_isoformat (date_of today)) cap_at,
         bo_cost_usd = c\<rparr>, st'))"
  using assms by (simp add: budget_record_usage_def bindE_def thenE_def liftE_def modifyE_def getE_def Let_def
      split: prod.split sum.split)

lemma meter_other:
  assumes "meter ths ctx e st = (r, st')"
  shows "bu_run_spend st' = bu_run_spend st" "bu_day_spend st' = bu_day_spend st"
    "bu_team_spend st' = bu_team_spend st" "bu_attributions st' = bu_attributions st"
    "bu_history st' = bu_history st"
  using assms by (auto simp: meter_def split: option.splits prod.splits sum.splits if_splits)

lemma usage_check_limits:
  assumes "bc_allowed (usage_check st ctx w r d cap_at)"
  shows "run_spend st ctx r \<le> bs_per_run_usd (ws_budget (aw_spec w))"
    "day_spend st ctx (workload_name w) d \<le> bs_per_day_usd (ws_budget (aw_spec w))"
    "workload_team w = Some t \<Longrightarrow> bs_per_team_usd (ws_budget (aw_spec w)) = Some l \<Longrightarrow> team_spend st ctx t d \<le> l"
  using assms unfolding usage_check_def Let_def exceeded_def
  by (simp_all add: not_less [symmetric] split: if_split_asm)

text \<open>The spend the attributions of a run add up to, and the agreement of the totals with it.\<close>

definition attributed_spend :: "budget_state \<Rightarrow> string \<Rightarrow> string \<Rightarrow> usd" where
  "attributed_spend st tenant_id run_id = sum_list (map cn_cost_usd
     (filter (\<lambda>a. cn_tenant_id a = tenant_id \<and> cn_run_id a = run_id) (bu_attributions st)))"

definition run_ledger :: "budget_state \<Rightarrow> bool" where
  "run_ledger st = (\<forall>t r. dict_get_default (bu_run_spend st) (t, r) 0 = attributed_spend st t r)"

lemma run_ledger_metered:
  assumes "run_ledger st"
  shows "run_ledger (metered ctx w u today c st)"
  using assms by (auto simp: run_ledger_def attributed_spend_def add_spend_run attribution_of_def)

lemma run_ledger_cong:
  "bu_run_spend st' = bu_run_spend st \<Longrightarrow> bu_attributions st' = bu_attributions st \<Longrightarrow> run_ledger st' = run_ledger st"
  by (simp add: run_ledger_def attributed_spend_def)

lemma sum_dict_put:
  "sum_list (map snd (dict_put k (dict_get_default d k 0 + c) d)) = sum_list (map snd d) + (c :: usd)"
  by (induction d) (auto simp: dict_get_default_def algebra_simps split: option.split)

lemma sum_summary_fold:
  "sum_list (map snd (wk_totals (fold summary_step as s))) = sum_list (map snd (wk_totals s)) + sum_list (map cn_cost_usd as)"
  "sum_list (map snd (tm_totals (fold summary_step as s))) = sum_list (map snd (tm_totals s)) +
     sum_list (map cn_cost_usd (filter (\<lambda>a. cn_team a \<noteq> None) as))"
  by (induction as arbitrary: s)
    (simp_all add: summary_step_def Let_def sum_dict_put split: option.split)

lemma sum_insort_key: "sum_list (map f (insort_key g x xs)) = f x + sum_list (map (f :: _ \<Rightarrow> usd) xs)"
  by (induction xs) simp_all

lemma sum_sort_key: "sum_list (map f (sort_key g xs)) = sum_list (map (f :: _ \<Rightarrow> usd) xs)"
  by (induction xs) (simp_all add: sum_insort_key)

section \<open>Properties\<close>

text \<open>An empty state for the concrete instances.\<close>

definition empty_budget_state :: budget_state where
  "empty_budget_state = \<lparr>bu_run_spend = [], bu_day_spend = [], bu_team_spend = [], bu_attributions = [],
     bu_cost = None, bu_history = None\<rparr>"

text \<open>
  A usage report that cannot be priced, because it names no model or a model without a price,
  is rejected and leaves every total, attribution and cost record as it was.
\<close>

theorem unpriced_usage_rejected:
  assumes "\<And>m. ur_model_identity u = Some m \<Longrightarrow>
    \<not> list_ex (starts_with m) (ct_zero_cost_prefixes table) \<and> dict_get (ct_prices table) m = None"
  shows "\<exists>e. budget_record_usage table ths ctx w u today cap_at uid st = (Inl e, st)"
  using assms by (cases "ur_model_identity u")
    (auto simp: budget_record_usage_def price_def bindE_def liftE_def raiseE_def)

theorem unpriced_usage_rejected_witness:
  "\<exists>e. budget_record_usage (make_cost_table None ZERO_COST_PREFIXES) [] DEFAULT_CONTEXT
     (sample_workload ''w'' None \<lparr>bs_per_run_usd = 1, bs_per_day_usd = 2, bs_per_team_usd = None\<rparr>)
     (sample_usage ''acme/x/1'') 0 (\<lambda>_. 0) ''u'' empty_budget_state = (Inl e, empty_budget_state)"
  by (rule unpriced_usage_rejected)
    (auto simp: sample_usage_def make_cost_table_def ZERO_COST_PREFIXES_def starts_with_def DEFAULT_PRICES_def)

text \<open>
  C8: a successful \<open>record_usage\<close> charges the price of the report exactly once. The totals of the
  run, of the workload's day and of the team's day grow by it, every other total of every tenant is
  unchanged, one attribution of that cost is appended, and the outcome allows the run to go on only
  if the run, day and team totals are within their limits.
\<close>

theorem record_usage_charges:
  assumes "budget_record_usage table ths ctx w u today cap_at uid st = (Inr out, st')"
  shows "\<exists>m c. ur_model_identity u = Some m \<and> price table m (ur_input_tokens u) (ur_output_tokens u) = Inr c \<and>
    bo_cost_usd out = c \<and>
    (\<forall>k. dict_get_default (bu_run_spend st') k 0 = dict_get_default (bu_run_spend st) k 0 +
       (if k = (tc_tenant_id ctx, ur_run_id u) then c else 0)) \<and>
    (\<forall>k. dict_get_default (bu_day_spend st') k 0 = dict_get_default (bu_day_spend st) k 0 +
       (if k = (tc_tenant_id ctx, workload_name w, date_isoformat (date_of today)) then c else 0)) \<and>
    (\<forall>k. dict_get_default (bu_team_spend st') k 0 = dict_get_default (bu_team_spend st) k 0 +
       (if \<exists>t. workload_team w = Some t \<and> k = (tc_tenant_id ctx, t, date_isoformat (date_of today)) then c else 0)) \<and>
    bu_attributions st' = bu_attributions st @ [attribution_of ctx w u c] \<and>
    (bc_allowed (bo_check out) \<longrightarrow>
       run_spend st' ctx (ur_run_id u) \<le> bs_per_run_usd (ws_budget (aw_spec w)) \<and>
       day_spend st' ctx (workload_name w) (date_isoformat (date_of today)) \<le> bs_per_day_usd (ws_budget (aw_spec w)) \<and>
       (\<forall>t l. workload_team w = Some t \<and> bs_per_team_usd (ws_budget (aw_spec w)) = Some l \<longrightarrow>
          team_spend st' ctx t (date_isoformat (date_of today)) \<le> l))"
proof -
  obtain m where m: "ur_model_identity u = Some m"
    using assms by (cases "ur_model_identity u") (auto simp: budget_record_usage_def raiseE_def)
  obtain c where c: "price table m (ur_input_tokens u) (ur_output_tokens u) = Inr c"
    using assms m by (cases "price table m (ur_input_tokens u) (ur_output_tokens u)")
      (auto simp: budget_record_usage_def bindE_def liftE_def)
  have v: "attribution_valid (attribution_of ctx w u c)"
    using assms m c by (auto simp: budget_record_usage_def bindE_def thenE_def liftE_def modifyE_def Let_def split: if_splits)
  let ?m = "meter ths ctx (cost_event_of ctx w u uid c) (metered ctx w u today c st)"
  obtain r st1 where mt: "?m = (r, st1)" by (cases ?m)
  note run = assms [unfolded record_usage_eq [OF m c v] mt prod.case]
  have out: "out = \<lparr>bo_check = usage_check st1 ctx w (ur_run_id u) (date_isoformat (date_of today)) cap_at, bo_cost_usd = c\<rparr>"
    and st': "st1 = st'"
    using run by (cases r; simp)+
  note fr = meter_other [OF mt, unfolded st']
  show ?thesis
    unfolding out st'
    by (intro exI [of _ m] exI [of _ c] conjI allI impI)
      (use m c usage_check_limits in \<open>simp_all add: fr add_spend_run add_spend_day add_spend_team\<close>)
qed

theorem record_usage_charges_witness:
  "\<exists>out st'. budget_record_usage (make_cost_table None ZERO_COST_PREFIXES) [] DEFAULT_CONTEXT
     (sample_workload ''w'' None \<lparr>bs_per_run_usd = 1, bs_per_day_usd = 2, bs_per_team_usd = None\<rparr>)
     (sample_usage ''openai/gpt-4o/2024-08-06'') 0 (\<lambda>_. 0) ''u'' empty_budget_state = (Inr out, st') \<and>
   dict_get_default (bu_run_spend st') (''default'', ''r'') 0 = 1 / 50"
proof -
  let ?w = "sample_workload ''w'' None \<lparr>bs_per_run_usd = 1, bs_per_day_usd = 2, bs_per_team_usd = None\<rparr>"
  let ?u = "sample_usage ''openai/gpt-4o/2024-08-06''"
  let ?table = "make_cost_table None ZERO_COST_PREFIXES"
  have m: "ur_model_identity ?u = Some ''openai/gpt-4o/2024-08-06''" by (simp add: sample_usage_def)
  have p: "price ?table ''openai/gpt-4o/2024-08-06'' (ur_input_tokens ?u) (ur_output_tokens ?u) = Inr (1 / 50)"
    by (simp add: sample_usage_def price_def make_cost_table_def ZERO_COST_PREFIXES_def starts_with_def DEFAULT_PRICES_def)
  have v: "attribution_valid (attribution_of DEFAULT_CONTEXT ?w ?u (1 / 50))"
    by (simp add: attribution_valid_def attribution_of_def sample_usage_def sample_workload_def workload_name_def
        DEFAULT_CONTEXT_def DEFAULT_TENANT_ID_def)
  obtain out st' where run: "budget_record_usage ?table [] DEFAULT_CONTEXT ?w ?u 0 (\<lambda>_. 0) ''u'' empty_budget_state = (Inr out, st')"
    using record_usage_eq [OF m p v, of "[]" 0 "\<lambda>_. 0" "''u''" empty_budget_state]
    by (simp add: meter_def empty_budget_state_def)
  obtain m' c where "ur_model_identity ?u = Some m'" "price ?table m' (ur_input_tokens ?u) (ur_output_tokens ?u) = Inr c"
      and k: "\<forall>k. dict_get_default (bu_run_spend st') k 0 = dict_get_default (bu_run_spend empty_budget_state) k 0 +
        (if k = (tc_tenant_id DEFAULT_CONTEXT, ur_run_id ?u) then c else 0)"
    using record_usage_charges [OF run] by blast
  with m p have "c = 1 / 50" by simp
  with k run show ?thesis
    by (simp add: empty_budget_state_def dict_get_default_def DEFAULT_CONTEXT_def DEFAULT_TENANT_ID_def sample_usage_def)
qed

text \<open>
  A team name longer than 64 characters, which the workload model accepts, makes a metered
  \<open>record_usage\<close> raise a validation error after the spend and the attribution were stored.
\<close>

theorem long_team_partial_charge:
  assumes "ur_model_identity u = Some m" "price table m (ur_input_tokens u) (ur_output_tokens u) = Inr c"
    "attribution_valid (attribution_of ctx w u c)" "workload_team w = Some t" "64 < length t"
    "bu_cost st = Some cst"
  shows "\<exists>st'. budget_record_usage table ths ctx w u today cap_at uid st =
      (Inl (BudgetValidationError ''CostEvent''), st') \<and>
    run_spend st' ctx (ur_run_id u) = run_spend st ctx (ur_run_id u) + c \<and>
    bu_attributions st' = bu_attributions st @ [attribution_of ctx w u c] \<and> bu_cost st' = bu_cost st"
proof -
  have "\<not> cost_event_valid (cost_event_of ctx w u uid c)"
    using assms(4,5) by (auto simp: cost_event_valid_def cost_event_of_def str_or_def)
  then show ?thesis
    using assms(6) add_spend_run by (simp add: record_usage_eq [OF assms(1-3)] meter_def run_spend_def)
qed

theorem long_team_partial_charge_witness:
  "\<exists>st'. budget_record_usage (make_cost_table None ZERO_COST_PREFIXES) [] DEFAULT_CONTEXT
     (sample_workload ''w'' (Some (replicate 65 CHR ''t'')) \<lparr>bs_per_run_usd = 1, bs_per_day_usd = 2, bs_per_team_usd = None\<rparr>)
     (sample_usage ''openai/gpt-4o/2024-08-06'') 0 (\<lambda>_. 0) ''u''
     (empty_budget_state\<lparr>bu_cost := Some sample_cost_store\<rparr>) = (Inl (BudgetValidationError ''CostEvent''), st') \<and>
   run_spend st' DEFAULT_CONTEXT ''r'' = 1 / 50"
proof -
  let ?w = "sample_workload ''w'' (Some (replicate 65 CHR ''t'')) \<lparr>bs_per_run_usd = 1, bs_per_day_usd = 2, bs_per_team_usd = None\<rparr>"
  let ?u = "sample_usage ''openai/gpt-4o/2024-08-06''"
  let ?table = "make_cost_table None ZERO_COST_PREFIXES"
  have m: "ur_model_identity ?u = Some ''openai/gpt-4o/2024-08-06''" by (simp add: sample_usage_def)
  have p: "price ?table ''openai/gpt-4o/2024-08-06'' (ur_input_tokens ?u) (ur_output_tokens ?u) = Inr (1 / 50)"
    by (simp add: sample_usage_def price_def make_cost_table_def ZERO_COST_PREFIXES_def starts_with_def DEFAULT_PRICES_def)
  have v: "attribution_valid (attribution_of DEFAULT_CONTEXT ?w ?u (1 / 50))"
    by (simp add: attribution_valid_def attribution_of_def sample_usage_def sample_workload_def workload_name_def
        DEFAULT_CONTEXT_def DEFAULT_TENANT_ID_def)
  have t: "workload_team ?w = Some (replicate 65 CHR ''t'')" by (simp add: workload_team_def sample_workload_def)
  show ?thesis
    using long_team_partial_charge [OF m p v t, of "empty_budget_state\<lparr>bu_cost := Some sample_cost_store\<rparr>" sample_cost_store
        "[]" 0 "\<lambda>_. 0" "''u''"]
    by (auto simp: run_spend_def empty_budget_state_def dict_get_default_def sample_usage_def)
qed

text \<open>
  The total of a run always equals the sum of its attributions: \<open>record_usage\<close> keeps this on
  success and on every error, except when the attribution itself fails validation.
\<close>

theorem record_usage_ledger:
  assumes "run_ledger st" "budget_record_usage table ths ctx w u today cap_at uid st = (res, st')"
    "res \<noteq> Inl (BudgetValidationError ''CostAttribution'')"
  shows "run_ledger st'"
proof (cases "\<exists>m c. ur_model_identity u = Some m \<and> price table m (ur_input_tokens u) (ur_output_tokens u) = Inr c")
  case True
  then obtain m c where m: "ur_model_identity u = Some m"
    and c: "price table m (ur_input_tokens u) (ur_output_tokens u) = Inr c" by blast
  have v: "attribution_valid (attribution_of ctx w u c)"
    using assms(2,3) m c
    by (auto simp: budget_record_usage_def bindE_def thenE_def liftE_def modifyE_def Let_def split: if_splits)
  let ?m = "meter ths ctx (cost_event_of ctx w u uid c) (metered ctx w u today c st)"
  obtain r st1 where mt: "?m = (r, st1)" by (cases ?m)
  have "st1 = st'"
    using assms(2) [unfolded record_usage_eq [OF m c v] mt prod.case] by (cases r) simp_all
  with meter_other(1,4) [OF mt] run_ledger_metered [OF assms(1)] run_ledger_cong show ?thesis by metis
next
  case False
  then have "st' = st"
    using assms(2) by (cases "ur_model_identity u")
      (auto simp: budget_record_usage_def raiseE_def bindE_def liftE_def split: sum.splits)
  then show ?thesis using assms(1) by simp
qed

theorem record_usage_ledger_witness:
  "run_ledger (snd (budget_record_usage (make_cost_table None ZERO_COST_PREFIXES) [] DEFAULT_CONTEXT
     (sample_workload ''w'' None \<lparr>bs_per_run_usd = 1, bs_per_day_usd = 2, bs_per_team_usd = None\<rparr>)
     (sample_usage ''local/x/1'') 0 (\<lambda>_. 0) ''u'' empty_budget_state))"
  by (rule record_usage_ledger [OF _ surjective_pairing, of empty_budget_state])
    (simp_all add: run_ledger_def attributed_spend_def empty_budget_state_def dict_get_default_def
      budget_record_usage_def sample_usage_def price_def make_cost_table_def ZERO_COST_PREFIXES_def starts_with_def
      bindE_def thenE_def liftE_def modifyE_def getE_def Let_def meter_def attribution_valid_def attribution_of_def
      record_attribution_def require_def scopes_def sample_workload_def workload_name_def workload_team_def
      DEFAULT_CONTEXT_def DEFAULT_TENANT_ID_def add_spend_def spend_defs)

text \<open>
  The spend summary loses and invents nothing: the workload rows add up to the cost of all
  attributions, and the team rows to the cost of those that name a team.
\<close>

theorem summarize_spend_conserves:
  "sum_list (map sw_total_usd (su_by_workload (summarize_spend as))) = sum_list (map cn_cost_usd as) \<and>
   sum_list (map st_total_usd (su_by_team (summarize_spend as))) =
     sum_list (map cn_cost_usd (filter (\<lambda>a. cn_team a \<noteq> None) as))"
  using sum_summary_fold [of as "\<lparr>wk_totals = [], wk_runs = [], wk_teams = [], tm_totals = [], tm_runs = []\<rparr>"]
  by (simp add: summarize_spend_def Let_def sum_sort_key comp_def case_prod_unfold)

end
