(* ===== verification/Guards.thy ===== *)
theory Guards
  imports Core_Model
begin

text \<open>
  Runtime guards (\<open>guards/\<close>): the context-window budget, the spend-velocity guard, the guard
  manager that runs both over a usage report, retries with backoff, and circuit breakers. Clock
  readings and random numbers are arguments. The manager's infinite default for the spend limit
  is \<open>None\<close>.
\<close>

section \<open>Models\<close>

datatype guard_kind = GUARD_CONTEXT | GUARD_VELOCITY | GUARD_RETRY | GUARD_BREAKER

datatype guard_action = GUARD_PAUSE | GUARD_DENY | GUARD_THROTTLE | GUARD_ALLOW

datatype jitter_mode = JITTER_NONE | JITTER_FULL

record retry_policy =
  ry_max_attempts :: nat
  ry_base_ms :: int
  ry_max_ms :: int
  ry_jitter :: jitter_mode

record guard_event =
  ge_event_id :: string
  ge_guard :: guard_kind
  ge_action :: guard_action
  ge_reason :: string
  ge_rule_id :: string
  ge_workload_id :: string
  ge_run_id :: "string option"
  ge_tool_id :: "string option"
  ge_observed :: "(string, json) dict"
  ge_threshold :: "(string, json) dict"
  ge_created_at :: time
  ge_tenant_id :: string

section \<open>The context budget\<close>

record context_account =
  ka_run_id :: string
  ka_step :: nat
  ka_model_identity :: string
  ka_input_tokens :: int
  ka_output_tokens :: int
  ka_context_total :: int
  ka_recorded_at :: time

record context_breach =
  kb_run_id :: string
  kb_used :: int
  kb_limit :: int
  kb_step :: nat
  kb_model_identity :: string
  kb_rule_id :: string
  kb_reason :: string

record context_guard =
  kg_accounts :: "(string, context_account list) dict"
  kg_totals :: "(string, int) dict"

definition context_total :: "context_guard \<Rightarrow> string \<Rightarrow> int" where
  "context_total g run_id = dict_get_default (kg_totals g) run_id 0"

definition context_accounts :: "context_guard \<Rightarrow> string \<Rightarrow> context_account list" where
  "context_accounts g run_id = dict_get_default (kg_accounts g) run_id []"

definition context_record ::
  "time \<Rightarrow> string \<Rightarrow> nat \<Rightarrow> string \<Rightarrow> int \<Rightarrow> int \<Rightarrow> context_guard \<Rightarrow> context_account \<times> context_guard" where
  "context_record now run_id step model_identity input_tokens output_tokens g =
     (let total = dict_get_default (kg_totals g) run_id 0 + input_tokens + output_tokens;
          account = \<lparr>ka_run_id = run_id, ka_step = step, ka_model_identity = model_identity,
            ka_input_tokens = input_tokens, ka_output_tokens = output_tokens,
            ka_context_total = total, ka_recorded_at = now\<rparr>
      in (account, g\<lparr>kg_totals := dict_put run_id total (kg_totals g),
            kg_accounts := dict_put run_id (context_accounts g run_id @ [account]) (kg_accounts g)\<rparr>))"

definition context_release :: "string \<Rightarrow> context_guard \<Rightarrow> context_guard" where
  "context_release run_id g =
     g\<lparr>kg_accounts := dict_pop run_id (kg_accounts g), kg_totals := dict_pop run_id (kg_totals g)\<rparr>"

definition context_check :: "context_guard \<Rightarrow> string \<Rightarrow> int \<Rightarrow> context_breach option" where
  "context_check g run_id limit =
     (let used = context_total g run_id;
          accounts = context_accounts g run_id
      in if used \<le> limit then None
         else Some \<lparr>kb_run_id = run_id, kb_used = used, kb_limit = limit,
           kb_step = (if accounts \<noteq> [] then ka_step (last accounts) else 0),
           kb_model_identity = (if accounts \<noteq> [] then ka_model_identity (last accounts) else ''unspecified''),
           kb_rule_id = ''guard.context'', kb_reason = ''context budget exceeded''\<rparr>)"

definition is_warning :: "context_guard \<Rightarrow> string \<Rightarrow> int \<Rightarrow> rat \<Rightarrow> bool" where
  "is_warning g run_id limit warn_at =
     (let used = context_total g run_id
      in limit > 0 \<and> of_int used \<ge> of_int limit * warn_at \<and> used \<le> limit)"

section \<open>Spend velocity\<close>

record velocity_event =
  ve_workload :: string
  ve_cost_usd :: usd
  ve_at :: time

record velocity_breach =
  vb_workload :: string
  vb_spent_usd :: usd
  vb_limit_usd :: "usd option"
  vb_window_seconds :: int
  vb_multiplier :: "rat option"
  vb_baseline_usd :: "usd option"
  vb_rate_per_minute :: rat
  vb_projected_exhaustion_seconds :: "int option"
  vb_rule_id :: string
  vb_reason :: string

type_synonym velocity_guard = "(string, velocity_event list) dict"

definition velocity_prune ::
  "int \<Rightarrow> string \<Rightarrow> time \<Rightarrow> int option \<Rightarrow> velocity_guard \<Rightarrow> velocity_guard" where
  "velocity_prune retention_seconds workload now window_seconds g =
     (let retention = max retention_seconds (case window_seconds of None \<Rightarrow> 0 | Some w \<Rightarrow> w);
          cutoff = now - microseconds retention
      in case dict_get g workload of
           None \<Rightarrow> g
         | Some events \<Rightarrow>
             (let kept = filter (\<lambda>e. ve_at e \<ge> cutoff) events
              in if events = [] then g
                 else if length kept \<noteq> length events then dict_put workload kept g
                 else g))"

definition velocity_record ::
  "int \<Rightarrow> time \<Rightarrow> string \<Rightarrow> usd \<Rightarrow> int option \<Rightarrow> velocity_guard \<Rightarrow> velocity_guard" where
  "velocity_record retention_seconds now workload cost window_seconds g =
     velocity_prune retention_seconds workload now window_seconds
       (dict_put workload (dict_get_default g workload [] @
         [\<lparr>ve_workload = workload, ve_cost_usd = cost, ve_at = now\<rparr>]) g)"

definition velocity_spent :: "velocity_guard \<Rightarrow> string \<Rightarrow> int \<Rightarrow> time \<Rightarrow> usd" where
  "velocity_spent g workload window_seconds now =
     sum_list (map ve_cost_usd (filter (\<lambda>e. ve_at e \<ge> now - microseconds window_seconds)
       (dict_get_default g workload [])))"

definition event_count :: "velocity_guard \<Rightarrow> string \<Rightarrow> nat" where
  "event_count g workload = length (dict_get_default g workload [])"

text \<open>\<open>int(x)\<close> on a float truncates towards zero.\<close>

definition py_int :: "rat \<Rightarrow> int" where
  "py_int x = (if x \<ge> 0 then \<lfloor>x\<rfloor> else \<lceil>x\<rceil>)"

datatype guard_error = GuardValidationError string

text \<open>The breach model requires a non-negative time to exhaustion.\<close>

definition velocity_check ::
  "velocity_guard \<Rightarrow> string \<Rightarrow> int \<Rightarrow> usd option \<Rightarrow> time \<Rightarrow> rat option \<Rightarrow> usd option \<Rightarrow> usd option \<Rightarrow>
   guard_error + velocity_breach option" where
  "velocity_check g workload window_seconds limit now multiplier baseline budget_remaining =
     (let spent = velocity_spent g workload window_seconds now;
          absolute = (case limit of None \<Rightarrow> False | Some l \<Rightarrow> spent > l);
          relative = (case (multiplier, baseline) of (Some m, Some b) \<Rightarrow> spent > m * b | _ \<Rightarrow> False)
      in if \<not> (absolute \<or> relative) then Inr None
         else (let rate = spent / (of_int window_seconds / 60);
                   exhaustion = (case budget_remaining of None \<Rightarrow> None
                     | Some b \<Rightarrow> if rate > 0 then Some (py_int (b / rate * 60)) else None)
               in if (case exhaustion of None \<Rightarrow> False | Some x \<Rightarrow> x < 0)
                  then Inl (GuardValidationError ''projected_exhaustion_seconds'')
                  else Inr (Some \<lparr>vb_workload = workload, vb_spent_usd = spent, vb_limit_usd = limit,
                    vb_window_seconds = window_seconds, vb_multiplier = multiplier, vb_baseline_usd = baseline,
                    vb_rate_per_minute = rate, vb_projected_exhaustion_seconds = exhaustion,
                    vb_rule_id = ''guard.velocity'', vb_reason = ''spend velocity exceeded''\<rparr>)))"

section \<open>The manager\<close>

record guard_limits =
  gl_context_tokens :: "int option"
  gl_context_warn_at :: rat
  gl_velocity_window_seconds :: int
  gl_velocity_limit_usd :: "usd option"
  gl_velocity_multiplier :: "rat option"

record guard_state =
  gd_context :: context_guard
  gd_velocity :: velocity_guard

text \<open>The clock readings of one usage report and the id of the event it may produce.\<close>

record guard_inputs =
  gi_recorded :: time
  gi_spent :: time
  gi_checked :: time
  gi_created :: time
  gi_event_id :: string

definition check_context_guard ::
  "guard_inputs \<Rightarrow> run \<Rightarrow> usage_report \<Rightarrow> guard_limits \<Rightarrow> tenant_context \<Rightarrow> guard_state \<Rightarrow>
   guard_event option \<times> guard_state" where
  "check_context_guard io r report limits ctx g =
     (let g1 = snd (context_record (gi_recorded io) (r_id r) (length (context_accounts (gd_context g) (r_id r)))
            (str_or (ur_model_identity report) (str_or (r_model_identity r) ''unspecified''))
            (ur_input_tokens report) (ur_output_tokens report) (gd_context g));
          g' = g\<lparr>gd_context := g1\<rparr>
      in case gl_context_tokens limits of
           None \<Rightarrow> (None, g')
         | Some limit \<Rightarrow>
             (case context_check g1 (r_id r) limit of
                None \<Rightarrow> (None, g')
              | Some b \<Rightarrow>
                  (Some \<lparr>ge_event_id = gi_event_id io, ge_guard = GUARD_CONTEXT, ge_action = GUARD_PAUSE,
                     ge_reason = kb_reason b, ge_rule_id = kb_rule_id b, ge_workload_id = r_workload_id r,
                     ge_run_id = Some (r_id r), ge_tool_id = None,
                     ge_observed = [(''used'', JInt (kb_used b)), (''step'', JInt (int (kb_step b))),
                       (''model_identity'', JStr (kb_model_identity b))],
                     ge_threshold = [(''limit'', JInt (kb_limit b))],
                     ge_created_at = gi_created io, ge_tenant_id = tc_tenant_id ctx\<rparr>, g')))"

definition check_velocity_guard ::
  "int \<Rightarrow> guard_inputs \<Rightarrow> run \<Rightarrow> usage_report \<Rightarrow> guard_limits \<Rightarrow> usd option \<Rightarrow> tenant_context \<Rightarrow>
   (guard_state, guard_error, guard_event option) exec" where
  "check_velocity_guard retention io r report limits budget_remaining ctx g =
     (let v = velocity_record retention (gi_spent io) (r_workload_id r) (ur_cost_usd report)
            (Some (gl_velocity_window_seconds limits)) (gd_velocity g);
          g' = g\<lparr>gd_velocity := v\<rparr>
      in if gl_velocity_limit_usd limits = None \<and> gl_velocity_multiplier limits = None then (Inr None, g')
         else (case velocity_check v (r_workload_id r) (gl_velocity_window_seconds limits)
                 (case gl_velocity_limit_usd limits of None \<Rightarrow> None | Some l \<Rightarrow> if l = 0 then None else Some l)
                 (gi_checked io) (gl_velocity_multiplier limits) None budget_remaining of
             Inl e \<Rightarrow> (Inl e, g')
           | Inr None \<Rightarrow> (Inr None, g')
           | Inr (Some b) \<Rightarrow>
               (Inr (Some \<lparr>ge_event_id = gi_event_id io, ge_guard = GUARD_VELOCITY, ge_action = GUARD_PAUSE,
                  ge_reason = vb_reason b, ge_rule_id = vb_rule_id b, ge_workload_id = r_workload_id r,
                  ge_run_id = Some (r_id r), ge_tool_id = None,
                  ge_observed = [(''spent_usd'', JFloat (vb_spent_usd b)), (''rate_per_minute'', JFloat (vb_rate_per_minute b))],
                  ge_threshold = [(''limit_usd'', case vb_limit_usd b of None \<Rightarrow> JNull | Some l \<Rightarrow> JFloat l),
                    (''window_seconds'', JInt (vb_window_seconds b))],
                  ge_created_at = gi_created io, ge_tenant_id = tc_tenant_id ctx\<rparr>), g')))"

definition on_usage ::
  "int \<Rightarrow> (string \<Rightarrow> guard_limits option) option \<Rightarrow> guard_inputs \<Rightarrow> run \<Rightarrow> usage_report \<Rightarrow> usd option \<Rightarrow>
   tenant_context \<Rightarrow> (guard_state, guard_error, guard_event option) exec" where
  "on_usage retention lookup io r report budget_remaining ctx g =
     (case (case lookup of None \<Rightarrow> None | Some f \<Rightarrow> f (r_workload_id r)) of
        None \<Rightarrow> (Inr None, g)
      | Some limits \<Rightarrow>
          (case check_context_guard io r report limits ctx g of
             (Some event, g') \<Rightarrow> (Inr (Some event), g')
           | (None, g') \<Rightarrow> check_velocity_guard retention io r report limits budget_remaining ctx g'))"

definition guard_release :: "string \<Rightarrow> guard_state \<Rightarrow> guard_state" where
  "guard_release run_id g = g\<lparr>gd_context := context_release run_id (gd_context g)\<rparr>"

section \<open>Retries\<close>

text \<open>\<open>u\<close> is the random number the call draws.\<close>

definition backoff_delay_ms :: "retry_policy \<Rightarrow> nat \<Rightarrow> rat \<Rightarrow> int" where
  "backoff_delay_ms policy attempt u =
     (let capped = min (ry_max_ms policy) (ry_base_ms policy * 2 ^ attempt)
      in if ry_jitter policy = JITTER_FULL then py_int (u * of_int capped) else capped)"

text \<open>
  The retry loop, from \<open>attempt\<close> on with \<open>left\<close> attempts to go: \<open>fn\<close> acts on a state of its
  own, the sleeps are collected next to it, and \<open>last_error\<close> is the error to raise at the end.
  The policy's range is empty only for a policy its model rejects; the assertion then fails.
\<close>

datatype 'e retry_error = RetryLast 'e | RetryAssertion

fun retry_loop ::
  "('s, 'e, 'a) exec \<Rightarrow> retry_policy \<Rightarrow> (nat \<Rightarrow> rat) \<Rightarrow> nat \<Rightarrow> nat \<Rightarrow> 'e option \<Rightarrow>
   ('s \<times> int list, 'e retry_error, 'a \<times> nat) exec" where
  "retry_loop fn policy rand attempt 0 last_error (s, sleeps) =
     (Inl (case last_error of None \<Rightarrow> RetryAssertion | Some e \<Rightarrow> RetryLast e), (s, sleeps))"
| "retry_loop fn policy rand attempt (Suc left) last_error (s, sleeps) =
     (case fn s of
        (Inr x, s') \<Rightarrow> (Inr (x, attempt + 1), (s', sleeps))
      | (Inl e, s') \<Rightarrow>
          retry_loop fn policy rand (attempt + 1) left (Some e)
            (s', if attempt + 1 < ry_max_attempts policy
                 then sleeps @ [backoff_delay_ms policy attempt (rand attempt)] else sleeps))"

definition run_with_retries ::
  "('s, 'e, 'a) exec \<Rightarrow> retry_policy \<Rightarrow> (nat \<Rightarrow> rat) \<Rightarrow> 's \<Rightarrow> ('e retry_error + 'a \<times> nat) \<times> 's \<times> int list" where
  "run_with_retries fn policy rand s = retry_loop fn policy rand 0 (ry_max_attempts policy) None (s, [])"

section \<open>Circuit breakers\<close>

datatype breaker_state = BREAKER_CLOSED | BREAKER_OPEN | BREAKER_HALF_OPEN

record circuit_breaker =
  cb_scope :: string
  cb_scope_id :: string
  cb_state :: breaker_state
  cb_failure_rate :: rat
  cb_opened_at :: "time option"
  cb_updated_at :: time

record breaker =
  bk_state :: breaker_state
  bk_outcomes :: "bool list"
  bk_opened_at :: "time option"
  bk_failure_rate :: rat

definition new_breaker :: breaker where
  "new_breaker = \<lparr>bk_state = BREAKER_CLOSED, bk_outcomes = [], bk_opened_at = None, bk_failure_rate = 0\<rparr>"

record breaker_config =
  bg_failure_threshold :: rat
  bg_min_calls :: nat
  bg_open_for_seconds :: int
  bg_window :: nat

type_synonym breaker_registry = "(string \<times> string, breaker) dict"

text \<open>\<open>setdefault\<close>: the entry and the registry that now holds it.\<close>

definition get_breaker :: "string \<Rightarrow> string \<Rightarrow> breaker_registry \<Rightarrow> breaker \<times> breaker_registry" where
  "get_breaker scope scope_id reg = (case dict_get reg (scope, scope_id) of
       Some b \<Rightarrow> (b, reg)
     | None \<Rightarrow> (new_breaker, dict_put (scope, scope_id) new_breaker reg))"

definition breaker_state_of :: "string \<Rightarrow> string \<Rightarrow> breaker_registry \<Rightarrow> breaker_state \<times> breaker_registry" where
  "breaker_state_of scope scope_id reg = (let (b, reg') = get_breaker scope scope_id reg in (bk_state b, reg'))"

definition breaker_allow ::
  "breaker_config \<Rightarrow> time \<Rightarrow> time \<Rightarrow> string \<Rightarrow> string \<Rightarrow> breaker_registry \<Rightarrow> bool \<times> breaker_registry" where
  "breaker_allow cfg now1 now2 scope scope_id reg =
     (let (b, reg') = get_breaker scope scope_id reg in
      case bk_state b of
        BREAKER_CLOSED \<Rightarrow> (True, reg')
      | BREAKER_OPEN \<Rightarrow>
          (let opened = (case bk_opened_at b of Some t \<Rightarrow> t | None \<Rightarrow> now1)
           in if now2 - opened \<ge> microseconds (bg_open_for_seconds cfg)
              then (True, dict_put (scope, scope_id) (b\<lparr>bk_state := BREAKER_HALF_OPEN\<rparr>) reg')
              else (False, reg'))
      | BREAKER_HALF_OPEN \<Rightarrow> (False, reg'))"

definition breaker_view :: "string \<Rightarrow> string \<Rightarrow> breaker \<Rightarrow> time \<Rightarrow> circuit_breaker" where
  "breaker_view scope scope_id b now =
     \<lparr>cb_scope = scope, cb_scope_id = scope_id, cb_state = bk_state b, cb_failure_rate = bk_failure_rate b,
      cb_opened_at = bk_opened_at b, cb_updated_at = now\<rparr>"





definition breaker_snapshot ::
  "time \<Rightarrow> string \<Rightarrow> string \<Rightarrow> breaker_registry \<Rightarrow> circuit_breaker \<times> breaker_registry" where
  "breaker_snapshot now scope scope_id reg =
     (let (b, reg') = get_breaker scope scope_id reg in (breaker_view scope scope_id b now, reg'))"

section \<open>Lemmas\<close>

subsection \<open>Velocity\<close>

lemma filter_same_length: "length (filter P xs) = length xs \<Longrightarrow> filter P xs = xs"
  by (induction xs) (auto, metis Suc_n_not_le_n length_filter_le)

lemma velocity_prune_get:
  "dict_get_default (velocity_prune ret w now win g) k [] =
     (if k = w then filter (\<lambda>e. ve_at e \<ge> now - microseconds (max ret (case win of None \<Rightarrow> 0 | Some x \<Rightarrow> x)))
        (dict_get_default g w [])
      else dict_get_default g k [])"
proof (cases "dict_get g w")
  case None
  then show ?thesis by (simp add: velocity_prune_def dict_get_default_def)
next
  case (Some events)
  let ?P = "\<lambda>e. ve_at e \<ge> now - microseconds (max ret (case win of None \<Rightarrow> 0 | Some x \<Rightarrow> x))"
  have ev: "dict_get_default g w [] = events" using Some by (simp add: dict_get_default_def)
  show ?thesis
  proof (cases "length (filter ?P events) = length events")
    case True
    then have "velocity_prune ret w now win g = g" using Some by (simp add: velocity_prune_def Let_def)
    then show ?thesis using filter_same_length [OF True] ev by simp
  next
    case False
    then have "velocity_prune ret w now win g = dict_put w (filter ?P events) g"
      using Some by (auto simp: velocity_prune_def Let_def)
    then show ?thesis using ev by simp
  qed
qed

text \<open>The history of one workload: every event ever recorded, never pruned.\<close>

definition spend_history :: "string \<Rightarrow> (time \<times> usd) list \<Rightarrow> velocity_event list" where
  "spend_history w hist = map (\<lambda>(t, c). \<lparr>ve_workload = w, ve_cost_usd = c, ve_at = t\<rparr>) hist"

definition record_log :: "int \<Rightarrow> int \<Rightarrow> string \<Rightarrow> (time \<times> usd) list \<Rightarrow> velocity_guard \<Rightarrow> velocity_guard" where
  "record_log ret win w hist g = fold (\<lambda>(t, c). velocity_record ret t w c (Some win)) hist g"

lemma record_log_snoc: "record_log ret win w (hist @ [(t, c)]) g = velocity_record ret t w c (Some win) (record_log ret win w hist g)"
  by (simp add: record_log_def)

lemma filter_ge_both: "c \<le> d \<Longrightarrow> filter (\<lambda>e. c \<le> ve_at e \<and> d \<le> ve_at e) xs = filter (\<lambda>e. d \<le> ve_at e) xs"
  by (induction xs) auto

lemma record_log_window:
  assumes "0 \<le> win" "sorted (map fst hist)" "\<forall>x \<in> set hist. fst x \<le> now" "now - microseconds (max ret win) \<le> c"
  shows "filter (\<lambda>e. ve_at e \<ge> c) (dict_get_default (record_log ret win w hist []) w []) =
    filter (\<lambda>e. ve_at e \<ge> c) (spend_history w hist)"
  using assms
proof (induction hist arbitrary: now rule: rev_induct)
  case Nil
  then show ?case by (simp add: record_log_def spend_history_def dict_get_default_def)
next
  case (snoc x hist)
  obtain t a where x: "x = (t, a)" by (cases x)
  have le: "\<forall>y \<in> set hist. fst y \<le> t" and srt: "sorted (map fst hist)" and tn: "t \<le> now"
    using snoc.prems x by (auto simp: sorted_append)
  have c: "t - microseconds (max ret win) \<le> c" using snoc.prems(4) tn by linarith
  from snoc.IH [OF assms(1) srt le c] assms(1) show ?case
    by (simp add: x record_log_snoc velocity_record_def velocity_prune_get spend_history_def filter_ge_both [OF c])
qed

subsection \<open>Retries\<close>

text \<open>The state after \<open>n\<close> calls.\<close>

fun after_calls :: "('s, 'e, 'a) exec \<Rightarrow> nat \<Rightarrow> 's \<Rightarrow> 's" where
  "after_calls fn 0 s = s"
| "after_calls fn (Suc n) s = after_calls fn n (snd (fn s))"

definition call_fails :: "('s, 'e, 'a) exec \<Rightarrow> 's \<Rightarrow> bool" where
  "call_fails fn s = (\<exists>e. fst (fn s) = Inl e)"

lemma retry_loop_success:
  assumes "retry_loop fn policy rand a left le (s, sl) = (Inr (x, n), s', sl')"
  shows "\<exists>k < left. n = a + k + 1 \<and> (\<forall>j < k. call_fails fn (after_calls fn j s)) \<and>
    fn (after_calls fn k s) = (Inr x, s')"
  using assms
proof (induction left arbitrary: a le s sl)
  case (Suc left)
  show ?case
  proof (cases "fst (fn s)")
    case (Inr y)
    then have fs: "fn s = (Inr y, snd (fn s))" by (metis prod.collapse)
    from Suc.prems have "y = x \<and> n = a + 1 \<and> s' = snd (fn s)"
      by (subst (asm) retry_loop.simps(2), subst (asm) fs) simp
    with fs show ?thesis by (intro exI [of _ 0]) simp
  next
    case (Inl e)
    then have fs: "fn s = (Inl e, snd (fn s))" by (metis prod.collapse)
    obtain sl1 where "retry_loop fn policy rand (a + 1) left (Some e) (snd (fn s), sl1) = (Inr (x, n), s', sl')"
      using Suc.prems by (subst (asm) retry_loop.simps(2), subst (asm) fs) simp
    from Suc.IH [OF this] obtain k where k: "k < left" "n = a + 1 + k + 1"
      "\<forall>j < k. call_fails fn (after_calls fn j (snd (fn s)))" "fn (after_calls fn k (snd (fn s))) = (Inr x, s')" by blast
    have "call_fails fn (after_calls fn j s)" if "j < Suc k" for j
      using that k(3) Inl by (cases j) (simp_all add: call_fails_def)
    with k show ?thesis by (intro exI [of _ "Suc k"]) simp
  qed
qed simp

lemma retry_loop_failure:
  assumes "retry_loop fn policy rand a left le (s, sl) = (Inl err, s', sl')"
  shows "(\<forall>j < left. call_fails fn (after_calls fn j s)) \<and> s' = after_calls fn left s \<and>
    (if left = 0 then err = (case le of None \<Rightarrow> RetryAssertion | Some e \<Rightarrow> RetryLast e)
     else \<exists>e. fst (fn (after_calls fn (left - 1) s)) = Inl e \<and> err = RetryLast e)"
  using assms
proof (induction left arbitrary: a le s sl)
  case (Suc left)
  show ?case
  proof (cases "fst (fn s)")
    case (Inr y)
    then have fs: "fn s = (Inr y, snd (fn s))" by (metis prod.collapse)
    from Suc.prems have False by (subst (asm) retry_loop.simps(2), subst (asm) fs) simp
    then show ?thesis ..
  next
    case (Inl e)
    then have fs: "fn s = (Inl e, snd (fn s))" by (metis prod.collapse)
    obtain sl1 where "retry_loop fn policy rand (a + 1) left (Some e) (snd (fn s), sl1) = (Inl err, s', sl')"
      using Suc.prems by (subst (asm) retry_loop.simps(2), subst (asm) fs) simp
    note IH = Suc.IH [OF this]
    have "call_fails fn (after_calls fn j s)" if "j < Suc left" for j
      using that IH Inl by (cases j) (simp_all add: call_fails_def)
    with IH Inl show ?thesis by (cases left) auto
  qed
qed simp

lemma retry_loop_sleeps:
  assumes "retry_loop fn policy rand a left le (s, sl) = (res, s', sl')" "ry_max_attempts policy = a + left"
  shows "\<exists>m. sl' = sl @ map (\<lambda>k. backoff_delay_ms policy (a + k) (rand (a + k))) [0..<m] \<and>
    m = (case res of Inl _ \<Rightarrow> left - 1 | Inr (x, n) \<Rightarrow> n - 1 - a)"
  using assms
proof (induction left arbitrary: a le s sl)
  case (Suc left)
  show ?case
  proof (cases "fst (fn s)")
    case (Inr y)
    then have fs: "fn s = (Inr y, snd (fn s))" by (metis prod.collapse)
    from Suc.prems(1) show ?thesis by (subst (asm) retry_loop.simps(2), subst (asm) fs) auto
  next
    case (Inl e)
    then have fs: "fn s = (Inl e, snd (fn s))" by (metis prod.collapse)
    show ?thesis
    proof (cases "left = 0")
      case True
      with Suc.prems show ?thesis by (subst (asm) retry_loop.simps(2), subst (asm) fs) auto
    next
      case False
      then have more: "a + 1 < ry_max_attempts policy" using Suc.prems(2) by simp
      have step: "retry_loop fn policy rand (a + 1) left (Some e)
          (snd (fn s), sl @ [backoff_delay_ms policy a (rand a)]) = (res, s', sl')"
        using Suc.prems(1) more by (subst (asm) retry_loop.simps(2), subst (asm) fs) simp
      obtain m where m: "sl' = (sl @ [backoff_delay_ms policy a (rand a)]) @
            map (\<lambda>k. backoff_delay_ms policy (a + 1 + k) (rand (a + 1 + k))) [0..<m]"
          "m = (case res of Inl _ \<Rightarrow> left - 1 | Inr (x, n) \<Rightarrow> n - 1 - (a + 1))"
        using Suc.IH [OF step] Suc.prems(2) by auto
      have "sl' = sl @ map (\<lambda>k. backoff_delay_ms policy (a + k) (rand (a + k))) [0..<Suc m]"
        unfolding m(1) map_upt_Suc by simp
      moreover have "Suc m = (case res of Inl _ \<Rightarrow> Suc left - 1 | Inr (x, n) \<Rightarrow> n - 1 - a)"
      proof (cases res)
        case (Inr p)
        obtain x n where p: "p = (x, n)" by (cases p)
        obtain k where "n = a + 1 + k + 1" using retry_loop_success [OF step [unfolded Inr p]] by blast
        then show ?thesis using m(2) Inr p by simp
      qed (use m(2) False in simp)
      ultimately show ?thesis by blast
    qed
  qed
qed auto

lemma py_int_scale:
  assumes "0 \<le> u" "u \<le> 1" "0 \<le> c"
  shows "0 \<le> py_int (u * of_int c) \<and> py_int (u * of_int c) \<le> c"
proof -
  have r: "0 \<le> u * of_int c" "u * of_int c \<le> of_int c"
    using assms by (simp_all add: mult_left_le_one_le)
  then have "\<lfloor>u * of_int c\<rfloor> \<le> c" using floor_mono by fastforce
  with r show ?thesis by (simp add: py_int_def)
qed

lemma backoff_delay_bounds:
  assumes "0 \<le> u" "u \<le> 1" "0 < ry_base_ms policy" "0 < ry_max_ms policy"
  shows "0 \<le> backoff_delay_ms policy k u \<and> backoff_delay_ms policy k u \<le> ry_max_ms policy"
proof -
  define c where "c = min (ry_max_ms policy) (ry_base_ms policy * 2 ^ k)"
  have c: "0 \<le> c" "c \<le> ry_max_ms policy" using assms(3,4) by (simp_all add: c_def)
  have "backoff_delay_ms policy k u = (if ry_jitter policy = JITTER_FULL then py_int (u * of_int c) else c)"
    by (simp add: backoff_delay_ms_def Let_def c_def)
  with py_int_scale [OF assms(1,2) c(1)] c show ?thesis by auto
qed

subsection \<open>Breakers\<close>

















lemma get_breaker_put [simp]: "get_breaker scope scope_id (dict_put (scope, scope_id) b reg) = (b, dict_put (scope, scope_id) b reg)"
  by (simp add: get_breaker_def)


text \<open>Calls to \<open>allow\<close> in a row.\<close>

fun allow_all :: "breaker_config \<Rightarrow> (time \<times> time) list \<Rightarrow> string \<Rightarrow> string \<Rightarrow> breaker_registry \<Rightarrow> bool list \<times> breaker_registry" where
  "allow_all cfg [] scope scope_id reg = ([], reg)"
| "allow_all cfg ((n1, n2) # rest) scope scope_id reg =
     (let (a, reg1) = breaker_allow cfg n1 n2 scope scope_id reg;
          (as, reg2) = allow_all cfg rest scope scope_id reg1
      in (a # as, reg2))"

lemma allow_all_half_open:
  assumes "dict_get reg (scope, scope_id) = Some b" "bk_state b = BREAKER_HALF_OPEN"
  shows "allow_all cfg ts scope scope_id reg = (replicate (length ts) False, reg)"
  using assms by (induction ts) (auto simp: breaker_allow_def get_breaker_def)

subsection \<open>The manager\<close>

lemma context_record_total:
  "context_total (snd (context_record now run_id step m i o' g)) run_id = context_total g run_id + i + o'"
  by (simp add: context_record_def context_total_def Let_def)

lemma check_context_guard_breach:
  "(fst (check_context_guard io r u limits ctx g) \<noteq> None) =
     (\<exists>l. gl_context_tokens limits = Some l \<and>
        context_total (gd_context g) (r_id r) + ur_input_tokens u + ur_output_tokens u > l)"
  by (auto simp: check_context_guard_def Let_def context_check_def context_record_total split: option.split)

lemma check_context_guard_pause: "fst (check_context_guard io r u limits ctx g) = Some e \<Longrightarrow> ge_action e = GUARD_PAUSE"
  by (auto simp: check_context_guard_def Let_def split: option.splits)

lemma velocity_check_breach:
  assumes "velocity_check g w win limit now mult None rem = Inr res"
  shows "(res \<noteq> None) = (\<exists>l. limit = Some l \<and> velocity_spent g w win now > l)"
  using assms by (cases limit; cases mult) (auto simp: velocity_check_def Let_def split: if_splits)

lemma check_velocity_guard_breach:
  assumes "check_velocity_guard ret io r u limits rem ctx g = (Inr res, g')" "gl_velocity_limit_usd limits \<noteq> Some 0"
  shows "(res \<noteq> None) = (\<exists>l. gl_velocity_limit_usd limits = Some l \<and>
      velocity_spent (gd_velocity g') (r_workload_id r) (gl_velocity_window_seconds limits) (gi_checked io) > l)"
    and "res = Some e \<Longrightarrow> ge_action e = GUARD_PAUSE"
proof -
  let ?v = "velocity_record ret (gi_spent io) (r_workload_id r) (ur_cost_usd u)
      (Some (gl_velocity_window_seconds limits)) (gd_velocity g)"
  let ?c = "velocity_check ?v (r_workload_id r) (gl_velocity_window_seconds limits) (gl_velocity_limit_usd limits)
      (gi_checked io) (gl_velocity_multiplier limits) None rem"
  have lim: "(case gl_velocity_limit_usd limits of None \<Rightarrow> None | Some l \<Rightarrow> if l = 0 then None else Some l) =
      gl_velocity_limit_usd limits"
    using assms(2) by (auto split: option.split)
  note run = assms(1) [unfolded check_velocity_guard_def Let_def lim]
  have g': "gd_velocity g' = ?v" using run by (auto split: if_splits sum.splits option.splits)
  show "res = Some e \<Longrightarrow> ge_action e = GUARD_PAUSE"
    using run by (auto split: if_splits sum.splits option.splits)
  show "(res \<noteq> None) = (\<exists>l. gl_velocity_limit_usd limits = Some l \<and>
      velocity_spent (gd_velocity g') (r_workload_id r) (gl_velocity_window_seconds limits) (gi_checked io) > l)"
  proof (cases "gl_velocity_limit_usd limits = None \<and> gl_velocity_multiplier limits = None")
    case True
    then show ?thesis using run by simp
  next
    case False
    obtain b where b: "?c = Inr b" using run False by (cases ?c) auto
    have "(res \<noteq> None) = (b \<noteq> None)" using run False b by (auto split: option.splits)
    then show ?thesis using velocity_check_breach [OF b] g' by simp
  qed
qed

lemma check_context_guard_multiplier:
  "check_context_guard io r u (limits\<lparr>gl_velocity_multiplier := m\<rparr>) ctx g = check_context_guard io r u limits ctx g"
  by (simp add: check_context_guard_def)

lemma check_velocity_guard_multiplier:
  "check_velocity_guard ret io r u (limits\<lparr>gl_velocity_multiplier := m\<rparr>) rem ctx g =
   check_velocity_guard ret io r u (limits\<lparr>gl_velocity_multiplier := None\<rparr>) rem ctx g"
  unfolding check_velocity_guard_def Let_def velocity_check_def
  by (simp split: option.split)

section \<open>Properties\<close>



text \<open>
  An open breaker lets exactly one probe through. Before the cool-down has passed every call is
  refused; the first call after it is allowed and half-opens the breaker; from then on every call
  at any later time is refused until an outcome is recorded. So a probe whose outcome is never
  recorded blocks the scope for good.
\<close>

theorem half_open_single_probe:
  assumes "dict_get reg (scope, scope_id) = Some b" "bk_state b = BREAKER_OPEN" "bk_opened_at b = Some t"
  shows "breaker_allow cfg n1 n2 scope scope_id reg =
      (n2 - t \<ge> microseconds (bg_open_for_seconds cfg),
       if n2 - t \<ge> microseconds (bg_open_for_seconds cfg)
       then dict_put (scope, scope_id) (b\<lparr>bk_state := BREAKER_HALF_OPEN\<rparr>) reg else reg) \<and>
    allow_all cfg ts scope scope_id (dict_put (scope, scope_id) (b\<lparr>bk_state := BREAKER_HALF_OPEN\<rparr>) reg) =
      (replicate (length ts) False, dict_put (scope, scope_id) (b\<lparr>bk_state := BREAKER_HALF_OPEN\<rparr>) reg)"
proof
  show "breaker_allow cfg n1 n2 scope scope_id reg =
      (n2 - t \<ge> microseconds (bg_open_for_seconds cfg),
       if n2 - t \<ge> microseconds (bg_open_for_seconds cfg)
       then dict_put (scope, scope_id) (b\<lparr>bk_state := BREAKER_HALF_OPEN\<rparr>) reg else reg)"
    using assms by (simp add: breaker_allow_def get_breaker_def)
  show "allow_all cfg ts scope scope_id (dict_put (scope, scope_id) (b\<lparr>bk_state := BREAKER_HALF_OPEN\<rparr>) reg) =
      (replicate (length ts) False, dict_put (scope, scope_id) (b\<lparr>bk_state := BREAKER_HALF_OPEN\<rparr>) reg)"
    by (rule allow_all_half_open [where b = "b\<lparr>bk_state := BREAKER_HALF_OPEN\<rparr>"]) simp_all
qed

theorem half_open_single_probe_witness:
  "fst (breaker_allow \<lparr>bg_failure_threshold = 1 / 2, bg_min_calls = 5, bg_open_for_seconds = 30, bg_window = 20\<rparr>
     0 40000000 ''tool'' ''x''
     [((''tool'', ''x''), \<lparr>bk_state = BREAKER_OPEN, bk_outcomes = [], bk_opened_at = Some 0, bk_failure_rate = 1\<rparr>)])"
  using half_open_single_probe [of "[((''tool'', ''x''), \<lparr>bk_state = BREAKER_OPEN, bk_outcomes = [], bk_opened_at = Some 0, bk_failure_rate = 1\<rparr>)]"
      "''tool''" "''x''" "\<lparr>bk_state = BREAKER_OPEN, bk_outcomes = [], bk_opened_at = Some 0, bk_failure_rate = 1\<rparr>" 0
      "\<lparr>bg_failure_threshold = 1 / 2, bg_min_calls = 5, bg_open_for_seconds = 30, bg_window = 20\<rparr>" 0 40000000]
  by simp

text \<open>
  C24: retries are exact. The function is called until its first success or \<open>max_attempts\<close> times;
  the result is that success with the number of calls, or the error of the last call; between two
  calls there is one sleep, of the delay of its attempt, which lies between 0 and \<open>max_ms\<close>.
\<close>

theorem run_with_retries_exact:
  assumes "run_with_retries fn policy rand s = (res, s', sleeps)"
    and "0 < ry_max_attempts policy" "0 < ry_base_ms policy" "0 < ry_max_ms policy" "\<And>k. 0 \<le> rand k \<and> rand k \<le> 1"
  shows "(case res of
      Inr (x, n) \<Rightarrow> 1 \<le> n \<and> n \<le> ry_max_attempts policy \<and> (\<forall>j < n - 1. call_fails fn (after_calls fn j s)) \<and>
        fn (after_calls fn (n - 1) s) = (Inr x, s') \<and> length sleeps = n - 1
    | Inl err \<Rightarrow> (\<forall>j < ry_max_attempts policy. call_fails fn (after_calls fn j s)) \<and>
        s' = after_calls fn (ry_max_attempts policy) s \<and> length sleeps = ry_max_attempts policy - 1 \<and>
        (\<exists>e. fst (fn (after_calls fn (ry_max_attempts policy - 1) s)) = Inl e \<and> err = RetryLast e)) \<and>
    (\<forall>k < length sleeps. sleeps ! k = backoff_delay_ms policy k (rand k) \<and> 0 \<le> sleeps ! k \<and> sleeps ! k \<le> ry_max_ms policy)"
proof -
  let ?n = "ry_max_attempts policy"
  have run: "retry_loop fn policy rand 0 ?n None (s, []) = (res, s', sleeps)"
    using assms(1) by (simp add: run_with_retries_def)
  obtain m where sl: "sleeps = map (\<lambda>k. backoff_delay_ms policy k (rand k)) [0..<m]"
      and m: "m = (case res of Inl _ \<Rightarrow> ?n - 1 | Inr (x, n) \<Rightarrow> n - 1 - 0)"
    using retry_loop_sleeps [OF run] by auto
  have delays: "\<forall>k < length sleeps. sleeps ! k = backoff_delay_ms policy k (rand k) \<and> 0 \<le> sleeps ! k \<and>
      sleeps ! k \<le> ry_max_ms policy"
    using backoff_delay_bounds [OF conjunct1 [OF assms(5)] conjunct2 [OF assms(5)] assms(3,4)] by (simp add: sl)
  show ?thesis
  proof (cases res)
    case (Inl err)
    from retry_loop_failure [OF run [unfolded Inl]] Inl assms(2) m delays sl show ?thesis by simp
  next
    case (Inr p)
    obtain x n where p: "p = (x, n)" by (cases p)
    from retry_loop_success [OF run [unfolded Inr p]] Inr p m delays sl show ?thesis by auto
  qed
qed

theorem run_with_retries_exact_witness:
  "\<exists>res s' sleeps. run_with_retries (\<lambda>n :: nat. (if n < 2 then Inl n else Inr n, n + 1))
      \<lparr>ry_max_attempts = 3, ry_base_ms = 500, ry_max_ms = 30000, ry_jitter = JITTER_NONE\<rparr> (\<lambda>_. 0) 0 = (res, s', sleeps) \<and>
    (\<forall>k < length sleeps. sleeps ! k \<le> 30000)"
proof -
  let ?p = "\<lparr>ry_max_attempts = 3, ry_base_ms = 500, ry_max_ms = 30000, ry_jitter = JITTER_NONE\<rparr>"
  let ?fn = "\<lambda>n :: nat. (if n < 2 then Inl n else Inr n, n + 1)"
  obtain res s' sleeps where r: "run_with_retries ?fn ?p (\<lambda>_. 0) 0 = (res, s', sleeps)"
    by (cases "run_with_retries ?fn ?p (\<lambda>_. 0) 0")
  have "\<forall>k < length sleeps. sleeps ! k = backoff_delay_ms ?p k 0 \<and> 0 \<le> sleeps ! k \<and> sleeps ! k \<le> ry_max_ms ?p"
    by (rule run_with_retries_exact [OF r, THEN conjunct2]) simp_all
  then have "\<forall>k < length sleeps. sleeps ! k \<le> 30000" unfolding retry_policy.select_convs by blast
  with r show ?thesis by blast
qed

text \<open>
  C26: pruning is invisible. For a clock that never goes back, the spend the guard reports for the
  trailing window after any sequence of records is the spend of all events ever recorded in that
  window, although the guard drops the older ones.
\<close>

theorem velocity_prune_equiv:
  assumes "0 \<le> win" "sorted (map fst hist)" "\<forall>x \<in> set hist. fst x \<le> now"
  shows "velocity_spent (record_log ret win w hist []) w win now =
    sum_list (map snd (filter (\<lambda>(t, c). t \<ge> now - microseconds win) hist))"
proof -
  have c: "now - microseconds (max ret win) \<le> now - microseconds win" by simp
  have "map ve_cost_usd (filter (\<lambda>e. ve_at e \<ge> now - microseconds win) (spend_history w hist)) =
      map snd (filter (\<lambda>(t, c). t \<ge> now - microseconds win) hist)"
    by (induction hist) (auto simp: spend_history_def)
  then show ?thesis by (simp only: velocity_spent_def record_log_window [OF assms c])
qed

theorem velocity_prune_equiv_witness:
  "velocity_spent (record_log 10 5 ''w'' [(0, 3), (20000000, 4)] []) ''w'' 5 20000000 = 4"
  using velocity_prune_equiv [of 5 "[(0, 3), (20000000, 4)]" 20000000 10 "''w''"] by simp

text \<open>
  The manager pauses a run exactly when, with the report counted, its context tokens exceed
  their limit or the spend of its workload in the window exceeds the velocity limit. The relative
  limit has no effect: no baseline is passed, so changing \<open>velocity_multiplier\<close> changes nothing.
\<close>

theorem on_usage_pauses_iff:
  assumes "on_usage ret (Some lookup) io r u rem ctx g = (Inr res, g')" "lookup (r_workload_id r) = Some limits"
    "gl_velocity_limit_usd limits \<noteq> Some 0"
  shows "(res \<noteq> None) =
      ((\<exists>l. gl_context_tokens limits = Some l \<and>
          context_total (gd_context g) (r_id r) + ur_input_tokens u + ur_output_tokens u > l) \<or>
       (\<exists>l. gl_velocity_limit_usd limits = Some l \<and>
          velocity_spent (gd_velocity g') (r_workload_id r) (gl_velocity_window_seconds limits) (gi_checked io) > l)) \<and>
    (\<forall>e. res = Some e \<longrightarrow> ge_action e = GUARD_PAUSE) \<and>
    on_usage ret (Some (lookup(r_workload_id r := Some (limits\<lparr>gl_velocity_multiplier := m\<rparr>)))) io r u rem ctx g =
      on_usage ret (Some (lookup(r_workload_id r := Some (limits\<lparr>gl_velocity_multiplier := None\<rparr>)))) io r u rem ctx g"
proof (intro conjI)
  obtain ev gc where cg: "check_context_guard io r u limits ctx g = (ev, gc)"
    by (cases "check_context_guard io r u limits ctx g")
  note ctx_breach = check_context_guard_breach [of io r u limits ctx g, unfolded cg fst_conv]
  note run = assms(1) [unfolded on_usage_def option.case assms(2) cg prod.case]
  have "(res \<noteq> None) =
      ((\<exists>l. gl_context_tokens limits = Some l \<and>
          context_total (gd_context g) (r_id r) + ur_input_tokens u + ur_output_tokens u > l) \<or>
       (\<exists>l. gl_velocity_limit_usd limits = Some l \<and>
          velocity_spent (gd_velocity g') (r_workload_id r) (gl_velocity_window_seconds limits) (gi_checked io) > l)) \<and>
    (\<forall>e. res = Some e \<longrightarrow> ge_action e = GUARD_PAUSE)"
  proof (cases ev)
    case None
    then have v: "check_velocity_guard ret io r u limits rem ctx gc = (Inr res, g')" using run by simp
    show ?thesis
      using check_velocity_guard_breach [OF v assms(3)] ctx_breach None by blast
  next
    case (Some e)
    then have "res = Some e" using run by simp
    moreover have "ge_action e = GUARD_PAUSE"
      by (rule check_context_guard_pause [of io r u limits ctx g]) (simp add: cg Some)
    ultimately show ?thesis using ctx_breach Some by simp
  qed
  then show "(res \<noteq> None) =
      ((\<exists>l. gl_context_tokens limits = Some l \<and>
          context_total (gd_context g) (r_id r) + ur_input_tokens u + ur_output_tokens u > l) \<or>
       (\<exists>l. gl_velocity_limit_usd limits = Some l \<and>
          velocity_spent (gd_velocity g') (r_workload_id r) (gl_velocity_window_seconds limits) (gi_checked io) > l))"
    and "\<forall>e. res = Some e \<longrightarrow> ge_action e = GUARD_PAUSE" by blast+
  show "on_usage ret (Some (lookup(r_workload_id r := Some (limits\<lparr>gl_velocity_multiplier := m\<rparr>)))) io r u rem ctx g =
      on_usage ret (Some (lookup(r_workload_id r := Some (limits\<lparr>gl_velocity_multiplier := None\<rparr>)))) io r u rem ctx g"
    unfolding on_usage_def check_context_guard_multiplier check_velocity_guard_multiplier [where m = m]
      option.case fun_upd_same ..
qed

theorem on_usage_pauses_iff_witness:
  "\<exists>res g'. on_usage 3600 (Some (\<lambda>_. Some \<lparr>gl_context_tokens = Some 10, gl_context_warn_at = 4 / 5,
       gl_velocity_window_seconds = 300, gl_velocity_limit_usd = None, gl_velocity_multiplier = Some 2\<rparr>))
     \<lparr>gi_recorded = 0, gi_spent = 0, gi_checked = 0, gi_created = 0, gi_event_id = ''g''\<rparr>
     (sample_run ''t'' ''r'' RUNNING) (sample_usage ''local/x/1'') None DEFAULT_CONTEXT
     \<lparr>gd_context = \<lparr>kg_accounts = [], kg_totals = []\<rparr>, gd_velocity = []\<rparr> = (Inr res, g') \<and> res \<noteq> None"
proof -
  let ?l = "\<lparr>gl_context_tokens = Some 10, gl_context_warn_at = 4 / 5, gl_velocity_window_seconds = 300,
      gl_velocity_limit_usd = None, gl_velocity_multiplier = Some 2\<rparr>"
  let ?io = "\<lparr>gi_recorded = 0, gi_spent = 0, gi_checked = 0, gi_created = 0, gi_event_id = ''g''\<rparr>"
  let ?g = "\<lparr>gd_context = \<lparr>kg_accounts = [], kg_totals = []\<rparr>, gd_velocity = []\<rparr>"
  let ?r = "sample_run ''t'' ''r'' RUNNING"
  let ?u = "sample_usage ''local/x/1''"
  have over: "\<exists>l. gl_context_tokens ?l = Some l \<and>
      context_total (gd_context ?g) (r_id ?r) + ur_input_tokens ?u + ur_output_tokens ?u > l"
    by (simp add: context_total_def dict_get_default_def sample_usage_def)
  obtain res g' where run: "on_usage 3600 (Some (\<lambda>_. Some ?l)) ?io ?r ?u None DEFAULT_CONTEXT ?g = (Inr res, g')"
    by (simp add: on_usage_def check_context_guard_def context_record_def context_check_def context_total_def
        dict_get_default_def sample_usage_def Let_def)
  have "gl_velocity_limit_usd ?l \<noteq> Some 0" by simp
  from on_usage_pauses_iff [OF run refl this] over have "res \<noteq> None" by blast
  with run show ?thesis by blast
qed

end
