(* ===== verification/Audit_Log.thy ===== *)
theory Audit_Log
  imports Tenancy Calendar
begin

text \<open>
  The tamper-evident audit log (\<open>persistence/audit.py\<close>): the canonical JSON of a record, the hash
  chain, the in-memory log with pruning, and the scrubbing wrapper. The digest \<open>sha256\<close> and the
  scrubber are parameters; nothing is assumed of them, the theorems name the colliding inputs
  instead. Characters are the code points below 256.
\<close>

section \<open>Records and their canonical form\<close>

record audit_record =
  au_sequence :: int
  au_actor :: string
  au_action :: string
  au_subject :: string
  au_created_at :: time
  au_detail :: "string option"
  au_prev_hash :: string
  au_hash :: string
  au_tenant_id :: string

definition NULL_HASH :: string where
  "NULL_HASH = replicate 64 (CHR ''0'')"

text \<open>
  \<open>json.dumps\<close> of a string: quote and backslash are escaped, and so is every character that is
  not printable ASCII.
\<close>

definition json_char :: "char \<Rightarrow> string" where
  "json_char c =
     (if c = CHR 0x22 \<or> c = CHR 0x5C then [CHR 0x5C, c]
      else if c = CHR 0x0A then [CHR 0x5C, CHR ''n'']
      else if c = CHR 0x0D then [CHR 0x5C, CHR ''r'']
      else if c = CHR 0x09 then [CHR 0x5C, CHR ''t'']
      else if c = CHR 0x0C then [CHR 0x5C, CHR ''f'']
      else if c = CHR 0x08 then [CHR 0x5C, CHR ''b'']
      else (let n = of_char c :: nat in
        if n < 32 \<or> 126 < n
        then [CHR 0x5C, CHR ''u'', CHR ''0'', CHR ''0'', hex_char (n div 16), hex_char (n mod 16)]
        else [c]))"

definition json_string :: "string \<Rightarrow> string" where
  "json_string s = CHR 0x22 # concat (map json_char s) @ [CHR 0x22]"

text \<open>The payload with sorted keys and without spaces.\<close>

definition canonical :: "audit_record \<Rightarrow> string" where
  "canonical r =
     ''{'' @ json_string ''action'' @ '':'' @ json_string (au_action r) @
     '','' @ json_string ''actor'' @ '':'' @ json_string (au_actor r) @
     '','' @ json_string ''created_at'' @ '':'' @ json_string (datetime_isoformat (au_created_at r)) @
     '','' @ json_string ''detail'' @ '':'' @ (case au_detail r of None \<Rightarrow> ''null'' | Some d \<Rightarrow> json_string d) @
     '','' @ json_string ''sequence'' @ '':'' @ int_str (au_sequence r) @
     '','' @ json_string ''subject'' @ '':'' @ json_string (au_subject r) @ ''}''"

section \<open>The chain\<close>

definition link_input :: "string \<Rightarrow> audit_record \<Rightarrow> string" where
  "link_input prev_hash r = prev_hash @ ''|'' @ canonical r"

definition compute_hash :: "(string \<Rightarrow> string) \<Rightarrow> string \<Rightarrow> audit_record \<Rightarrow> string" where
  "compute_hash sha256 prev_hash r = sha256 (link_input prev_hash r)"

text \<open>The loop of \<open>AuditChain.verify\<close>: the index of the first broken link.\<close>

fun verify_from :: "(string \<Rightarrow> string) \<Rightarrow> nat \<Rightarrow> string \<Rightarrow> audit_record list \<Rightarrow> nat option" where
  "verify_from sha256 index prev [] = None"
| "verify_from sha256 index prev (r # rs) =
     (if au_prev_hash r \<noteq> prev then Some index
      else if au_hash r \<noteq> compute_hash sha256 prev r then Some index
      else verify_from sha256 (index + 1) (au_hash r) rs)"

definition chain_verify :: "(string \<Rightarrow> string) \<Rightarrow> audit_record list \<Rightarrow> string \<Rightarrow> nat option" where
  "chain_verify sha256 rs anchor = verify_from sha256 0 anchor rs"

section \<open>The in-memory log\<close>

record audit_log =
  al_records :: "audit_record list"
  al_anchor :: string
  al_sequence :: int

definition new_audit_log :: audit_log where
  "new_audit_log = \<lparr>al_records = [], al_anchor = NULL_HASH, al_sequence = 0\<rparr>"

datatype audit_error = AuditValidationError

text \<open>The field constraints the draft's construction checks.\<close>

definition audit_fields_ok :: "string \<Rightarrow> string \<Rightarrow> string \<Rightarrow> tenant_context \<Rightarrow> bool" where
  "audit_fields_ok actor action subject ctx =
     (actor \<noteq> [] \<and> action \<noteq> [] \<and> subject \<noteq> [] \<and> tc_tenant_id ctx \<noteq> [] \<and> length (tc_tenant_id ctx) \<le> 64)"

definition audit_append ::
  "(string \<Rightarrow> string) \<Rightarrow> time \<Rightarrow> string \<Rightarrow> string \<Rightarrow> string \<Rightarrow> string option \<Rightarrow> tenant_context \<Rightarrow> audit_log \<Rightarrow>
   audit_error + (audit_record \<times> audit_log)" where
  "audit_append sha256 now actor action subject detail ctx l =
     (let prev_hash = (if al_records l \<noteq> [] then au_hash (last (al_records l)) else al_anchor l);
          draft = \<lparr>au_sequence = al_sequence l, au_actor = actor, au_action = action, au_subject = subject,
            au_created_at = now, au_detail = detail, au_prev_hash = prev_hash, au_hash = [],
            au_tenant_id = tc_tenant_id ctx\<rparr>;
          r = draft\<lparr>au_hash := compute_hash sha256 prev_hash draft\<rparr>
      in if \<not> audit_fields_ok actor action subject ctx then Inl AuditValidationError
         else Inr (r, l\<lparr>al_records := al_records l @ [r], al_sequence := al_sequence l + 1\<rparr>))"

definition audit_records :: "audit_log \<Rightarrow> tenant_context \<Rightarrow> audit_record list" where
  "audit_records l ctx = filter (\<lambda>r. scopes ctx (au_tenant_id r)) (al_records l)"

text \<open>The loop of \<open>prune\<close>; the acting context is ignored.\<close>

fun prune_from ::
  "time \<Rightarrow> (audit_record \<Rightarrow> bool) option \<Rightarrow> string \<Rightarrow> audit_record list \<Rightarrow> nat \<Rightarrow> nat \<times> string \<times> audit_record list" where
  "prune_from before protect anchor [] deleted = (deleted, anchor, [])"
| "prune_from before protect anchor (head # rest) deleted =
     (if au_created_at head \<ge> before then (deleted, anchor, head # rest)
      else if (case protect of None \<Rightarrow> False | Some p \<Rightarrow> p head) then (deleted, anchor, head # rest)
      else prune_from before protect (au_hash head) rest (deleted + 1))"

definition audit_prune ::
  "time \<Rightarrow> (audit_record \<Rightarrow> bool) option \<Rightarrow> tenant_context \<Rightarrow> audit_log \<Rightarrow> nat \<times> audit_log" where
  "audit_prune before protect ctx l =
     (let (deleted, anchor, rs) = prune_from before protect (al_anchor l) (al_records l) 0
      in (deleted, l\<lparr>al_records := rs, al_anchor := anchor\<rparr>))"

definition audit_verify :: "(string \<Rightarrow> string) \<Rightarrow> audit_log \<Rightarrow> bool" where
  "audit_verify sha256 l = (chain_verify sha256 (al_records l) (al_anchor l) = None)"

section \<open>The scrubbing wrapper\<close>

definition scrub_append ::
  "(string \<Rightarrow> string) \<Rightarrow> (string \<Rightarrow> string) \<Rightarrow> time \<Rightarrow> string \<Rightarrow> string \<Rightarrow> string \<Rightarrow> string option \<Rightarrow> tenant_context \<Rightarrow>
   audit_log \<Rightarrow> audit_error + (audit_record \<times> audit_log)" where
  "scrub_append scrub sha256 now actor action subject detail ctx l =
     audit_append sha256 now actor action subject (map_option scrub detail) ctx l"

section \<open>The canonical form determines the hashed fields\<close>

lemma hex_char_value: "n < 16 \<Longrightarrow> of_char (hex_char n) = (if n < 10 then 48 + n else 87 + n)"
  by (simp add: hex_char_def)

lemma hex_char_inj:
  assumes "m < 16" "n < 16" "hex_char m = hex_char n"
  shows "m = n"
proof -
  have "(if m < 10 then 48 + m else 87 + m) = (if n < 10 then 48 + n else 87 + n)"
    unfolding hex_char_value [OF assms(1), symmetric] hex_char_value [OF assms(2), symmetric] assms(3) ..
  then show ?thesis using assms(1,2) by (auto split: if_splits)
qed

lemma hex_pair_inj:
  assumes "hex_char (of_char c div 16) = hex_char (of_char d div 16)" "hex_char (of_char c mod 16) = hex_char (of_char d mod 16)"
  shows "c = d"
proof -
  have lt: "(of_char x :: nat) div 16 < 16" for x :: char
    using nat_of_char_less_256 [of x] by linarith
  have "(of_char c :: nat) div 16 = of_char d div 16" by (rule hex_char_inj) (use assms lt in simp_all)
  moreover have "(of_char c :: nat) mod 16 = of_char d mod 16" by (rule hex_char_inj) (use assms in simp_all)
  ultimately have "(of_char c :: nat) = of_char d" by (metis div_mult_mod_eq)
  then show ?thesis by simp
qed

text \<open>The three shapes of an escaped character.\<close>

lemma json_char_cases:
  obtains (plain) "json_char c = [c]" "c \<noteq> CHR 0x5C" "c \<noteq> CHR 0x22"
  | (short) d where "json_char c = [CHR 0x5C, d]"
      "(d, c) \<in> {(CHR 0x22, CHR 0x22), (CHR 0x5C, CHR 0x5C), (CHR ''n'', CHR 0x0A), (CHR ''r'', CHR 0x0D),
        (CHR ''t'', CHR 0x09), (CHR ''f'', CHR 0x0C), (CHR ''b'', CHR 0x08)}"
  | (hex) "json_char c = [CHR 0x5C, CHR ''u'', CHR ''0'', CHR ''0'', hex_char (of_char c div 16), hex_char (of_char c mod 16)]"
proof -
  consider "c \<in> {CHR 0x22, CHR 0x5C, CHR 0x0A, CHR 0x0D, CHR 0x09, CHR 0x0C, CHR 0x08}"
    | "c \<notin> {CHR 0x22, CHR 0x5C, CHR 0x0A, CHR 0x0D, CHR 0x09, CHR 0x0C, CHR 0x08}" by blast
  then show ?thesis
  proof cases
    case 1
    then show ?thesis using short by (elim insertE) (simp_all add: json_char_def)
  next
    case 2
    then show ?thesis
      using plain hex by (cases "(of_char c :: nat) < 32 \<or> 126 < (of_char c :: nat)") (simp_all add: json_char_def Let_def)
  qed
qed

lemma json_char_inj:
  assumes "json_char c @ x = json_char d @ y"
  shows "c = d \<and> x = y"
proof (cases c rule: json_char_cases)
  case plain
  then show ?thesis using assms by (cases d rule: json_char_cases) simp_all
next
  case (short k)
  then show ?thesis using assms by (cases d rule: json_char_cases) auto
next
  case hex
  then show ?thesis using assms hex_pair_inj [of c d] by (cases d rule: json_char_cases) auto
qed

lemma json_char_no_quote: "json_char c @ x \<noteq> CHR 0x22 # y"
  by (cases c rule: json_char_cases) simp_all

lemma json_body_inj:
  assumes "concat (map json_char s) @ CHR 0x22 # x = concat (map json_char t) @ CHR 0x22 # y"
  shows "s = t \<and> x = y"
  using assms
proof (induction s arbitrary: t)
  case Nil
  show ?case
  proof (cases t)
    case Nil
    then show ?thesis using \<open>concat (map json_char []) @ _ = _\<close> by simp
  next
    case (Cons d t')
    then show ?thesis
      using Nil json_char_no_quote [of d "concat (map json_char t') @ CHR 0x22 # y" x] by simp
  qed
next
  case (Cons c s)
  show ?case
  proof (cases t)
    case Nil
    then show ?thesis using Cons.prems json_char_no_quote [of c "concat (map json_char s) @ CHR 0x22 # x" y] by simp
  next
    case (Cons d t')
    have "json_char c @ (concat (map json_char s) @ CHR 0x22 # x) = json_char d @ (concat (map json_char t') @ CHR 0x22 # y)"
      using Cons.prems \<open>t = d # t'\<close> by simp
    from json_char_inj [OF this] Cons.IH [of t'] Cons show ?thesis by simp
  qed
qed

lemma json_string_inj: "json_string s @ x = json_string t @ y \<Longrightarrow> s = t \<and> x = y"
  using json_body_inj [of s x t y] by (simp add: json_string_def)

lemma json_string_iff: "json_string s @ x = json_string t @ y \<longleftrightarrow> s = t \<and> x = y"
  using json_string_inj by blast

lemma detail_iff:
  "(case d of None \<Rightarrow> ''null'' | Some x \<Rightarrow> json_string x) @ a = (case e of None \<Rightarrow> ''null'' | Some x \<Rightarrow> json_string x) @ b \<longleftrightarrow>
     d = e \<and> a = b"
proof (cases d)
  case None
  then show ?thesis by (cases e) (simp_all add: json_string_def)
next
  case (Some x)
  then show ?thesis by (cases e) (simp_all add: json_string_iff, simp add: json_string_def)
qed

lemma int_str_comma_iff:
  assumes "0 \<le> i" "0 \<le> j"
  shows "int_str i @ '','' @ a = int_str j @ '','' @ b \<longleftrightarrow> i = j \<and> a = b"
proof
  assume eq: "int_str i @ '','' @ a = int_str j @ '','' @ b"
  have "int_str i = int_str j \<and> a = b"
    by (rule digits_sep_inj [where c = "CHR '',''"]) (use eq assms int_str_digits in \<open>simp_all add: is_digit_def\<close>)
  then show "i = j \<and> a = b" using int_str_inj [OF assms] by blast
qed simp

text \<open>The fields a record's hash covers: all but its own link and the tenant.\<close>

definition same_content :: "audit_record \<Rightarrow> audit_record \<Rightarrow> bool" where
  "same_content r q = (au_sequence r = au_sequence q \<and> au_actor r = au_actor q \<and> au_action r = au_action q \<and>
     au_subject r = au_subject q \<and> au_created_at r = au_created_at q \<and> au_detail r = au_detail q)"

definition record_ok :: "audit_record \<Rightarrow> bool" where
  "record_ok r = (0 \<le> au_sequence r \<and> 1 \<le> date_of (au_created_at r))"

lemma canonical_inj:
  assumes "canonical r = canonical q" "record_ok r" "record_ok q"
  shows "same_content r q"
proof -
  have nn: "0 \<le> au_sequence r" "0 \<le> au_sequence q" using assms(2,3) by (simp_all add: record_ok_def)
  have "au_action r = au_action q \<and> au_actor r = au_actor q \<and>
      datetime_isoformat (au_created_at r) = datetime_isoformat (au_created_at q) \<and>
      au_detail r = au_detail q \<and> au_sequence r = au_sequence q \<and> au_subject r = au_subject q"
    using assms(1) unfolding canonical_def same_append_eq json_string_iff detail_iff int_str_comma_iff [OF nn] by blast
  then show ?thesis
    using datetime_isoformat_inj assms(2,3) by (simp add: same_content_def record_ok_def)
qed

section \<open>The chain as a predicate\<close>

fun linked :: "(string \<Rightarrow> string) \<Rightarrow> string \<Rightarrow> audit_record list \<Rightarrow> bool" where
  "linked H prev [] = True"
| "linked H prev (r # rs) = (au_prev_hash r = prev \<and> au_hash r = compute_hash H prev r \<and> linked H (au_hash r) rs)"

definition head_hash :: "string \<Rightarrow> audit_record list \<Rightarrow> string" where
  "head_hash prev rs = (if rs = [] then prev else au_hash (last rs))"

lemma head_hash_simps [simp]:
  "head_hash prev [] = prev" "head_hash prev (xs @ [r]) = au_hash r" "head_hash prev (r # xs) = head_hash (au_hash r) xs"
  by (simp_all add: head_hash_def)

lemma verify_from_linked: "(verify_from H i prev rs = None) = linked H prev rs"
  by (induction H i prev rs rule: verify_from.induct) auto

lemma chain_verify_linked: "(chain_verify H rs anchor = None) = linked H anchor rs"
  by (simp add: chain_verify_def verify_from_linked)

lemma linked_append: "linked H prev (xs @ ys) = (linked H prev xs \<and> linked H (head_hash prev xs) ys)"
  by (induction xs arbitrary: prev) auto

lemma verify_from_append:
  "linked H prev xs \<Longrightarrow> verify_from H i prev (xs @ ys) = verify_from H (i + length xs) (head_hash prev xs) ys"
  by (induction xs arbitrary: prev i) auto

lemma linked_nth:
  assumes "linked H prev rs" "i < length rs"
  shows "au_prev_hash (rs ! i) = head_hash prev (take i rs)"
    "au_hash (rs ! i) = H (link_input (au_prev_hash (rs ! i)) (rs ! i))"
proof -
  have "linked H prev (take i rs @ rs ! i # drop (Suc i) rs)" using assms by (simp add: id_take_nth_drop [symmetric])
  then show "au_prev_hash (rs ! i) = head_hash prev (take i rs)"
      "au_hash (rs ! i) = H (link_input (au_prev_hash (rs ! i)) (rs ! i))"
    by (auto simp: linked_append compute_hash_def)
qed

lemma linked_head_length:
  assumes "\<And>x. length (H x) = 64" "linked H prev rs" "rs \<noteq> []"
  shows "length (head_hash prev rs) = 64"
  using assms(2,3) by (cases rs rule: rev_cases) (auto simp: linked_append compute_hash_def assms(1))

lemma linked_same_content:
  assumes "\<And>x. length (H x) = 64" "length rs = length qs" "linked H anchor rs" "linked H anchor qs"
    and "head_hash anchor rs = head_hash anchor qs" "\<forall>r \<in> set rs. record_ok r" "\<forall>q \<in> set qs. record_ok q"
    and "\<forall>i < length rs. H (link_input (au_prev_hash (rs ! i)) (rs ! i)) = H (link_input (au_prev_hash (qs ! i)) (qs ! i)) \<longrightarrow>
      link_input (au_prev_hash (rs ! i)) (rs ! i) = link_input (au_prev_hash (qs ! i)) (qs ! i)"
  shows "list_all2 same_content rs qs"
  using assms(2-)
proof (induction rs arbitrary: qs rule: rev_induct)
  case (snoc r rs)
  obtain qs' q where qs: "qs = qs' @ [q]" using snoc.prems(1) by (cases qs rule: rev_cases) auto
  have len: "length rs = length qs'" using snoc.prems(1) qs by simp
  have lr: "linked H anchor rs" "au_prev_hash r = head_hash anchor rs" "au_hash r = H (link_input (au_prev_hash r) r)"
    and lq: "linked H anchor qs'" "au_prev_hash q = head_hash anchor qs'" "au_hash q = H (link_input (au_prev_hash q) q)"
    using snoc.prems(2,3) qs by (auto simp: linked_append compute_hash_def)
  have "H (link_input (au_prev_hash r) r) = H (link_input (au_prev_hash q) q)"
    using snoc.prems(4) qs lr(3) lq(3) by simp
  then have inp: "link_input (au_prev_hash r) r = link_input (au_prev_hash q) q"
    using snoc.prems(7) [rule_format, of "length rs"] qs len by (simp add: nth_append)
  have "length (au_prev_hash r) = length (au_prev_hash q)"
  proof (cases "rs = []")
    case True
    then show ?thesis using lr(2) lq(2) len by simp
  next
    case False
    moreover from this have "qs' \<noteq> []" using len by auto
    ultimately show ?thesis
      using linked_head_length [OF assms(1) lr(1)] linked_head_length [OF assms(1) lq(1)] lr(2) lq(2) by simp
  qed
  with inp have prev: "au_prev_hash r = au_prev_hash q" and can: "canonical r = canonical q"
    by (simp_all add: link_input_def)
  have "list_all2 same_content rs qs'"
  proof (rule snoc.IH [OF len lr(1) lq(1)])
    show "head_hash anchor rs = head_hash anchor qs'" using prev lr(2) lq(2) by simp
    show "\<forall>i < length rs. H (link_input (au_prev_hash (rs ! i)) (rs ! i)) = H (link_input (au_prev_hash (qs' ! i)) (qs' ! i)) \<longrightarrow>
        link_input (au_prev_hash (rs ! i)) (rs ! i) = link_input (au_prev_hash (qs' ! i)) (qs' ! i)"
    proof (intro allI impI)
      fix i
      assume i: "i < length rs"
        and eq: "H (link_input (au_prev_hash (rs ! i)) (rs ! i)) = H (link_input (au_prev_hash (qs' ! i)) (qs' ! i))"
      from snoc.prems(7) [rule_format, of i] i eq len qs
      show "link_input (au_prev_hash (rs ! i)) (rs ! i) = link_input (au_prev_hash (qs' ! i)) (qs' ! i)"
        by (simp add: nth_append)
    qed
  qed (use snoc.prems(5,6) qs in simp_all)
  moreover have "same_content r q"
    by (rule canonical_inj [OF can]) (use snoc.prems(5,6) qs in simp_all)
  ultimately show ?case using qs len by (simp add: list_all2_append)
qed simp

lemma canonical_tenant [simp]: "canonical (r\<lparr>au_tenant_id := t\<rparr>) = canonical r"
  by (simp add: canonical_def)

lemma verify_at:
  assumes "linked H anchor xs"
  shows "chain_verify H (xs @ q # ys) anchor = Some (length xs) \<longleftrightarrow>
    \<not> (au_prev_hash q = head_hash anchor xs \<and> au_hash q = H (link_input (head_hash anchor xs) q))"
proof -
  have later: "verify_from H (Suc n) prev rs \<noteq> Some n" for n prev rs
  proof -
    have "verify_from H m prev rs = Some k \<Longrightarrow> m \<le> k" for m k
      by (induction H m prev rs rule: verify_from.induct) (auto split: if_splits)
    then show ?thesis by fastforce
  qed
  show ?thesis
    using verify_from_append [OF assms, of 0 "q # ys"] later
    by (auto simp: chain_verify_def compute_hash_def)
qed

section \<open>Operations on the log\<close>

definition audit_ok :: "(string \<Rightarrow> string) \<Rightarrow> audit_log \<Rightarrow> bool" where
  "audit_ok H l = (linked H (al_anchor l) (al_records l) \<and> 0 \<le> al_sequence l - int (length (al_records l)) \<and>
     map au_sequence (al_records l) = map (\<lambda>i. al_sequence l - int (length (al_records l)) + int i) [0..<length (al_records l)])"

lemma audit_verify_linked: "audit_verify H l = linked H (al_anchor l) (al_records l)"
  by (simp add: audit_verify_def chain_verify_linked)

lemma audit_append_cases:
  assumes "audit_append H now actor action subject detail ctx l = Inr (r, l')"
  shows "al_records l' = al_records l @ [r]" "al_anchor l' = al_anchor l" "al_sequence l' = al_sequence l + 1"
    "au_sequence r = al_sequence l" "au_actor r = actor" "au_action r = action" "au_subject r = subject"
    "au_detail r = detail" "au_tenant_id r = tc_tenant_id ctx" "au_created_at r = now"
    "au_prev_hash r = head_hash (al_anchor l) (al_records l)"
    "au_hash r = compute_hash H (head_hash (al_anchor l) (al_records l)) r"
  using assms
  by (auto simp: audit_append_def Let_def head_hash_def compute_hash_def link_input_def canonical_def split: if_splits)

lemma audit_append_total:
  "audit_fields_ok actor action subject ctx \<Longrightarrow> \<exists>r l'. audit_append H now actor action subject detail ctx l = Inr (r, l')"
  by (auto simp: audit_append_def Let_def)

lemma audit_ok_new: "audit_ok H new_audit_log"
  by (simp add: audit_ok_def new_audit_log_def)

lemma audit_ok_append:
  assumes "audit_ok H l" "audit_append H now actor action subject detail ctx l = Inr (r, l')"
  shows "audit_ok H l'"
  using assms(1) audit_append_cases [OF assms(2)] by (simp add: audit_ok_def linked_append)

lemma prune_from_split:
  "prune_from before protect anchor rs d = (d', anchor', rs') \<Longrightarrow>
     \<exists>xs. rs = xs @ rs' \<and> anchor' = head_hash anchor xs \<and> d' = d + length xs"
proof (induction before protect anchor rs d rule: prune_from.induct)
  case (2 before protect anchor head rest deleted)
  let ?stop = "au_created_at head \<ge> before \<or> (case protect of None \<Rightarrow> False | Some p \<Rightarrow> p head)"
  show ?case
  proof (cases ?stop)
    case True
    then show ?thesis using 2(2) by (intro exI [of _ "[]"]) (auto split: if_splits)
  next
    case False
    then obtain xs where "rest = xs @ rs' \<and> anchor' = head_hash (au_hash head) xs \<and> d' = Suc deleted + length xs"
      using 2 by auto
    then show ?thesis by (intro exI [of _ "head # xs"]) simp
  qed
qed simp

lemma audit_ok_prune:
  assumes "audit_ok H l"
  shows "audit_ok H (snd (audit_prune before protect ctx l))"
proof -
  obtain d a rs where p: "prune_from before protect (al_anchor l) (al_records l) 0 = (d, a, rs)"
    by (cases "prune_from before protect (al_anchor l) (al_records l) 0")
  obtain xs where xs: "al_records l = xs @ rs" "a = head_hash (al_anchor l) xs" using prune_from_split [OF p] by blast
  have pr: "snd (audit_prune before protect ctx l) = l\<lparr>al_records := rs, al_anchor := a\<rparr>"
    by (simp add: audit_prune_def p)
  let ?n = "al_sequence l - int (length (al_records l))"
  have "map au_sequence rs = drop (length xs) (map (\<lambda>i. ?n + int i) [0..<length (al_records l)])"
    using assms xs(1) by (metis audit_ok_def append_eq_conv_conj drop_map)
  also have "\<dots> = map (\<lambda>i. ?n + int i) [length xs..<length xs + length rs]" using xs(1) by (simp add: drop_map)
  also have "\<dots> = map (\<lambda>i. al_sequence l - int (length rs) + int i) [0..<length rs]"
    using xs(1) by (intro nth_equalityI) simp_all
  finally show ?thesis
    using assms xs unfolding pr by (simp add: audit_ok_def linked_append)
qed

section \<open>The contract of an audit backend\<close>

text \<open>
  What a client of the \<open>AuditLog\<close> protocol relies on: an append with valid fields succeeds, adds
  one record with the given actor, action, subject and tenant, keeps the records before it, and
  keeps the chain intact.
\<close>

type_synonym audit_call = "time \<times> string \<times> string \<times> string \<times> string option \<times> tenant_context"

locale audit_backend =
  fixes append :: "time \<Rightarrow> string \<Rightarrow> string \<Rightarrow> string \<Rightarrow> string option \<Rightarrow> tenant_context \<Rightarrow> 'l \<Rightarrow> audit_error + (audit_record \<times> 'l)"
    and entries :: "'l \<Rightarrow> audit_record list"
    and intact :: "'l \<Rightarrow> bool"
    and stored :: "string option \<Rightarrow> string option"
  assumes append_intact: "intact l \<Longrightarrow> append now actor action subject detail ctx l = Inr (r, l') \<Longrightarrow> intact l'"
    and append_entries: "append now actor action subject detail ctx l = Inr (r, l') \<Longrightarrow>
      entries l' = entries l @ [r] \<and> au_actor r = actor \<and> au_action r = action \<and> au_subject r = subject \<and>
      au_detail r = stored detail \<and> au_tenant_id r = tc_tenant_id ctx \<and> au_created_at r = now"
    and append_total: "audit_fields_ok actor action subject ctx \<Longrightarrow>
      \<exists>r l'. append now actor action subject detail ctx l = Inr (r, l')"
begin

text \<open>A sequence of calls; a call that raises leaves the log as it was.\<close>

fun calls :: "audit_call list \<Rightarrow> 'l \<Rightarrow> 'l" where
  "calls [] l = l"
| "calls ((now, actor, action, subject, detail, ctx) # cs) l =
     (case append now actor action subject detail ctx l of Inl e \<Rightarrow> calls cs l | Inr (r, l') \<Rightarrow> calls cs l')"

lemma calls_intact: "intact l \<Longrightarrow> intact (calls cs l)"
  by (induction cs l rule: calls.induct) (auto split: sum.split, metis append_intact)

lemma calls_entries:
  "\<exists>rs. entries (calls cs l) = entries l @ rs \<and> (\<forall>r \<in> set rs. \<exists>d. au_detail r = stored d) \<and> length rs \<le> length cs"
proof (induction cs l rule: calls.induct)
  case (2 now actor action subject detail ctx cs l)
  show ?case
  proof (cases "append now actor action subject detail ctx l")
    case (Inl e)
    then show ?thesis using 2(1) [OF Inl] by (auto intro: le_SucI)
  next
    case (Inr p)
    obtain r l' where p: "p = (r, l')" by (cases p)
    obtain rs where "entries (calls cs l') = entries l' @ rs" "\<forall>r \<in> set rs. \<exists>d. au_detail r = stored d" "length rs \<le> length cs"
      using 2(2) [OF Inr p [symmetric]] by (auto simp: p)
    with append_entries [OF Inr [unfolded p]] show ?thesis
      by (intro exI [of _ "r # rs"]) (auto simp: Inr p)
  qed
qed simp

end

interpretation memory_log: audit_backend "audit_append H" al_records "audit_ok H" id for H
  by unfold_locales (auto intro: audit_ok_append dest: audit_append_cases audit_append_total)

interpretation scrubbing_log: audit_backend "scrub_append scrub H" al_records "audit_ok H" "map_option scrub" for scrub H
  by unfold_locales (auto simp: scrub_append_def intro: audit_ok_append dest: audit_append_cases audit_append_total)

section \<open>Properties\<close>

text \<open>The operations of the log in any order.\<close>

datatype audit_op =
    OpAppend time string string string "string option" tenant_context
  | OpPrune time "(audit_record \<Rightarrow> bool) option" tenant_context

fun audit_step :: "(string \<Rightarrow> string) \<Rightarrow> audit_op \<Rightarrow> audit_log \<Rightarrow> audit_log" where
  "audit_step H (OpAppend now actor action subject detail ctx) l =
     (case audit_append H now actor action subject detail ctx l of Inl e \<Rightarrow> l | Inr (r, l') \<Rightarrow> l')"
| "audit_step H (OpPrune before protect ctx) l = snd (audit_prune before protect ctx l)"

lemma audit_step_ok: "audit_ok H l \<Longrightarrow> audit_ok H (audit_step H op l)"
  by (cases op) (auto intro: audit_ok_append audit_ok_prune split: sum.split)

lemma audit_steps_ok: "audit_ok H l \<Longrightarrow> audit_ok H (fold (audit_step H) ops l)"
  by (induction ops arbitrary: l) (simp_all add: audit_step_ok)

text \<open>
  C12: whatever appends and prunings are performed, in whatever order and by whichever tenants, the
  log verifies, and its records are numbered without gaps up to the number of records appended.
\<close>

theorem audit_log_verifies:
  "audit_verify H (fold (audit_step H) ops new_audit_log) \<and>
   (let l = fold (audit_step H) ops new_audit_log in
      map au_sequence (al_records l) =
        map (\<lambda>i. al_sequence l - int (length (al_records l)) + int i) [0..<length (al_records l)])"
  using audit_steps_ok [OF audit_ok_new, of H ops] by (simp add: audit_ok_def audit_verify_linked Let_def)

text \<open>
  C13: the head of the chain binds the whole history. Two chains of the same length that both verify
  from one anchor and end in the same hash have the same content record by record, in every field
  the hash covers, or there is a record whose two hash inputs differ and collide. The only thing
  used of the digest is that it has 64 characters.
\<close>

theorem chain_binds_history:
  assumes "chain_verify H rs anchor = None" "chain_verify H qs anchor = None" "length rs = length qs"
    and "head_hash anchor rs = head_hash anchor qs"
    and "\<forall>r \<in> set rs. record_ok r" "\<forall>q \<in> set qs. record_ok q" "\<And>x. length (H x) = 64"
  shows "list_all2 same_content rs qs \<or>
    (\<exists>i < length rs. link_input (au_prev_hash (rs ! i)) (rs ! i) \<noteq> link_input (au_prev_hash (qs ! i)) (qs ! i) \<and>
       H (link_input (au_prev_hash (rs ! i)) (rs ! i)) = H (link_input (au_prev_hash (qs ! i)) (qs ! i)))"
proof -
  have l: "linked H anchor rs" "linked H anchor qs" using assms(1,2) by (simp_all add: chain_verify_linked)
  show ?thesis
    using linked_same_content [OF assms(7,3) l assms(4-6)] by blast
qed

definition sha_example :: "string \<Rightarrow> string" where
  "sha_example x = take 64 (rev x @ NULL_HASH)"

definition example_chain :: "audit_record list" where
  "example_chain = al_records (fold (audit_step sha_example)
     [OpAppend 86400000000 ''ann'' ''run.create'' ''run_1'' (Some ''ok'') DEFAULT_CONTEXT,
      OpAppend 86400000001 ''ann'' ''run.stop'' ''run_1'' None DEFAULT_CONTEXT] new_audit_log)"

lemma sha_example_length: "length (sha_example x) = 64"
  by (simp add: sha_example_def NULL_HASH_def)

lemma example_chain_verifies: "chain_verify sha_example example_chain NULL_HASH = None"
proof -
  have "linked sha_example NULL_HASH example_chain"
    using audit_steps_ok [OF audit_ok_new, of sha_example
      "[OpAppend 86400000000 ''ann'' ''run.create'' ''run_1'' (Some ''ok'') DEFAULT_CONTEXT,
        OpAppend 86400000001 ''ann'' ''run.stop'' ''run_1'' None DEFAULT_CONTEXT]"]
    by (simp add: audit_ok_def example_chain_def audit_append_def Let_def audit_fields_ok_def DEFAULT_CONTEXT_def
      DEFAULT_TENANT_ID_def new_audit_log_def)
  then show ?thesis by (simp add: chain_verify_linked)
qed

lemma example_chain_fields:
  "length example_chain = 2" "\<forall>r \<in> set example_chain. record_ok r"
  "au_action (example_chain ! 0) = ''run.create''"
  by (simp_all add: example_chain_def audit_append_def Let_def audit_fields_ok_def DEFAULT_CONTEXT_def
      DEFAULT_TENANT_ID_def new_audit_log_def record_ok_def date_of_def
      microseconds_per_day_def)

theorem chain_binds_history_witness:
  "list_all2 same_content example_chain example_chain"
  using chain_binds_history [OF example_chain_verifies example_chain_verifies refl refl
      example_chain_fields(2) example_chain_fields(2) sha_example_length]
  by auto

text \<open>
  What verification cannot see. Cutting records off the end of a chain that verifies leaves a
  chain that verifies, and so does moving a record to another tenant, since the tenant is not hashed.
\<close>

theorem verification_blind_spots:
  assumes "chain_verify H rs anchor = None"
  shows "chain_verify H (take k rs) anchor = None \<and>
    (i < length rs \<longrightarrow> chain_verify H (rs[i := (rs ! i)\<lparr>au_tenant_id := t\<rparr>]) anchor = None)"
proof (intro conjI impI)
  have l: "linked H anchor rs" using assms by (simp add: chain_verify_linked)
  then show "chain_verify H (take k rs) anchor = None"
    using linked_append [of H anchor "take k rs" "drop k rs"] by (simp add: chain_verify_linked)
  assume i: "i < length rs"
  have "linked H anchor (take i rs @ rs ! i # drop (Suc i) rs)" using l i by (simp add: id_take_nth_drop [symmetric])
  then show "chain_verify H (rs[i := (rs ! i)\<lparr>au_tenant_id := t\<rparr>]) anchor = None"
    using i by (auto simp: upd_conv_take_nth_drop chain_verify_linked linked_append compute_hash_def link_input_def)
qed

theorem verification_blind_spots_witness:
  "chain_verify sha_example (take 1 example_chain) NULL_HASH = None \<and>
   chain_verify sha_example (example_chain[0 := (example_chain ! 0)\<lparr>au_tenant_id := ''acme''\<rparr>]) NULL_HASH = None"
  using verification_blind_spots [OF example_chain_verifies, of 1 0 "''acme''"] example_chain_fields(1) by simp

text \<open>
  C14: where verification reports an edit, a deletion or a swap. Let a chain verify. Editing a hashed
  field of record i, that is any field but the tenant, while keeping its two hashes is reported at i, unless the two hash
  inputs collide. Editing the tenant of record i is not reported, since the tenant is not hashed.
  Replacing record i by the record after it, as a deletion or a swap of neighbours does, is reported
  at i, unless the hash of record i equals the hash before it.
\<close>

theorem tampering_located:
  assumes "chain_verify H rs anchor = None" "i < length rs" "record_ok (rs ! i)"
  shows "(record_ok q \<and> au_prev_hash q = au_prev_hash (rs ! i) \<and> au_hash q = au_hash (rs ! i) \<and> \<not> same_content (rs ! i) q \<longrightarrow>
      chain_verify H (rs[i := q]) anchor = Some i \<or>
      (let prev = au_prev_hash (rs ! i) in link_input prev (rs ! i) \<noteq> link_input prev q \<and>
         H (link_input prev (rs ! i)) = H (link_input prev q))) \<and>
    (Suc i < length rs \<longrightarrow> chain_verify H (take i rs @ rs ! Suc i # rest) anchor = Some i \<or>
      au_hash (rs ! i) = au_prev_hash (rs ! i)) \<and>
    chain_verify H (rs[i := (rs ! i)\<lparr>au_tenant_id := t\<rparr>]) anchor = None"
proof (intro conjI impI)
  show "chain_verify H (rs[i := (rs ! i)\<lparr>au_tenant_id := t\<rparr>]) anchor = None"
    using verification_blind_spots [OF assms(1), of k i t] assms(2) by blast
  have l: "linked H anchor rs" using assms(1) by (simp add: chain_verify_linked)
  have pre: "linked H anchor (take i rs)" using l linked_append [of H anchor "take i rs" "drop i rs"] by simp
  have len: "length (take i rs) = i" using assms(2) by simp
  note nth = linked_nth [OF l]
  {
    assume q: "record_ok q \<and> au_prev_hash q = au_prev_hash (rs ! i) \<and> au_hash q = au_hash (rs ! i) \<and> \<not> same_content (rs ! i) q"
    have "link_input (au_prev_hash (rs ! i)) (rs ! i) \<noteq> link_input (au_prev_hash (rs ! i)) q"
      using canonical_inj [of "rs ! i" q] assms(3) q by (auto simp: link_input_def)
    then show "chain_verify H (rs[i := q]) anchor = Some i \<or>
        (let prev = au_prev_hash (rs ! i) in link_input prev (rs ! i) \<noteq> link_input prev q \<and>
           H (link_input prev (rs ! i)) = H (link_input prev q))"
      using verify_at [OF pre, of q "drop (Suc i) rs"] nth [OF assms(2)] q assms(2) len
      by (auto simp: Let_def upd_conv_take_nth_drop)
  }
  assume i: "Suc i < length rs"
  have "au_prev_hash (rs ! Suc i) = au_hash (rs ! i)"
    using nth(1) [OF i] assms(2) by (simp add: take_Suc_conv_app_nth)
  then show "chain_verify H (take i rs @ rs ! Suc i # rest) anchor = Some i \<or> au_hash (rs ! i) = au_prev_hash (rs ! i)"
    using verify_at [OF pre, of "rs ! Suc i" rest] nth(1) [OF assms(2)] len by auto
qed

theorem tampering_located_witness:
  "let q = (example_chain ! 0)\<lparr>au_action := ''run.stop''\<rparr> in
     chain_verify sha_example (example_chain[0 := q]) NULL_HASH = Some 0 \<or>
     sha_example (link_input (au_prev_hash (example_chain ! 0)) (example_chain ! 0)) =
     sha_example (link_input (au_prev_hash (example_chain ! 0)) q)"
proof -
  let ?q = "(example_chain ! 0)\<lparr>au_action := ''run.stop''\<rparr>"
  have ok: "record_ok (example_chain ! 0)" using example_chain_fields(1,2) by simp
  then have "record_ok ?q" by (simp add: record_ok_def)
  moreover have "\<not> same_content (example_chain ! 0) ?q" by (simp add: same_content_def example_chain_fields(3))
  ultimately show ?thesis
    using tampering_located [OF example_chain_verifies, of 0 ?q "[]" "''acme''"] ok example_chain_fields(1)
    by (auto simp: Let_def)
qed

end
