(* ===== verification/Approvals.thy ===== *)
theory Approvals
  imports Core_Model Audit_Log "HOL-Library.Sublist"
begin

text \<open>
  Human approvals (\<open>policy/approvals.py\<close> over the in-memory store of \<open>policy/store.py\<close>) and
  the tool kill switch (\<open>policy/kill_switch.py\<close>). The event sink and the on-call escalation are
  code the services only notify: what is sent to them is recorded in the state, and whether they
  are bound is a flag. The kill switch is written over any audit backend; its audit trail is proved
  once for the contract and used through both interpretations of it.
\<close>

section \<open>The approval store\<close>

datatype approval_error =
    ApprovalNotFoundError string
  | ApprovalAlreadyDecidedError string
  | ApprovalValueError
  | ApprovalValidationError
  | ApprovalScopeError tenancy_error

type_synonym approval_store = "(string, approval_record) dict"

definition approval_save :: "approval_store \<Rightarrow> tenant_context \<Rightarrow> approval_record \<Rightarrow> approval_error + approval_store" where
  "approval_save st ctx r = (case require ctx (ap_tenant_id r) of
       Inl e \<Rightarrow> Inl (ApprovalScopeError e)
     | Inr _ \<Rightarrow> Inr (dict_put (ap_approval_id r) r st))"

definition approval_get :: "approval_store \<Rightarrow> tenant_context \<Rightarrow> string \<Rightarrow> approval_record option" where
  "approval_get st ctx approval_id = (case dict_get st approval_id of
       None \<Rightarrow> None
     | Some r \<Rightarrow> (if \<not> scopes ctx (ap_tenant_id r) then None else Some r))"

definition list_approvals ::
  "approval_store \<Rightarrow> tenant_context \<Rightarrow> approval_status option \<Rightarrow> string option \<Rightarrow> string option \<Rightarrow> approval_record list" where
  "list_approvals st ctx status workload run_id =
     sort_key ap_requested_at
       (filter (\<lambda>r. scopes ctx (ap_tenant_id r) \<and> (status = None \<or> Some (ap_status r) = status) \<and>
            (workload = None \<or> Some (ap_workload r) = workload) \<and> (run_id = None \<or> Some (ap_run_id r) = run_id))
          (dict_values st))"

section \<open>The approval service\<close>

record approval_service =
  av_store :: approval_store
  av_sink :: bool
  av_escalation :: bool
  av_events :: "(string \<times> approval_record \<times> time) list"
  av_pages :: "(string \<times> string) list"
  av_responses :: "string list"

type_synonym 'a approvals = "(approval_service, approval_error, 'a) exec"

definition approval_emit :: "time \<Rightarrow> string \<Rightarrow> approval_record \<Rightarrow> unit approvals" where
  "approval_emit now event_type r = bindE (getE av_sink) (\<lambda>bound.
     whenE bound (modifyE (\<lambda>s. s\<lparr>av_events := av_events s @ [(event_type, r, now)]\<rparr>)))"

definition approval_store_save :: "approval_record \<Rightarrow> tenant_context \<Rightarrow> unit approvals" where
  "approval_store_save r ctx = bindE (getE av_store) (\<lambda>st. bindE (liftE (approval_save st ctx r)) (\<lambda>st'.
     modifyE (\<lambda>s. s\<lparr>av_store := st'\<rparr>)))"

text \<open>The constraints of the record's fields, checked when it is built.\<close>

definition approval_valid :: "approval_record \<Rightarrow> bool" where
  "approval_valid r = (ap_approval_id r \<noteq> [] \<and> ap_run_id r \<noteq> [] \<and> ap_workload r \<noteq> [] \<and> ap_rule r \<noteq> [] \<and>
     ap_reason r \<noteq> [] \<and> ap_tenant_id r \<noteq> [] \<and> length (ap_tenant_id r) \<le> 64)"

definition approval_scope :: "tenant_context option \<Rightarrow> string option \<Rightarrow> tenant_context" where
  "approval_scope ctx tenant_id = (case ctx of
       Some c \<Rightarrow> c
     | None \<Rightarrow> (if truthy tenant_id then context_for_run (the tenant_id) None None else DEFAULT_CONTEXT))"

definition approval_request ::
  "string \<Rightarrow> time \<Rightarrow> time \<Rightarrow> string \<Rightarrow> string \<Rightarrow> string \<Rightarrow> string \<Rightarrow> action_class option \<Rightarrow> string option \<Rightarrow> string option \<Rightarrow>
   tenant_context option \<Rightarrow> approval_record approvals" where
  "approval_request new_id now event_now run_id workload rule reason cls tool_id tenant_id ctx =
     (let scope = approval_scope ctx tenant_id;
          r = \<lparr>ap_approval_id = new_id, ap_run_id = run_id, ap_workload = workload, ap_rule = rule,
            ap_reason = reason, ap_action_class = cls, ap_tool_id = tool_id, ap_requested_at = now,
            ap_status = APPROVAL_PENDING, ap_decided_at = None, ap_decided_by = None, ap_decision_reason = None,
            ap_delegated_to = None, ap_delegated_by = None, ap_comments = [], ap_tenant_id = tc_tenant_id scope\<rparr>
      in if \<not> approval_valid r then raiseE ApprovalValidationError
         else thenE (approval_store_save r scope)
           (thenE (approval_emit event_now ''approval.requested'' r)
           (bindE (getE av_escalation) (\<lambda>bound.
            thenE (whenE bound (modifyE (\<lambda>s. s\<lparr>av_pages := av_pages s @ [(ap_approval_id r, ap_tenant_id r)]\<rparr>)))
              (returnE r)))))"

definition approval_fetch :: "string \<Rightarrow> tenant_context \<Rightarrow> approval_record approvals" where
  "approval_fetch approval_id ctx = bindE (getE av_store) (\<lambda>st. case approval_get st ctx approval_id of
       None \<Rightarrow> raiseE (ApprovalNotFoundError approval_id)
     | Some r \<Rightarrow> returnE r)"

definition approval_list ::
  "approval_status option \<Rightarrow> string option \<Rightarrow> string option \<Rightarrow> tenant_context \<Rightarrow> approval_record list approvals" where
  "approval_list status workload run_id ctx = getE (\<lambda>s. list_approvals (av_store s) ctx status workload run_id)"

definition make_comment :: "string \<Rightarrow> string \<Rightarrow> time \<Rightarrow> approval_comment approvals" where
  "make_comment author txt now = (if author = [] \<or> txt = [] then raiseE ApprovalValidationError
     else returnE \<lparr>ac_author = author, ac_text = txt, ac_created_at = now\<rparr>)"

definition comment_approval :: "time \<Rightarrow> string \<Rightarrow> string \<Rightarrow> string \<Rightarrow> tenant_context \<Rightarrow> approval_record approvals" where
  "comment_approval now approval_id author txt ctx = bindE (approval_fetch approval_id ctx) (\<lambda>r.
     bindE (make_comment author txt now) (\<lambda>c.
     (let updated = r\<lparr>ap_comments := ap_comments r @ [c]\<rparr>
      in thenE (approval_store_save updated ctx) (returnE updated))))"

definition approval_delegate :: "time \<Rightarrow> string \<Rightarrow> string \<Rightarrow> string \<Rightarrow> tenant_context \<Rightarrow> approval_record approvals" where
  "approval_delegate now approval_id assignee operator ctx = bindE (approval_fetch approval_id ctx) (\<lambda>r.
     bindE (make_comment operator (''delegated to '' @ assignee) now) (\<lambda>c.
     (let updated = r\<lparr>ap_delegated_to := Some assignee, ap_delegated_by := Some operator,
            ap_comments := ap_comments r @ [c]\<rparr>
      in thenE (approval_store_save updated ctx) (returnE updated))))"

definition approval_decide ::
  "time \<Rightarrow> time \<Rightarrow> string \<Rightarrow> approval_status \<Rightarrow> string \<Rightarrow> string option \<Rightarrow> tenant_context \<Rightarrow> approval_record approvals" where
  "approval_decide now event_now approval_id status operator reason ctx =
     (if status = APPROVAL_PENDING then raiseE ApprovalValueError
      else bindE (approval_fetch approval_id ctx) (\<lambda>r.
        if ap_status r \<noteq> APPROVAL_PENDING then raiseE (ApprovalAlreadyDecidedError approval_id)
        else (let decided = r\<lparr>ap_status := status, ap_decided_at := Some now, ap_decided_by := Some operator,
                    ap_decision_reason := reason\<rparr>
              in thenE (approval_store_save decided ctx)
                (thenE (approval_emit event_now ''approval.resolved'' decided)
                (bindE (getE av_escalation) (\<lambda>bound.
                 thenE (whenE bound (modifyE (\<lambda>s. s\<lparr>av_responses := av_responses s @ [ap_approval_id decided]\<rparr>)))
                   (returnE decided)))))))"

section \<open>The kill switch\<close>

record kill_switch_record =
  ks_tool_id :: string
  ks_disabled :: bool
  ks_reason :: "string option"
  ks_actor :: string
  ks_changed_at :: time

type_synonym kill_store = "(string, kill_switch_record) dict"

definition kill_save :: "kill_store \<Rightarrow> kill_switch_record \<Rightarrow> kill_store" where
  "kill_save st r = dict_put (ks_tool_id r) r st"

definition kill_list :: "kill_store \<Rightarrow> kill_switch_record list" where
  "kill_list st = sort_key ks_tool_id (dict_values st)"

definition kill_clear :: "kill_store \<Rightarrow> kill_store" where
  "kill_clear st = []"

record 'l kill_switch =
  kw_store :: kill_store
  kw_audit :: "'l option"

datatype kill_error = KillValidationError | KillAuditError audit_error

text \<open>
  \<open>_set\<close>: the record is saved first, then the change is audited under the default tenant. The
  append of the bound audit log is an argument.
\<close>

definition kill_set ::
  "(time \<Rightarrow> string \<Rightarrow> string \<Rightarrow> string \<Rightarrow> string option \<Rightarrow> tenant_context \<Rightarrow> 'l \<Rightarrow> audit_error + (audit_record \<times> 'l)) \<Rightarrow>
   time \<Rightarrow> time \<Rightarrow> string \<Rightarrow> bool \<Rightarrow> string \<Rightarrow> string option \<Rightarrow> ('l kill_switch, kill_error, kill_switch_record) exec" where
  "kill_set append_entry now audit_now tool_id disabled actor reason =
     (let r = \<lparr>ks_tool_id = tool_id, ks_disabled = disabled, ks_reason = reason, ks_actor = actor, ks_changed_at = now\<rparr>
      in if tool_id = [] \<or> actor = [] then raiseE KillValidationError
         else thenE (modifyE (\<lambda>s. s\<lparr>kw_store := kill_save (kw_store s) r\<rparr>))
           (bindE (getE kw_audit) (\<lambda>audit. case audit of
                None \<Rightarrow> returnE r
              | Some l \<Rightarrow>
                  (case append_entry audit_now actor (if disabled then ''tool.disabled'' else ''tool.enabled'') tool_id
                       (Some (str_or reason ''kill switch'')) DEFAULT_CONTEXT l of
                     Inl e \<Rightarrow> raiseE (KillAuditError e)
                   | Inr (_, l') \<Rightarrow> thenE (modifyE (\<lambda>s. s\<lparr>kw_audit := Some l'\<rparr>)) (returnE r)))))"

definition bind_audit :: "'l \<Rightarrow> 'l kill_switch \<Rightarrow> 'l kill_switch" where
  "bind_audit l s = s\<lparr>kw_audit := Some l\<rparr>"

definition kill_disable where
  "kill_disable append_entry now audit_now tool_id actor reason = kill_set append_entry now audit_now tool_id True actor reason"

definition kill_enable where
  "kill_enable append_entry now audit_now tool_id actor = kill_set append_entry now audit_now tool_id False actor None"

definition is_disabled :: "'l kill_switch \<Rightarrow> string \<Rightarrow> bool" where
  "is_disabled s tool_id = (case dict_get (kw_store s) tool_id of None \<Rightarrow> False | Some r \<Rightarrow> ks_disabled r)"

definition disabled_tools :: "'l kill_switch \<Rightarrow> string list" where
  "disabled_tools s = map ks_tool_id (filter ks_disabled (kill_list (kw_store s)))"

section \<open>Histories of approval operations\<close>

definition approval_store_ok :: "approval_store \<Rightarrow> bool" where
  "approval_store_ok st = (\<forall>(k, r) \<in> set st. ap_approval_id r = k)"

lemma approval_store_okD: "approval_store_ok st \<Longrightarrow> dict_get st k = Some r \<Longrightarrow> ap_approval_id r = k"
  by (auto simp: approval_store_ok_def dest: map_of_SomeD)

lemma approval_store_ok_put:
  assumes "approval_store_ok st"
  shows "approval_store_ok (dict_put (ap_approval_id r) r st)"
proof -
  have "set (dict_put k r st) \<subseteq> insert (k, r) (set st)" for k
    by (induction st) auto
  from this [of "ap_approval_id r"] show ?thesis using assms by (fastforce simp: approval_store_ok_def)
qed

text \<open>
  A later version of a record: what was requested is unchanged, comments are only added, and a
  decision is final.
\<close>

definition approval_later :: "approval_record \<Rightarrow> approval_record \<Rightarrow> bool" where
  "approval_later r r' = (ap_approval_id r' = ap_approval_id r \<and> ap_run_id r' = ap_run_id r \<and>
     ap_workload r' = ap_workload r \<and> ap_rule r' = ap_rule r \<and> ap_reason r' = ap_reason r \<and>
     ap_action_class r' = ap_action_class r \<and> ap_tool_id r' = ap_tool_id r \<and>
     ap_requested_at r' = ap_requested_at r \<and> ap_tenant_id r' = ap_tenant_id r \<and>
     prefix (ap_comments r) (ap_comments r') \<and>
     (ap_status r \<noteq> APPROVAL_PENDING \<longrightarrow> ap_status r' = ap_status r \<and> ap_decided_at r' = ap_decided_at r \<and>
        ap_decided_by r' = ap_decided_by r \<and> ap_decision_reason r' = ap_decision_reason r))"

lemma approval_later_refl [simp]: "approval_later r r"
  by (simp add: approval_later_def)

lemma approval_later_trans: "approval_later a b \<Longrightarrow> approval_later b c \<Longrightarrow> approval_later a c"
  by (auto simp: approval_later_def dest: prefix_order.trans)

text \<open>What one operation does to the store: it adds a new record or replaces one it can see by a later version.\<close>

definition store_move :: "tenant_context \<Rightarrow> approval_store \<Rightarrow> approval_store \<Rightarrow> bool" where
  "store_move ctx st st' = (st' = st \<or>
     (\<exists>r. st' = dict_put (ap_approval_id r) r st \<and> scopes ctx (ap_tenant_id r) \<and>
        (dict_get st (ap_approval_id r) = None \<or>
         (\<exists>r0. dict_get st (ap_approval_id r) = Some r0 \<and> approval_later r0 r))))"

lemma approval_getD: "approval_get st ctx k = Some r \<Longrightarrow> dict_get st k = Some r \<and> scopes ctx (ap_tenant_id r)"
  by (auto simp: approval_get_def split: option.splits if_splits)

lemma store_move_update:
  assumes "approval_store_ok st" "approval_get st ctx k = Some r" "approval_later r r'"
  shows "store_move ctx st (dict_put (ap_approval_id r) r' st)"
proof -
  note g = approval_getD [OF assms(2)]
  have "ap_approval_id r = k" "ap_approval_id r' = k" "ap_tenant_id r' = ap_tenant_id r"
    using approval_store_okD [OF assms(1)] g assms(3) by (auto simp: approval_later_def)
  then show ?thesis using g assms(3) by (auto simp: store_move_def)
qed

lemma wp_approval_save [wps]:
  "wp (approval_store_save r ctx) Q E s =
     (if scopes ctx (ap_tenant_id r) then Q () (s\<lparr>av_store := dict_put (ap_approval_id r) r (av_store s)\<rparr>)
      else E (ApprovalScopeError (TenantScopeError (tc_tenant_id ctx)
        (''cannot access tenant '' @ py_repr (ap_tenant_id r)))) s)"
  by (simp add: approval_store_save_def approval_save_def require_def wps)

lemma wp_approval_emit [wps]:
  "wp (approval_emit now t r) Q E s =
     Q () (if av_sink s then s\<lparr>av_events := av_events s @ [(t, r, now)]\<rparr> else s)"
  by (simp add: approval_emit_def wps)

lemma wp_approval_fetch [wps]:
  "wp (approval_fetch k ctx) Q E s =
     (case approval_get (av_store s) ctx k of None \<Rightarrow> E (ApprovalNotFoundError k) s | Some r \<Rightarrow> Q r s)"
  by (simp add: approval_fetch_def wps split: option.split)

lemma wp_make_comment [wps]:
  "wp (make_comment author txt now) Q E s =
     (if author = [] \<or> txt = [] then E ApprovalValidationError s
      else Q \<lparr>ac_author = author, ac_text = txt, ac_created_at = now\<rparr> s)"
  by (simp add: make_comment_def wps)

abbreviation moves :: "tenant_context \<Rightarrow> 'a approvals \<Rightarrow> approval_service \<Rightarrow> bool" where
  "moves ctx m s \<equiv> wp m (\<lambda>_ t. store_move ctx (av_store s) (av_store t)) (\<lambda>_ t. av_store t = av_store s) s"

lemma request_moves:
  assumes "dict_get (av_store s) new_id = None"
  shows "moves (approval_scope ctx tenant_id) (approval_request new_id now event_now run_id workload rule reason cls tool_id tenant_id ctx) s"
proof -
  let ?r = "\<lparr>ap_approval_id = new_id, ap_run_id = run_id, ap_workload = workload, ap_rule = rule,
    ap_reason = reason, ap_action_class = cls, ap_tool_id = tool_id, ap_requested_at = now,
    ap_status = APPROVAL_PENDING, ap_decided_at = None, ap_decided_by = None, ap_decision_reason = None,
    ap_delegated_to = None, ap_delegated_by = None, ap_comments = [], ap_tenant_id = tc_tenant_id (approval_scope ctx tenant_id)\<rparr>"
  have "store_move (approval_scope ctx tenant_id) (av_store s) (dict_put new_id ?r (av_store s))"
    unfolding store_move_def using assms by (intro disjI2 exI [of _ ?r]) (simp add: scopes_def)
  then show ?thesis by (simp add: approval_request_def Let_def wps)
qed

lemma comment_moves: "approval_store_ok (av_store s) \<Longrightarrow> moves ctx (comment_approval now k author txt ctx) s"
  by (auto simp: comment_approval_def Let_def wps approval_later_def split: option.split intro!: store_move_update)

lemma delegate_moves: "approval_store_ok (av_store s) \<Longrightarrow> moves ctx (approval_delegate now k assignee operator ctx) s"
  by (auto simp: approval_delegate_def Let_def wps approval_later_def split: option.split intro!: store_move_update)

lemma decide_moves: "approval_store_ok (av_store s) \<Longrightarrow> moves ctx (approval_decide now event_now k status operator reason ctx) s"
  by (auto simp: approval_decide_def Let_def wps approval_later_def split: option.split intro!: store_move_update)

lemma store_move_ok: "store_move ctx st st' \<Longrightarrow> approval_store_ok st \<Longrightarrow> approval_store_ok st'"
  by (auto simp: store_move_def intro: approval_store_ok_put)

lemma store_move_later:
  assumes "store_move ctx st st'" "dict_get st k = Some r"
  shows "\<exists>r'. dict_get st' k = Some r' \<and> approval_later r r' \<and> (r' \<noteq> r \<longrightarrow> scopes ctx (ap_tenant_id r))"
proof (cases "st' = st")
  case False
  then obtain q where q: "st' = dict_put (ap_approval_id q) q st" "scopes ctx (ap_tenant_id q)"
      "dict_get st (ap_approval_id q) = None \<or> (\<exists>r0. dict_get st (ap_approval_id q) = Some r0 \<and> approval_later r0 q)"
    using assms(1) by (auto simp: store_move_def)
  show ?thesis
  proof (cases "k = ap_approval_id q")
    case True
    then have "approval_later r q" using q(3) assms(2) by simp
    then show ?thesis using q(1,2) True by (auto simp: approval_later_def)
  qed (use q(1) assms(2) in simp)
qed (use assms in simp)

text \<open>One call under some context; the identifier of a request is not in use.\<close>

inductive approval_step :: "tenant_context \<Rightarrow> approval_service \<Rightarrow> approval_service \<Rightarrow> bool" where
  request: "dict_get (av_store s) new_id = None \<Longrightarrow>
    approval_request new_id now event_now run_id workload rule reason cls tool_id tenant_id ctx s = (res, t) \<Longrightarrow>
    approval_step (approval_scope ctx tenant_id) s t"
| comment: "comment_approval now k author txt ctx s = (res, t) \<Longrightarrow> approval_step ctx s t"
| delegate: "approval_delegate now k assignee operator ctx s = (res, t) \<Longrightarrow> approval_step ctx s t"
| decide: "approval_decide now event_now k status operator reason ctx s = (res, t) \<Longrightarrow> approval_step ctx s t"

lemma moves_result:
  assumes "moves ctx m s" "m s = (res, t)"
  shows "store_move ctx (av_store s) (av_store t)"
  using assms by (cases res) (auto simp: wp_def store_move_def)

lemma approval_step_moves:
  "approval_step ctx s t \<Longrightarrow> approval_store_ok (av_store s) \<Longrightarrow> store_move ctx (av_store s) (av_store t)"
  by (induction rule: approval_step.induct)
    (blast intro: moves_result request_moves comment_moves delegate_moves decide_moves)+

text \<open>A history of calls, each with the context it is made under.\<close>

inductive approval_history :: "tenant_context list \<Rightarrow> approval_service \<Rightarrow> approval_service \<Rightarrow> bool" where
  start: "approval_history [] s s"
| call: "approval_history ctxs s t \<Longrightarrow> approval_step ctx t u \<Longrightarrow> approval_history (ctxs @ [ctx]) s u"

lemma approval_history_later:
  assumes "approval_history ctxs s t" "approval_store_ok (av_store s)" "dict_get (av_store s) k = Some r"
  shows "approval_store_ok (av_store t) \<and>
    (\<exists>r'. dict_get (av_store t) k = Some r' \<and> approval_later r r' \<and>
       (r' \<noteq> r \<longrightarrow> (\<exists>ctx \<in> set ctxs. scopes ctx (ap_tenant_id r))))"
  using assms
proof (induction rule: approval_history.induct)
  case (call ctxs s t ctx u)
  obtain r' where r': "approval_store_ok (av_store t)" "dict_get (av_store t) k = Some r'" "approval_later r r'"
      "r' \<noteq> r \<longrightarrow> (\<exists>ctx \<in> set ctxs. scopes ctx (ap_tenant_id r))"
    using call.IH call.prems by blast
  note mv = approval_step_moves [OF call.hyps(2) r'(1)]
  obtain q where q: "dict_get (av_store u) k = Some q" "approval_later r' q" "q \<noteq> r' \<longrightarrow> scopes ctx (ap_tenant_id r')"
    using store_move_later [OF mv r'(2)] by blast
  have "ap_tenant_id r' = ap_tenant_id r" using r'(3) by (simp add: approval_later_def)
  then have "q \<noteq> r \<longrightarrow> (\<exists>ctx \<in> set (ctxs @ [ctx]). scopes ctx (ap_tenant_id r))"
    using q(3) r'(4) by auto
  then show ?case using q(1) approval_later_trans [OF r'(3) q(2)] store_move_ok [OF mv r'(1)] by blast
qed simp

section \<open>The audit trail of the kill switch\<close>

text \<open>Calls of the switch interleaved with entries that other services write to the same log.\<close>

datatype kill_op =
    KillSet time time string bool string "string option"
  | OtherEntry time string string string "string option" tenant_context

fun kill_step ::
  "(time \<Rightarrow> string \<Rightarrow> string \<Rightarrow> string \<Rightarrow> string option \<Rightarrow> tenant_context \<Rightarrow> 'l \<Rightarrow> audit_error + (audit_record \<times> 'l)) \<Rightarrow>
   kill_op \<Rightarrow> 'l kill_switch \<Rightarrow> 'l kill_switch" where
  "kill_step append_entry (KillSet now audit_now tool_id disabled actor reason) s =
     snd (kill_set append_entry now audit_now tool_id disabled actor reason s)"
| "kill_step append_entry (OtherEntry now actor action subject detail ctx) s = (case kw_audit s of
       None \<Rightarrow> s
     | Some l \<Rightarrow> (case append_entry now actor action subject detail ctx l of
           Inl e \<Rightarrow> s
         | Inr (_, l') \<Rightarrow> s\<lparr>kw_audit := Some l'\<rparr>))"

text \<open>The state of a tool as the audit trail tells it: its last switch entry.\<close>

definition is_switch_action :: "string \<Rightarrow> bool" where
  "is_switch_action a = (a = ''tool.disabled'' \<or> a = ''tool.enabled'')"

definition trail_disabled :: "audit_record list \<Rightarrow> string \<Rightarrow> bool" where
  "trail_disabled rs tool_id =
     (let es = filter (\<lambda>r. au_subject r = tool_id \<and> is_switch_action (au_action r)) rs
      in es \<noteq> [] \<and> au_action (last es) = ''tool.disabled'')"

fun foreign :: "kill_op \<Rightarrow> bool" where
  "foreign (KillSet _ _ _ _ _ _) = True"
| "foreign (OtherEntry _ _ action _ _ _) = (\<not> is_switch_action action)"

lemma trail_snoc:
  "trail_disabled (rs @ [r]) t =
     (if au_subject r = t \<and> is_switch_action (au_action r) then au_action r = ''tool.disabled'' else trail_disabled rs t)"
  by (simp add: trail_disabled_def Let_def)

lemma default_fields_ok: "actor \<noteq> [] \<Longrightarrow> action \<noteq> [] \<Longrightarrow> subject \<noteq> [] \<Longrightarrow> audit_fields_ok actor action subject DEFAULT_CONTEXT"
  by (simp add: audit_fields_ok_def DEFAULT_CONTEXT_def DEFAULT_TENANT_ID_def)

context audit_backend
begin

definition trail_agrees :: "'l kill_switch \<Rightarrow> bool" where
  "trail_agrees s = (\<exists>l. kw_audit s = Some l \<and> intact l \<and> (\<forall>t. is_disabled s t = trail_disabled (entries l) t))"

lemma kill_set_agrees:
  assumes "trail_agrees s"
  shows "trail_agrees (snd (kill_set append now audit_now tool_id disabled actor reason s))"
proof (cases "tool_id = [] \<or> actor = []")
  case False
  obtain l where l: "kw_audit s = Some l" "intact l" "\<And>t. is_disabled s t = trail_disabled (entries l) t"
    using assms by (auto simp: trail_agrees_def)
  let ?action = "if disabled then ''tool.disabled'' else ''tool.enabled''"
  obtain r l' where app: "append audit_now actor ?action tool_id (Some (str_or reason ''kill switch'')) DEFAULT_CONTEXT l = Inr (r, l')"
    using append_total default_fields_ok [of actor ?action tool_id] False by (metis list.distinct(1))
  let ?s = "snd (kill_set append now audit_now tool_id disabled actor reason s)"
  have s': "kw_audit ?s = Some l'" "\<And>t. is_disabled ?s t = (if t = tool_id then disabled else is_disabled s t)"
    using False l(1) app
    by (auto simp: kill_set_def kill_save_def is_disabled_def Let_def thenE_def bindE_def modifyE_def getE_def returnE_def)
  have "trail_disabled (entries l') t = (if t = tool_id then disabled else trail_disabled (entries l) t)" for t
    using append_entries [OF app] by (auto simp: trail_snoc is_switch_action_def)
  then show ?thesis using s' l(3) append_intact [OF l(2) app] by (auto simp: trail_agrees_def)
qed (use assms in \<open>simp add: kill_set_def raiseE_def Let_def\<close>)

lemma other_entry_agrees:
  assumes "trail_agrees s" "\<not> is_switch_action action"
  shows "trail_agrees (kill_step append (OtherEntry now actor action subject detail ctx) s)"
proof -
  obtain l where l: "kw_audit s = Some l" "intact l" "\<And>t. is_disabled s t = trail_disabled (entries l) t"
    using assms by (auto simp: trail_agrees_def)
  show ?thesis
  proof (cases "append now actor action subject detail ctx l")
    case (Inr p)
    obtain r l' where p: "p = (r, l')" by (cases p)
    have "trail_disabled (entries l') t = trail_disabled (entries l) t" for t
      using append_entries [OF Inr [unfolded p]] assms(2) by (auto simp: trail_snoc)
    then show ?thesis
      using l Inr p append_intact [OF l(2) Inr [unfolded p]] by (auto simp: trail_agrees_def is_disabled_def)
  qed (use assms l in simp)
qed

lemma kill_steps_agree:
  "trail_agrees s \<Longrightarrow> \<forall>op \<in> set ops. foreign op \<Longrightarrow> trail_agrees (fold (kill_step append) ops s)"
proof (induction ops arbitrary: s)
  case (Cons op ops)
  have "trail_agrees (kill_step append op s)"
    using Cons.prems kill_set_agrees other_entry_agrees by (cases op) auto
  then show ?case using Cons by simp
qed simp

end

section \<open>Properties\<close>

definition sample_approval :: approval_record where
  "sample_approval = \<lparr>ap_approval_id = ''ap-1'', ap_run_id = ''run-1'', ap_workload = ''triage'', ap_rule = ''approval.required'',
     ap_reason = ''destructive'', ap_action_class = None, ap_tool_id = Some ''mail'', ap_requested_at = 0,
     ap_status = APPROVAL_PENDING, ap_decided_at = None, ap_decided_by = None, ap_decision_reason = None,
     ap_delegated_to = None, ap_delegated_by = None, ap_comments = [], ap_tenant_id = ''default''\<rparr>"

definition sample_service :: approval_service where
  "sample_service = \<lparr>av_store = [(''ap-1'', sample_approval)], av_sink = True, av_escalation = True,
     av_events = [], av_pages = [], av_responses = []\<rparr>"

lemma sample_service_ok: "approval_store_ok (av_store sample_service)"
  by (simp add: approval_store_ok_def sample_service_def sample_approval_def)

text \<open>
  C15: an approval is decided at most once and its record is append-only. Whatever calls follow, in
  whatever contexts, a new request taking an id that is not in use (the code draws it at random), the record stays in the store, keeps what was requested, only gains comments,
  and once approved or denied keeps its status, time, operator and reason; it changes at all only
  if some call was made in a context that may see its tenant.
\<close>

theorem approvals_decided_once:
  assumes "approval_history ctxs s t" "approval_store_ok (av_store s)" "dict_get (av_store s) k = Some r"
  shows "\<exists>r'. dict_get (av_store t) k = Some r' \<and> approval_later r r' \<and>
    (r' \<noteq> r \<longrightarrow> (\<exists>ctx \<in> set ctxs. scopes ctx (ap_tenant_id r)))"
  using approval_history_later [OF assms] by blast

theorem approvals_decided_once_witness:
  "\<exists>r'. dict_get (av_store (snd (approval_decide 5 6 ''ap-1'' APPROVAL_DENIED ''ann'' None DEFAULT_CONTEXT sample_service))) ''ap-1'' = Some r' \<and>
     approval_later sample_approval r'"
proof -
  let ?t = "snd (approval_decide 5 6 ''ap-1'' APPROVAL_DENIED ''ann'' None DEFAULT_CONTEXT sample_service)"
  have "approval_step DEFAULT_CONTEXT sample_service ?t" by (rule approval_step.decide) (rule surjective_pairing)
  then have "approval_history ([] @ [DEFAULT_CONTEXT]) sample_service ?t" by (rule approval_history.call [OF approval_history.start])
  from approvals_decided_once [OF this sample_service_ok, of "''ap-1''" sample_approval] show ?thesis
    by (auto simp: sample_service_def)
qed

text \<open>
  C16: a decision succeeds exactly for a visible pending request and a final status. It then stores
  the decision and notifies the event sink and the on-call escalation if they are bound, and every
  later decision on it is refused; a refused decision changes nothing.
\<close>

theorem approval_decide_exact:
  assumes "approval_store_ok (av_store s)" "approval_decide now event_now k status operator reason ctx s = (res, t)"
  shows "((\<exists>d. res = Inr d) =
      (status \<noteq> APPROVAL_PENDING \<and> (\<exists>r. approval_get (av_store s) ctx k = Some r \<and> ap_status r = APPROVAL_PENDING))) \<and>
    (\<forall>e. res = Inl e \<longrightarrow> t = s) \<and>
    (\<forall>d. res = Inr d \<longrightarrow> approval_get (av_store t) ctx k = Some d \<and> ap_status d = status \<and>
       ap_decided_by d = Some operator \<and> ap_decided_at d = Some now \<and> ap_decision_reason d = reason \<and>
       av_events t = av_events s @ (if av_sink s then [(''approval.resolved'', d, event_now)] else []) \<and>
       av_responses t = av_responses s @ (if av_escalation s then [k] else []) \<and>
       (\<forall>now' event_now' status' operator' reason'. status' \<noteq> APPROVAL_PENDING \<longrightarrow>
          approval_decide now' event_now' k status' operator' reason' ctx t = (Inl (ApprovalAlreadyDecidedError k), t)))"
proof (cases "status \<noteq> APPROVAL_PENDING \<and> (\<exists>r. approval_get (av_store s) ctx k = Some r \<and> ap_status r = APPROVAL_PENDING)")
  case True
  then obtain r where r: "status \<noteq> APPROVAL_PENDING" "approval_get (av_store s) ctx k = Some r" "ap_status r = APPROVAL_PENDING"
    by blast
  have k: "ap_approval_id r = k" "scopes ctx (ap_tenant_id r)"
    using approval_getD [OF r(2)] approval_store_okD [OF assms(1)] by auto
  let ?d = "r\<lparr>ap_status := status, ap_decided_at := Some now, ap_decided_by := Some operator, ap_decision_reason := reason\<rparr>"
  have run: "res = Inr ?d" "av_store t = dict_put k ?d (av_store s)"
      "av_events t = av_events s @ (if av_sink s then [(''approval.resolved'', ?d, event_now)] else [])"
      "av_responses t = av_responses s @ (if av_escalation s then [k] else [])"
    using assms(2) r k
    by (auto simp: approval_decide_def approval_fetch_def approval_store_save_def approval_save_def approval_emit_def
        require_def Let_def thenE_def bindE_def getE_def modifyE_def whenE_def liftE_def returnE_def split: if_splits)
  have get: "approval_get (av_store t) ctx k = Some ?d" using run(2) k(2) by (simp add: approval_get_def)
  then have "approval_decide now' event_now' k status' operator' reason' ctx t = (Inl (ApprovalAlreadyDecidedError k), t)"
    if "status' \<noteq> APPROVAL_PENDING" for now' event_now' status' operator' reason'
    using that r(1)
    by (simp add: approval_decide_def approval_fetch_def bindE_def getE_def raiseE_def returnE_def)
  then show ?thesis using run get r by simp
next
  case False
  then have "\<exists>e. res = Inl e \<and> t = s"
    using assms(2)
    by (auto simp: approval_decide_def approval_fetch_def bindE_def getE_def raiseE_def returnE_def split: if_splits option.splits)
  then show ?thesis using False by auto
qed

theorem approval_decide_exact_witness:
  "\<exists>d. fst (approval_decide 5 6 ''ap-1'' APPROVAL_DENIED ''ann'' None DEFAULT_CONTEXT sample_service) = Inr d \<and>
     ap_status d = APPROVAL_DENIED \<and> ap_decided_by d = Some ''ann''"
proof -
  obtain res t where run: "approval_decide 5 6 ''ap-1'' APPROVAL_DENIED ''ann'' None DEFAULT_CONTEXT sample_service = (res, t)"
    by (metis surj_pair)
  have "approval_get (av_store sample_service) DEFAULT_CONTEXT ''ap-1'' = Some sample_approval"
    by (simp add: approval_get_def sample_service_def sample_approval_def scopes_def DEFAULT_CONTEXT_def DEFAULT_TENANT_ID_def)
  moreover have "ap_status sample_approval = APPROVAL_PENDING" by (simp add: sample_approval_def)
  ultimately obtain d where "res = Inr d" using approval_decide_exact [OF sample_service_ok run] by auto
  then show ?thesis using approval_decide_exact [OF sample_service_ok run] run by auto
qed

text \<open>
  C17: the audit trail of the kill switch tells its state. Starting with no record and an empty
  audit log that scrubs details, after any sequence of disable and enable calls interleaved with the
  entries of other services, the log verifies and a tool is disabled exactly if the last switch
  entry about it says so.
\<close>

theorem kill_switch_trail:
  assumes "\<forall>op \<in> set ops. foreign op"
    and "s = fold (kill_step (scrub_append scrub H)) ops \<lparr>kw_store = [], kw_audit = Some new_audit_log\<rparr>"
  shows "\<exists>l. kw_audit s = Some l \<and> audit_verify H l \<and> (\<forall>t. is_disabled s t = trail_disabled (al_records l) t)"
proof -
  have "scrubbing_log.trail_agrees H \<lparr>kw_store = [], kw_audit = Some new_audit_log\<rparr>"
    by (simp add: scrubbing_log.trail_agrees_def audit_ok_new is_disabled_def trail_disabled_def)
      (simp add: new_audit_log_def)
  from scrubbing_log.kill_steps_agree [OF this assms(1), of scrub] show ?thesis
    using assms(2) by (auto simp: scrubbing_log.trail_agrees_def audit_ok_def audit_verify_linked)
qed

theorem kill_switch_trail_witness:
  "\<exists>l. kw_audit (fold (kill_step (scrub_append (\<lambda>x. []) sha_example))
       [KillSet 1 2 ''mail'' True ''ann'' (Some ''leak''), OtherEntry 3 ''bob'' ''run.stop'' ''run_1'' None DEFAULT_CONTEXT]
       \<lparr>kw_store = [], kw_audit = Some new_audit_log\<rparr>) = Some l \<and>
     audit_verify sha_example l \<and> trail_disabled (al_records l) ''mail''"
proof -
  let ?ops = "[KillSet 1 2 ''mail'' True ''ann'' (Some ''leak''), OtherEntry 3 ''bob'' ''run.stop'' ''run_1'' None DEFAULT_CONTEXT]"
  let ?s = "fold (kill_step (scrub_append (\<lambda>x. []) sha_example)) ?ops \<lparr>kw_store = [], kw_audit = Some new_audit_log\<rparr>"
  have "\<forall>op \<in> set ?ops. foreign op" by (simp add: is_switch_action_def)
  moreover have "is_disabled ?s ''mail''"
    by (simp add: is_disabled_def kill_set_def kill_save_def Let_def thenE_def bindE_def modifyE_def getE_def returnE_def
        raiseE_def split: sum.split)
  ultimately show ?thesis using kill_switch_trail [of ?ops ?s "\<lambda>x. []" sha_example] by auto
qed

end
