(* ===== verification/Unicode_Text.thy ===== *)
theory Unicode_Text
  imports HP_Prelude "HOL-Library.Sublist"
begin

text \<open>
  Text as Python has it, a sequence of code points, with the two parts of the standard library the
  output shaping and the injection scanners rely on: the UTF-8 codec (strict encoding, decoding that
  ignores malformed bytes) and the backtracking matcher behind \<open>re.search\<close> and \<open>re.sub\<close>. A
  regular expression is its syntax tree, and matching lists the possible ends of a match in the
  order the engine tries them.
\<close>

section \<open>UTF-8\<close>

type_synonym ucs = "nat list"
type_synonym bytes = "nat list"

abbreviation code_points :: "string \<Rightarrow> ucs" where
  "code_points \<equiv> map of_char"

definition scalar :: "nat \<Rightarrow> bool" where
  "scalar c = (c < 0xD800 \<or> 0xE000 \<le> c \<and> c < 0x110000)"

definition utf8_bytes :: "nat \<Rightarrow> bytes" where
  "utf8_bytes c =
     (if c < 0x80 then [c]
      else if c < 0x800 then [0xC0 + c div 64, 0x80 + c mod 64]
      else if c < 0x10000 then [0xE0 + c div 4096, 0x80 + c div 64 mod 64, 0x80 + c mod 64]
      else [0xF0 + c div 262144, 0x80 + c div 4096 mod 64, 0x80 + c div 64 mod 64, 0x80 + c mod 64])"

definition utf8_concat :: "ucs \<Rightarrow> bytes" where
  "utf8_concat t = concat (map utf8_bytes t)"

text \<open>\<open>t.encode("utf-8")\<close>; \<open>None\<close> is the \<open>UnicodeEncodeError\<close> of a lone surrogate.\<close>

definition utf8_encode :: "ucs \<Rightarrow> bytes option" where
  "utf8_encode t = (if list_all scalar t then Some (utf8_concat t) else None)"

definition continuation :: "nat \<Rightarrow> bool" where
  "continuation b = (0x80 \<le> b \<and> b < 0xC0)"

text \<open>The second byte of a sequence of three or four bytes, without overlong forms and surrogates.\<close>

definition second_byte :: "nat \<Rightarrow> nat \<Rightarrow> bool" where
  "second_byte a b = (continuation b \<and> (a = 0xE0 \<longrightarrow> 0xA0 \<le> b) \<and> (a = 0xED \<longrightarrow> b < 0xA0) \<and>
     (a = 0xF0 \<longrightarrow> 0x90 \<le> b) \<and> (a = 0xF4 \<longrightarrow> b < 0x90))"

text \<open>
  \<open>b.decode("utf-8", errors="ignore")\<close>: a malformed sequence is skipped up to the byte that breaks
  it, and an incomplete sequence at the end is dropped.
\<close>

fun utf8_decode :: "bytes \<Rightarrow> ucs" where
  "utf8_decode [] = []"
| "utf8_decode (a # bs) =
     (if a < 0x80 then a # utf8_decode bs
      else if a < 0xC2 \<or> 0xF5 \<le> a then utf8_decode bs
      else (case bs of
          [] \<Rightarrow> []
        | b # bs1 \<Rightarrow>
            if a < 0xE0 then
              (if continuation b then ((a - 0xC0) * 64 + (b - 0x80)) # utf8_decode bs1 else utf8_decode bs)
            else if \<not> second_byte a b then utf8_decode bs
            else (case bs1 of
                [] \<Rightarrow> []
              | c # bs2 \<Rightarrow>
                  if \<not> continuation c then utf8_decode bs1
                  else if a < 0xF0 then
                    ((a - 0xE0) * 4096 + (b - 0x80) * 64 + (c - 0x80)) # utf8_decode bs2
                  else (case bs2 of
                      [] \<Rightarrow> []
                    | d # bs3 \<Rightarrow>
                        if \<not> continuation d then utf8_decode bs2
                        else ((a - 0xF0) * 262144 + (b - 0x80) * 4096 + (c - 0x80) * 64 + (d - 0x80)) # utf8_decode bs3))))"

lemma utf8_concat_simps [simp]:
  "utf8_concat [] = []" "utf8_concat (c # t) = utf8_bytes c @ utf8_concat t"
  "utf8_concat (t @ u) = utf8_concat t @ utf8_concat u"
  by (simp_all add: utf8_concat_def)

lemma split_digits:
  fixes c :: nat
  obtains x y z where "c = 64 * x + c mod 64" "x = 64 * y + x mod 64" "y = 64 * z + y mod 64"
    "c div 64 = x" "c div 4096 = y" "c div 262144 = z" "c mod 64 < 64" "x mod 64 < 64" "y mod 64 < 64"
proof
  show "c div 4096 = c div 64 div 64" "c div 262144 = c div 64 div 64 div 64" by (simp_all flip: div_mult2_eq)
qed simp_all

lemma decode_char:
  assumes "scalar c"
  shows "utf8_decode (utf8_bytes c @ bs) = c # utf8_decode bs"
proof -
  obtain x y z where c: "c = 64 * x + c mod 64" "x = 64 * y + x mod 64" "y = 64 * z + y mod 64"
      "c mod 64 < 64" "x mod 64 < 64" "y mod 64 < 64"
    and d: "c div 64 = x" "c div 4096 = y" "c div 262144 = z"
    using split_digits [of c] by metis
  consider "c < 0x80" | "0x80 \<le> c" "c < 0x800" | "0x800 \<le> c" "c < 0x10000" | "0x10000 \<le> c" by linarith
  then show ?thesis
  proof cases
    case 2
    then have "2 \<le> x" "x < 32" "x * 64 + c mod 64 = c" using c by linarith+
    then show ?thesis using 2 c(4) unfolding utf8_bytes_def d by (simp add: continuation_def)
  next
    case 3
    have "y < 16" "y = 0 \<Longrightarrow> 32 \<le> x mod 64" "y = 13 \<Longrightarrow> x mod 64 < 32" "y * 4096 + x mod 64 * 64 + c mod 64 = c"
      using 3 assms c unfolding scalar_def by linarith+
    then show ?thesis using 3 c(4,5) unfolding utf8_bytes_def d by (auto simp: continuation_def second_byte_def)
  next
    case 4
    have "z \<le> 4" "z = 0 \<Longrightarrow> 16 \<le> y mod 64" "z = 4 \<Longrightarrow> y mod 64 < 16"
        "z * 262144 + y mod 64 * 4096 + x mod 64 * 64 + c mod 64 = c"
      using 4 assms c unfolding scalar_def by linarith+
    then show ?thesis using 4 c(4-6) unfolding utf8_bytes_def d by (auto simp: continuation_def second_byte_def)
  qed (simp add: utf8_bytes_def)
qed

text \<open>An incomplete sequence before the end or before an ASCII character is dropped.\<close>

lemma not_continuation: "a < 0x80 \<Longrightarrow> \<not> continuation a \<and> \<not> second_byte b a"
  by (simp add: continuation_def second_byte_def)

lemma decode_cut:
  assumes "rest = [] \<or> hd rest < 0x80"
  shows "0xC2 \<le> a \<Longrightarrow> a < 0xF5 \<Longrightarrow> utf8_decode (a # rest) = utf8_decode rest"
    and "0xE0 \<le> a \<Longrightarrow> a < 0xF5 \<Longrightarrow> second_byte a b \<Longrightarrow> utf8_decode (a # b # rest) = utf8_decode rest"
    and "0xF0 \<le> a \<Longrightarrow> a < 0xF5 \<Longrightarrow> second_byte a b \<Longrightarrow> continuation c \<Longrightarrow>
      utf8_decode (a # b # c # rest) = utf8_decode rest"
  using assms by (cases rest; simp add: not_continuation)+

lemma decode_cut_char:
  assumes "scalar c" "n < length (utf8_bytes c)" "rest = [] \<or> hd rest < 0x80"
  shows "utf8_decode (take n (utf8_bytes c) @ rest) = utf8_decode rest"
proof -
  obtain x y z where c: "c = 64 * x + c mod 64" "x = 64 * y + x mod 64" "y = 64 * z + y mod 64"
      "c mod 64 < 64" "x mod 64 < 64" "y mod 64 < 64"
    and d: "c div 64 = x" "c div 4096 = y" "c div 262144 = z"
    using split_digits [of c] by metis
  note cut = decode_cut [OF assms(3)]
  consider "c < 0x80" | "0x80 \<le> c" "c < 0x800" | "0x800 \<le> c" "c < 0x10000" | "0x10000 \<le> c" by linarith
  then show ?thesis
  proof cases
    case 1
    then show ?thesis using assms(2) by (simp add: utf8_bytes_def)
  next
    case 2
    then have b: "utf8_bytes c = [0xC0 + x, 0x80 + c mod 64]" unfolding utf8_bytes_def d by simp
    have "2 \<le> x" "x < 32" using 2 c by linarith+
    then have "utf8_decode ((0xC0 + x) # rest) = utf8_decode rest" by (intro cut) simp_all
    moreover have "n = 0 \<or> n = 1" using assms(2) b by auto
    ultimately show ?thesis unfolding b by (elim disjE) (simp_all del: utf8_decode.simps)
  next
    case 3
    then have b: "utf8_bytes c = [0xE0 + y, 0x80 + x mod 64, 0x80 + c mod 64]" unfolding utf8_bytes_def d by simp
    have "y < 16" "y = 0 \<Longrightarrow> 32 \<le> x mod 64" "y = 13 \<Longrightarrow> x mod 64 < 32"
      using 3 assms(1) c unfolding scalar_def by linarith+
    then have "second_byte (0xE0 + y) (0x80 + x mod 64)" "0xE0 + y < 0xF5"
      using c(5) by (auto simp: second_byte_def continuation_def)
    then have "utf8_decode ((0xE0 + y) # rest) = utf8_decode rest"
        "utf8_decode ((0xE0 + y) # (0x80 + x mod 64) # rest) = utf8_decode rest" by (intro cut; simp)+
    moreover have "n = 0 \<or> n = 1 \<or> n = 2" using assms(2) b by auto
    ultimately show ?thesis unfolding b by (elim disjE) (simp_all del: utf8_decode.simps)
  next
    case 4
    then have b: "utf8_bytes c = [0xF0 + z, 0x80 + y mod 64, 0x80 + x mod 64, 0x80 + c mod 64]"
      unfolding utf8_bytes_def d by simp
    have "z \<le> 4" "z = 0 \<Longrightarrow> 16 \<le> y mod 64" "z = 4 \<Longrightarrow> y mod 64 < 16"
      using 4 assms(1) c unfolding scalar_def by linarith+
    then have "second_byte (0xF0 + z) (0x80 + y mod 64)" "0xF0 + z < 0xF5" "continuation (0x80 + x mod 64)"
      using c(5,6) by (auto simp: second_byte_def continuation_def)
    then have "utf8_decode ((0xF0 + z) # rest) = utf8_decode rest"
        "utf8_decode ((0xF0 + z) # (0x80 + y mod 64) # rest) = utf8_decode rest"
        "utf8_decode ((0xF0 + z) # (0x80 + y mod 64) # (0x80 + x mod 64) # rest) = utf8_decode rest" by (intro cut; simp)+
    moreover have "n = 0 \<or> n = 1 \<or> n = 2 \<or> n = 3" using assms(2) b by auto
    ultimately show ?thesis unfolding b by (elim disjE) (simp_all del: utf8_decode.simps)
  qed
qed

lemma decode_continuations: "list_all continuation xs \<Longrightarrow> utf8_decode (xs @ bs) = utf8_decode bs"
  by (induction xs) (auto simp: continuation_def)

lemma utf8_bytes_length: "0 < length (utf8_bytes c) \<and> length (utf8_bytes c) \<le> 4"
  by (simp add: utf8_bytes_def)

lemma utf8_bytes_tail: "list_all continuation (tl (utf8_bytes c))"
  by (auto simp: utf8_bytes_def continuation_def)

text \<open>Decoding what was encoded gives the text back.\<close>

lemma decode_concat: "list_all scalar t \<Longrightarrow> utf8_decode (utf8_concat t @ bs) = t @ utf8_decode bs"
  by (induction t) (simp_all add: decode_char)

text \<open>
  Cutting the encoding after n bytes and decoding gives the longest prefix of the text that fits
  into n bytes, also when ASCII text follows the cut.
\<close>

lemma decode_take:
  assumes "list_all scalar t" "rest = [] \<or> hd rest < 0x80"
  shows "\<exists>k \<le> length t. utf8_decode (take n (utf8_concat t) @ rest) = take k t @ utf8_decode rest \<and>
    length (utf8_concat (take k t)) \<le> n \<and> (k < length t \<longrightarrow> n < length (utf8_concat (take (Suc k) t)))"
  using assms(1)
proof (induction t arbitrary: n)
  case (Cons c t)
  show ?case
  proof (cases "n < length (utf8_bytes c)")
    case True
    then show ?thesis
      using decode_cut_char [of c n rest] Cons.prems assms(2) by (intro exI [of _ 0]) simp
  next
    case False
    obtain k where k: "k \<le> length t" "utf8_decode (take (n - length (utf8_bytes c)) (utf8_concat t) @ rest) = take k t @ utf8_decode rest"
        "length (utf8_concat (take k t)) \<le> n - length (utf8_bytes c)"
        "k < length t \<longrightarrow> n - length (utf8_bytes c) < length (utf8_concat (take (Suc k) t))"
      using Cons.IH [of "n - length (utf8_bytes c)"] Cons.prems by auto
    then show ?thesis
      using False Cons.prems by (intro exI [of _ "Suc k"]) (auto simp: decode_char)
  qed
qed simp

text \<open>Keeping the last bytes of the encoding gives the longest suffix of the text that fits.\<close>

lemma decode_drop:
  assumes "list_all scalar t" "n \<le> length (utf8_concat t)"
  shows "\<exists>k \<le> length t. utf8_decode (drop n (utf8_concat t)) = drop k t \<and>
    n \<le> length (utf8_concat (take k t)) \<and> (0 < k \<longrightarrow> length (utf8_concat (take (k - 1) t)) < n)"
  using assms
proof (induction t arbitrary: n)
  case (Cons c t)
  consider "n = 0" | "0 < n" "n \<le> length (utf8_bytes c)" | "length (utf8_bytes c) < n" by linarith
  then show ?case
  proof cases
    case 1
    then show ?thesis using decode_concat [OF Cons.prems(1), of "[]"] by (intro exI [of _ 0]) simp
  next
    case 2
    then obtain m where m: "n = Suc m" using gr0_implies_Suc by blast
    have "list_all continuation (drop m (tl (utf8_bytes c)))"
      using utf8_bytes_tail [of c] by (auto simp: list_all_iff dest: in_set_dropD)
    then have "list_all continuation (drop n (utf8_bytes c))" by (simp add: m drop_Suc)
    moreover have "drop n (utf8_concat (c # t)) = drop n (utf8_bytes c) @ utf8_concat t" using 2 by simp
    ultimately have "utf8_decode (drop n (utf8_concat (c # t))) = t"
      using Cons.prems(1) decode_concat [of t "[]"] by (simp add: decode_continuations)
    then show ?thesis using 2 by (intro exI [of _ 1]) simp
  next
    case 3
    then obtain k where k: "k \<le> length t" "utf8_decode (drop (n - length (utf8_bytes c)) (utf8_concat t)) = drop k t"
        "n - length (utf8_bytes c) \<le> length (utf8_concat (take k t))"
        "0 < k \<longrightarrow> length (utf8_concat (take (k - 1) t)) < n - length (utf8_bytes c)"
      using Cons.IH [of "n - length (utf8_bytes c)"] Cons.prems by force
    have "length (utf8_concat (take k (c # t))) < n" using 3 k(4) by (cases k) auto
    then show ?thesis using 3 k by (intro exI [of _ "Suc k"]) auto
  qed
qed simp

section \<open>Regular expressions\<close>

datatype regex =
    Class "nat \<Rightarrow> bool"
  | Eps
  | Seq regex regex
  | Alt regex regex
  | Rep regex nat "nat option"
  | LineStart
  | WordBoundary
  | NotBehind "nat \<Rightarrow> bool"
  | NotAhead "nat \<Rightarrow> bool"

definition char_at :: "ucs \<Rightarrow> nat \<Rightarrow> (nat \<Rightarrow> bool) \<Rightarrow> bool" where
  "char_at t i p = (i < length t \<and> p (t ! i))"

text \<open>
  The ends of the matches from one position, in the order a backtracking engine finds them. A
  repetition is greedy and does not iterate on an empty match once its minimum is reached. The
  predicate \<open>w\<close> tells word characters.
\<close>

fun rep_ends :: "(nat \<Rightarrow> nat list) \<Rightarrow> nat \<Rightarrow> nat \<Rightarrow> nat \<Rightarrow> nat list" where
  "rep_ends m lo 0 i = (if lo = 0 then [i] else [])"
| "rep_ends m lo (Suc hi) i =
     concat (map (\<lambda>j. if lo = 0 \<and> j = i then [] else rep_ends m (lo - 1) hi j) (m i)) @ (if lo = 0 then [i] else [])"

primrec match_ends :: "(nat \<Rightarrow> bool) \<Rightarrow> ucs \<Rightarrow> regex \<Rightarrow> nat \<Rightarrow> nat list" where
  "match_ends w t (Class p) i = (if char_at t i p then [i + 1] else [])"
| "match_ends w t Eps i = [i]"
| "match_ends w t (Seq r s) i = concat (map (match_ends w t s) (match_ends w t r i))"
| "match_ends w t (Alt r s) i = match_ends w t r i @ match_ends w t s i"
| "match_ends w t (Rep r lo hi) i =
     rep_ends (match_ends w t r) lo (case hi of None \<Rightarrow> lo + length t | Some h \<Rightarrow> h) i"
| "match_ends w t LineStart i = (if i = 0 \<or> char_at t (i - 1) (\<lambda>c. c = 10) then [i] else [])"
| "match_ends w t WordBoundary i = (if (0 < i \<and> char_at t (i - 1) w) \<noteq> char_at t i w then [i] else [])"
| "match_ends w t (NotBehind p) i = (if 0 < i \<and> char_at t (i - 1) p then [] else [i])"
| "match_ends w t (NotAhead p) i = (if char_at t i p then [] else [i])"

text \<open>\<open>re.search\<close>: the leftmost start that matches, with the first end found there.\<close>

fun search_starts :: "(nat \<Rightarrow> nat list) \<Rightarrow> nat list \<Rightarrow> (nat \<times> nat) option" where
  "search_starts m [] = None"
| "search_starts m (i # is) = (case m i of [] \<Rightarrow> search_starts m is | j # _ \<Rightarrow> Some (i, j))"

definition re_search :: "(nat \<Rightarrow> bool) \<Rightarrow> regex \<Rightarrow> ucs \<Rightarrow> (nat \<times> nat) option" where
  "re_search w r t = search_starts (match_ends w t r) [0..<Suc (length t)]"

text \<open>
  The scan of \<open>re.sub\<close>: the next match from a position. After an empty match the next one may not
  be empty at the same place.
\<close>

definition sub_ends :: "(nat \<Rightarrow> nat list) \<Rightarrow> nat \<Rightarrow> bool \<Rightarrow> nat \<Rightarrow> nat list" where
  "sub_ends m pos must_advance i = (if must_advance \<and> i = pos then filter (\<lambda>j. j \<noteq> i) (m i) else m i)"

function sub_from ::
  "(nat \<Rightarrow> nat list) \<Rightarrow> (ucs \<Rightarrow> ucs) \<Rightarrow> ucs \<Rightarrow> nat \<Rightarrow> bool \<Rightarrow> ucs \<times> nat" where
  "sub_from m repl t pos must_advance =
     (case search_starts (sub_ends m pos must_advance) [pos..<Suc (length t)] of
        None \<Rightarrow> (drop pos t, 0)
      | Some (i, j) \<Rightarrow>
          if i \<le> j \<and> (pos < j \<or> \<not> must_advance) then
            (let (rest, n) = sub_from m repl t j (i = j)
             in (take (i - pos) (drop pos t) @ repl (take (j - i) (drop i t)) @ rest, n + 1))
          else (drop pos t, 0))"
  by pat_completeness auto

lemma search_starts_Some:
  assumes "search_starts m is = Some (i, j)"
  shows "i \<in> set is" "j \<in> set (m i)"
  using assms by (induction "is") (auto split: list.splits)

lemma search_starts_None: "(search_starts m is = None) = (\<forall>i \<in> set is. m i = [])"
  by (induction "is") (auto split: list.split)

text \<open>The search ends: it moves on, or an empty match is followed by one that may not be empty.\<close>

termination sub_from
proof (relation "measure (\<lambda>(m, repl, t, pos, adv). 2 * (length t + 1 - pos) + (if adv then 0 else 1))", simp)
  fix m :: "nat \<Rightarrow> nat list" and repl :: "ucs \<Rightarrow> ucs" and t :: ucs and pos must_advance p i j
  assume s: "search_starts (sub_ends m pos must_advance) [pos..<Suc (length t)] = Some p" and p: "(i, j) = p"
    and g: "i \<le> j \<and> (pos < j \<or> \<not> must_advance)"
  have "pos \<le> i" "i \<le> length t" using search_starts_Some(1) [OF s [folded p]] by auto
  then show "((m, repl, t, j, i = j), m, repl, t, pos, must_advance)
      \<in> measure (\<lambda>(m, repl, t, pos, adv). 2 * (length t + 1 - pos) + (if adv then 0 else 1))"
    using g by auto
qed

declare sub_from.simps [simp del]

definition re_sub :: "(nat \<Rightarrow> bool) \<Rightarrow> regex \<Rightarrow> (ucs \<Rightarrow> ucs) \<Rightarrow> ucs \<Rightarrow> ucs \<times> nat" where
  "re_sub w r repl t = sub_from (match_ends w t r) repl t 0 False"

lemma rep_ends_bounds:
  assumes "\<And>i j. i \<le> n \<Longrightarrow> j \<in> set (m i) \<Longrightarrow> i \<le> j \<and> j \<le> n"
  shows "i \<le> n \<Longrightarrow> j \<in> set (rep_ends m lo hi i) \<Longrightarrow> i \<le> j \<and> j \<le> n"
proof (induction hi arbitrary: lo i)
  case (Suc hi)
  show ?case
  proof (cases "lo = 0 \<and> j = i")
    case False
    then obtain k where k: "k \<in> set (m i)" "j \<in> set (rep_ends m (lo - 1) hi k)"
      using Suc.prems(2) by (auto split: if_splits)
    then have "i \<le> k \<and> k \<le> n" using assms Suc.prems(1) by blast
    then show ?thesis using Suc.IH [of k, OF _ k(2)] by auto
  qed (use Suc.prems in simp)
qed (simp split: if_splits)

lemma match_ends_bounds: "i \<le> length t \<Longrightarrow> j \<in> set (match_ends w t r i) \<Longrightarrow> i \<le> j \<and> j \<le> length t"
proof (induction r arbitrary: i j)
  case (Seq r s)
  obtain k where k: "k \<in> set (match_ends w t r i)" "j \<in> set (match_ends w t s k)" using Seq.prems(2) by auto
  have "i \<le> k \<and> k \<le> length t" by (rule Seq.IH(1) [OF Seq.prems(1) k(1)])
  moreover from this have "k \<le> j \<and> j \<le> length t" by (intro Seq.IH(2) [OF _ k(2)]) simp
  ultimately show ?case by simp
next
  case (Alt r s)
  consider "j \<in> set (match_ends w t r i)" | "j \<in> set (match_ends w t s i)" using Alt.prems(2) by auto
  then show ?case by cases (rule Alt.IH [OF Alt.prems(1)], assumption)+
next
  case (Rep r lo hi)
  have "j \<in> set (rep_ends (match_ends w t r) lo (case hi of None \<Rightarrow> lo + length t | Some h \<Rightarrow> h) i)"
    using Rep.prems(2) by simp
  then show ?case
    by (rule rep_ends_bounds [where n = "length t" and m = "match_ends w t r", OF _ Rep.prems(1), rotated]) (rule Rep.IH)
qed (auto simp: char_at_def split: if_splits)

lemma re_search_bounds: "re_search w r t = Some (i, j) \<Longrightarrow> i \<le> j \<and> j \<le> length t"
  using search_starts_Some [of "match_ends w t r" "[0..<Suc (length t)]" i j] match_ends_bounds [of i t j w r]
  by (auto simp: re_search_def)

lemma re_search_iff: "(re_search w r t \<noteq> None) = (\<exists>i \<le> length t. match_ends w t r i \<noteq> [])"
  by (auto simp: re_search_def search_starts_None less_Suc_eq_le simp del: upt_Suc)

text \<open>
  What a substitution does to a property of pieces of text that concatenation keeps: if every piece
  relates to itself and every match to its replacement, the text relates to the result.
\<close>

lemma sub_from_rel:
  assumes m: "\<And>i j. i \<le> length t \<Longrightarrow> j \<in> set (m i) \<Longrightarrow> i \<le> j \<and> j \<le> length t"
    and refl: "\<And>x. P x x" and app: "\<And>a b c d. P a b \<Longrightarrow> P c d \<Longrightarrow> P (a @ c) (b @ d)"
    and repl: "\<And>x. P x (repl x)"
  shows "pos \<le> length t \<Longrightarrow> P (drop pos t) (fst (sub_from m repl t pos adv))"
proof (induction "2 * (length t + 1 - pos) + (if adv then 0 else 1)" arbitrary: pos adv rule: less_induct)
  case less
  show ?case
  proof (cases "search_starts (sub_ends m pos adv) [pos..<Suc (length t)]")
    case None
    then show ?thesis by (subst sub_from.simps) (simp add: refl del: upt_Suc)
  next
    case (Some p)
    obtain i j where p: "p = (i, j)" by (cases p)
    note ij = search_starts_Some [OF Some [unfolded p]]
    have b: "pos \<le> i" "i \<le> length t" using ij(1) by auto
    have j: "i \<le> j" "j \<le> length t" "\<not> (adv \<and> i = pos \<and> j = i)"
      using ij(2) m [OF b(2)] by (auto simp: sub_ends_def split: if_splits)
    then have g: "i \<le> j \<and> (pos < j \<or> \<not> adv)" using b by auto
    have eq: "fst (sub_from m repl t pos adv) =
        take (i - pos) (drop pos t) @ repl (take (j - i) (drop i t)) @ fst (sub_from m repl t j (i = j))"
      using g by (subst sub_from.simps) (simp add: Some p split: prod.split del: upt_Suc)
    have "P (drop j t) (fst (sub_from m repl t j (i = j)))"
      using g b j by (intro less) auto
    moreover have "drop pos t = take (i - pos) (drop pos t) @ take (j - i) (drop i t) @ drop j t"
      using b j by (metis append_take_drop_id drop_drop le_add_diff_inverse2)
    ultimately show ?thesis unfolding eq using refl app repl by metis
  qed
qed

lemma re_sub_rel:
  assumes "\<And>x. P x x" "\<And>a b c d. P a b \<Longrightarrow> P c d \<Longrightarrow> P (a @ c) (b @ d)" "\<And>x. P x (repl x)"
  shows "P t (fst (re_sub w r repl t))"
  using sub_from_rel [where m = "match_ends w t r" and pos = 0 and P = P and t = t, OF match_ends_bounds assms]
  by (simp add: re_sub_def)

lemma re_sub_none:
  assumes "re_search w r t = None"
  shows "re_sub w r repl t = (t, 0)"
proof -
  have "sub_ends (match_ends w t r) 0 False = match_ends w t r" by (rule ext) (simp add: sub_ends_def)
  then show ?thesis
    using assms by (simp add: re_sub_def sub_from.simps [of _ _ _ 0] re_search_def del: upt_Suc)
qed

end
