(* ===== verification/Shaping.thy ===== *)
theory Shaping
  imports Core_Model Unicode_Text
begin

text \<open>
  Tool-output shaping (\<open>shaping/pipeline.py\<close>) and the prompt-injection scanner it runs
  (\<open>shaping/injection.py\<close>): the regular-expression filters, truncation of the UTF-8 encoding,
  the byte budget, and the scan of the shaped text. The patterns are the syntax trees of the
  expressions of the source. Two parameters stand for tables that are not part of the code:
  \<open>w\<close>, which characters are word characters in the Unicode database, and \<open>compile\<close>, the parser
  behind \<open>re.compile\<close> for the patterns of a workload's filter rules.
\<close>

section \<open>Patterns\<close>

text \<open>The characters of the white-space class.\<close>

definition is_white :: "nat \<Rightarrow> bool" where
  "is_white c = (9 \<le> c \<and> c \<le> 13 \<or> 28 \<le> c \<and> c \<le> 32 \<or> c \<in> {0x85, 0xA0, 0x1680, 0x2028, 0x2029, 0x202F, 0x205F, 0x3000} \<or>
     0x2000 \<le> c \<and> c \<le> 0x200A)"

text \<open>
  A character of a pattern under \<open>(?i)\<close>. Besides the other case of a letter, the dotted and dotless
  forms of i, the long s and the Kelvin sign match.
\<close>

definition ci_char :: "nat \<Rightarrow> nat \<Rightarrow> bool" where
  "ci_char c x = (x = c \<or> 97 \<le> c \<and> c \<le> 122 \<and>
     (x + 32 = c \<or> c = 105 \<and> x \<in> {0x130, 0x131} \<or> c = 107 \<and> x = 0x212A \<or> c = 115 \<and> x = 0x17F))"

fun seqs :: "regex list \<Rightarrow> regex" where
  "seqs [] = Eps"
| "seqs (r # rs) = Seq r (seqs rs)"

fun alts :: "regex list \<Rightarrow> regex" where
  "alts [] = Class (\<lambda>_. False)"
| "alts [r] = r"
| "alts (r # rs) = Alt r (alts rs)"

definition ci :: "string \<Rightarrow> regex" where
  "ci s = seqs (map (\<lambda>c. Class (ci_char (of_char c))) s)"

definition white1 :: regex where
  "white1 = Rep (Class is_white) 1 None"

definition opt :: "regex \<Rightarrow> regex" where
  "opt r = Rep r 0 (Some 1)"

definition any_upto :: "nat \<Rightarrow> regex" where
  "any_upto n = Rep (Class (\<lambda>c. c \<noteq> 10)) 0 (Some n)"

definition ignore_previous :: regex where
  "ignore_previous = seqs [WordBoundary, ci ''ignore'', white1, opt (seqs [ci ''all'', white1]), ci ''previous'', white1,
     ci ''instructions'', WordBoundary]"

definition disregard_previous :: regex where
  "disregard_previous = seqs [WordBoundary, ci ''disregard'', white1, opt (seqs [ci ''all'', white1]),
     alts [ci ''previous'', ci ''prior''], white1, alts [ci ''instructions'', ci ''prompts''], WordBoundary]"

definition you_are_now :: regex where
  "you_are_now = seqs [WordBoundary, ci ''you'', white1, ci ''are'', white1, ci ''now'', WordBoundary]"

definition act_as_admin :: regex where
  "act_as_admin = seqs [WordBoundary, ci ''act'', white1, ci ''as'', white1, opt (seqs [ci ''a'', opt (ci ''n''), white1]), ci ''admin'']"

definition credential_theft :: regex where
  "credential_theft = seqs [WordBoundary, alts [ci ''reveal'', ci ''send'', ci ''print'', ci ''expose''], WordBoundary,
     any_upto 24, WordBoundary,
     alts [seqs [ci ''api'', opt (Class (\<lambda>c. is_white c \<or> c = 95 \<or> c = 45)), ci ''key''], ci ''secret'', ci ''token'', ci ''password''],
     WordBoundary]"

definition data_exfiltration :: regex where
  "data_exfiltration = seqs [WordBoundary, alts [ci ''post'', ci ''send'', ci ''upload'', ci ''exfiltrate''], WordBoundary,
     any_upto 40, ci ''http'', opt (ci ''s''), ci ''://'']"

definition HIGH_PATTERNS :: "(string \<times> regex) list" where
  "HIGH_PATTERNS = [(''instruction_override'', ignore_previous), (''instruction_override'', disregard_previous),
     (''role_manipulation'', you_are_now), (''role_manipulation'', act_as_admin), (''credential_theft'', credential_theft)]"

definition LOW_PATTERNS :: "(string \<times> regex) list" where
  "LOW_PATTERNS = [(''data_exfiltration'', data_exfiltration)]"

section \<open>The injection scanner\<close>

datatype injection_verdict = VERDICT_NONE | VERDICT_BLOCK | VERDICT_ESCALATE

type_synonym injection_match = "string \<times> regex"

record injection_scan_result =
  ij_verdict :: injection_verdict
  ij_matches :: "injection_match list"

record injection_scanner =
  sc_high :: "injection_match list"
  sc_low :: "injection_match list"

definition new_injection_scanner :: "injection_match list option \<Rightarrow> injection_match list option \<Rightarrow> injection_scanner" where
  "new_injection_scanner high low =
     \<lparr>sc_high = (case high of None \<Rightarrow> HIGH_PATTERNS | Some h \<Rightarrow> if h = [] then HIGH_PATTERNS else h),
      sc_low = (case low of None \<Rightarrow> LOW_PATTERNS | Some l \<Rightarrow> if l = [] then LOW_PATTERNS else l)\<rparr>"

definition injection_matches :: "(nat \<Rightarrow> bool) \<Rightarrow> ucs \<Rightarrow> injection_match list \<Rightarrow> injection_match list" where
  "injection_matches w t patterns = filter (\<lambda>(_, r). re_search w r t \<noteq> None) patterns"

definition injection_scan :: "(nat \<Rightarrow> bool) \<Rightarrow> injection_scanner \<Rightarrow> ucs \<Rightarrow> injection_scan_result" where
  "injection_scan w sc t =
     (let matches = injection_matches w t (sc_high sc) in
      if matches \<noteq> [] then \<lparr>ij_verdict = VERDICT_BLOCK, ij_matches = matches\<rparr>
      else (let matches = injection_matches w t (sc_low sc) in
        if matches \<noteq> [] then \<lparr>ij_verdict = VERDICT_ESCALATE, ij_matches = matches\<rparr>
        else \<lparr>ij_verdict = VERDICT_NONE, ij_matches = []\<rparr>))"

section \<open>The shaping pipeline\<close>

datatype shaping_error = UnicodeEncodeError | RegexError

record output_budget =
  ob_max :: "int option"
  ob_used :: int

definition budget_remaining :: "output_budget \<Rightarrow> int" where
  "budget_remaining b = (case ob_max b of None \<Rightarrow> 2 ^ 62 | Some m \<Rightarrow> max 0 (m - ob_used b))"

definition budget_consume :: "output_budget \<Rightarrow> int \<Rightarrow> output_budget" where
  "budget_consume b amount = b\<lparr>ob_used := ob_used b + amount\<rparr>"

record shaped_output =
  so_text :: ucs
  so_original_bytes :: int
  so_shaped_bytes :: int
  so_truncated :: bool
  so_redactions :: nat
  so_injection :: "injection_scan_result option"

definition replacement :: "filter_action \<Rightarrow> ucs \<Rightarrow> ucs" where
  "replacement action matched =
     (if action = MASK then replicate (length matched) 42 else code_points ''[REDACTED]'')"

definition apply_filter_rule ::
  "(nat \<Rightarrow> bool) \<Rightarrow> (string \<Rightarrow> regex option) \<Rightarrow> ucs \<Rightarrow> filter_rule \<Rightarrow> shaping_error + (ucs \<times> nat)" where
  "apply_filter_rule w compile t rule = (case compile (fr_pattern rule) of
       None \<Rightarrow> Inl RegexError
     | Some r \<Rightarrow> Inr (re_sub w r (replacement (fr_action rule)) t))"

fun filter_text ::
  "(nat \<Rightarrow> bool) \<Rightarrow> (string \<Rightarrow> regex option) \<Rightarrow> ucs \<Rightarrow> nat \<Rightarrow> filter_rule list \<Rightarrow> shaping_error + (ucs \<times> nat)" where
  "filter_text w compile t redactions [] = Inr (t, redactions)"
| "filter_text w compile t redactions (rule # rules) = (case apply_filter_rule w compile t rule of
       Inl e \<Rightarrow> Inl e
     | Inr (t', added) \<Rightarrow> filter_text w compile t' (redactions + added) rules)"

definition TRUNCATION_MARKER :: string where
  "TRUNCATION_MARKER = ''...[truncated]''"

definition encode_text :: "ucs \<Rightarrow> shaping_error + bytes" where
  "encode_text t = (case utf8_encode t of None \<Rightarrow> Inl UnicodeEncodeError | Some b \<Rightarrow> Inr b)"

definition truncate_text :: "ucs \<Rightarrow> int \<Rightarrow> truncate_strategy \<Rightarrow> shaping_error + ucs" where
  "truncate_text t limit strategy =
     (if limit \<le> 0 then Inr []
      else (case encode_text t of
          Inl e \<Rightarrow> Inl e
        | Inr encoded \<Rightarrow> Inr
            (case strategy of
               TRUNCATE_HEAD \<Rightarrow> utf8_decode (take (nat limit) encoded)
             | TRUNCATE_TAIL \<Rightarrow> utf8_decode (drop (length encoded - nat limit) encoded)
             | TRUNCATE_SUMMARY \<Rightarrow>
                 (let marker = code_points TRUNCATION_MARKER;
                      head = nat (max 0 (limit - int (length marker)))
                  in utf8_decode (take (nat limit) (take head encoded @ marker))))))"

definition shape ::
  "(nat \<Rightarrow> bool) \<Rightarrow> (string \<Rightarrow> regex option) \<Rightarrow> injection_scanner option \<Rightarrow> ucs \<Rightarrow> output_shaping_spec \<Rightarrow> output_budget option \<Rightarrow>
   shaping_error + (shaped_output \<times> output_budget option)" where
  "shape w compile scanner t spec budget = (case encode_text t of
       Inl e \<Rightarrow> Inl e
     | Inr original \<Rightarrow> (case filter_text w compile t 0 (os_filter_rules spec) of
         Inl e \<Rightarrow> Inl e
       | Inr (filtered, redactions) \<Rightarrow>
           (let limit = (case budget of None \<Rightarrow> os_max_bytes spec | Some b \<Rightarrow> min (os_max_bytes spec) (budget_remaining b)) in
            case encode_text filtered of
              Inl e \<Rightarrow> Inl e
            | Inr encoded \<Rightarrow>
                (let truncated = int (length encoded) > limit in
                 case (if truncated then truncate_text filtered limit (os_truncate_strategy spec) else Inr filtered) of
                   Inl e \<Rightarrow> Inl e
                 | Inr txt \<Rightarrow> (case encode_text txt of
                     Inl e \<Rightarrow> Inl e
                   | Inr final \<Rightarrow>
                       (let shaped_bytes = int (length final) in
                        Inr (\<lparr>so_text = txt, so_original_bytes = int (length original), so_shaped_bytes = shaped_bytes,
                               so_truncated = truncated, so_redactions = redactions,
                               so_injection = (if os_injection_scan spec \<and> scanner \<noteq> None
                                  then Some (injection_scan w (the scanner) txt) else None)\<rparr>,
                             map_option (\<lambda>b. budget_consume b shaped_bytes) budget)))))))"

section \<open>Filtering\<close>

lemma replacement_scalar: "list_all scalar x \<longrightarrow> list_all scalar (replacement a x)"
proof -
  have "list_all scalar (replicate n 42)" for n by (simp add: list_all_iff scalar_def)
  then show ?thesis by (simp add: replacement_def scalar_def)
qed

lemma filter_text_rel:
  assumes "filter_text w compile t n rules = Inr (u, m)"
    and "\<And>x. P x x" "\<And>x y z. P x y \<Longrightarrow> P y z \<Longrightarrow> P x z" "\<And>a b c d. P a b \<Longrightarrow> P c d \<Longrightarrow> P (a @ c) (b @ d)"
    and "\<And>rule x. rule \<in> set rules \<Longrightarrow> P x (replacement (fr_action rule) x)"
  shows "P t u"
  using assms(1,5)
proof (induction rules arbitrary: t n)
  case (Cons rule rules)
  obtain r where r: "compile (fr_pattern rule) = Some r"
    using Cons.prems(1) by (cases "compile (fr_pattern rule)") (simp_all add: apply_filter_rule_def)
  obtain t' k where s: "re_sub w r (replacement (fr_action rule)) t = (t', k)" by fastforce
  have "P t (fst (re_sub w r (replacement (fr_action rule)) t))"
    by (rule re_sub_rel) (use assms(2,4) Cons.prems(2) in auto)
  moreover have "P t' u"
    using Cons.prems r s by (intro Cons.IH [of t' "n + k"]) (auto simp: apply_filter_rule_def)
  ultimately show ?case using s assms(3) by (metis fst_conv)
qed (use assms(2) in simp)

lemma filter_text_scalar:
  assumes "filter_text w compile t n rules = Inr (u, m)" "list_all scalar t"
  shows "list_all scalar u"
proof -
  have "list_all scalar t \<longrightarrow> list_all scalar u"
    by (rule filter_text_rel [OF assms(1), where P = "\<lambda>x y. list_all scalar x \<longrightarrow> list_all scalar y"])
      (use replacement_scalar in auto)
  then show ?thesis using assms(2) by simp
qed

lemma utf8_concat_length: "length t \<le> length (utf8_concat t)"
proof (induction t)
  case (Cons c t)
  have "1 \<le> length (utf8_bytes c)" using utf8_bytes_length [of c] by linarith
  with Cons show ?case by simp
qed simp

lemma mask_shorter:
  assumes "filter_text w compile t n rules = Inr (u, m)" "\<forall>rule \<in> set rules. fr_action rule = MASK"
  shows "length u = length t \<and> length (utf8_concat u) \<le> length (utf8_concat t)"
proof -
  have "utf8_concat (replicate k 42) = replicate k 42" for k by (induction k) (simp_all add: utf8_bytes_def)
  then show ?thesis
    by (intro filter_text_rel [OF assms(1), where P = "\<lambda>x y. length y = length x \<and> length (utf8_concat y) \<le> length (utf8_concat x)"])
      (use assms(2) utf8_concat_length in \<open>auto simp: replacement_def\<close>)
qed

section \<open>Truncation\<close>

lemma encode_text_Inr: "(encode_text t = Inr b) = (list_all scalar t \<and> b = utf8_concat t)"
  by (auto simp: encode_text_def utf8_encode_def)

lemma decode_ascii: "list_all (\<lambda>c. c < 0x80) bs \<Longrightarrow> utf8_decode bs = bs"
  by (induction bs) simp_all

lemma encode_ascii: "list_all (\<lambda>c. c < 0x80) bs \<Longrightarrow> utf8_concat bs = bs"
  by (induction bs) (simp_all add: utf8_bytes_def)

lemma marker_ascii: "list_all (\<lambda>c. c < 0x80) (code_points TRUNCATION_MARKER)" "length (code_points TRUNCATION_MARKER) = 14"
  by (simp_all add: TRUNCATION_MARKER_def)

text \<open>What each strategy leaves of the text.\<close>

definition truncation_of :: "truncate_strategy \<Rightarrow> ucs \<Rightarrow> ucs \<Rightarrow> bool" where
  "truncation_of strategy t u = (case strategy of
       TRUNCATE_HEAD \<Rightarrow> prefix u t
     | TRUNCATE_TAIL \<Rightarrow> suffix u t
     | TRUNCATE_SUMMARY \<Rightarrow> (\<exists>a b. u = a @ b \<and> prefix a t \<and> prefix b (code_points TRUNCATION_MARKER) \<and>
         (a \<noteq> [] \<longrightarrow> b = code_points TRUNCATION_MARKER)))"

lemma truncate_text_fits:
  assumes "truncate_text t limit strategy = Inr u" "list_all scalar t" "int (length (utf8_concat t)) > limit" "0 \<le> limit"
  shows "truncation_of strategy t u \<and> list_all scalar u \<and> int (length (utf8_concat u)) \<le> limit"
proof (cases "limit = 0")
  case True
  then show ?thesis using assms(1) by (auto simp: truncate_text_def truncation_of_def split: truncate_strategy.split)
next
  case False
  then obtain n where n: "limit = int n" "0 < n" using assms(4) nonneg_int_cases by (metis gr0I of_nat_0)
  have enc: "encode_text t = Inr (utf8_concat t)" using assms(2) by (simp add: encode_text_Inr)
  show ?thesis
  proof (cases strategy)
    case TRUNCATE_HEAD
    obtain k where "utf8_decode (take n (utf8_concat t)) = take k t" "length (utf8_concat (take k t)) \<le> n"
      using decode_take [OF assms(2), of "[]" n] by auto
    moreover from this have "u = take k t" using TRUNCATE_HEAD assms(1) n enc by (simp add: truncate_text_def)
    ultimately show ?thesis
      using TRUNCATE_HEAD assms(2) n by (auto simp: truncation_of_def take_is_prefix list_all_iff dest: in_set_takeD)
  next
    case TRUNCATE_TAIL
    let ?m = "length (utf8_concat t) - n"
    obtain k where k: "utf8_decode (drop ?m (utf8_concat t)) = drop k t" "?m \<le> length (utf8_concat (take k t))"
      using decode_drop [OF assms(2), of ?m] by auto
    have "length (utf8_concat (take k t)) + length (utf8_concat (drop k t)) = length (utf8_concat t)"
      by (metis append_take_drop_id length_append utf8_concat_simps(3))
    moreover have "u = drop k t" using TRUNCATE_TAIL assms(1) n enc k(1) by (simp add: truncate_text_def)
    ultimately show ?thesis
      using TRUNCATE_TAIL assms(2) n k(2) by (auto simp: truncation_of_def suffix_drop list_all_iff dest: in_set_dropD)
  next
    case TRUNCATE_SUMMARY
    let ?mk = "code_points TRUNCATION_MARKER"
    have mk: "list_all scalar ?mk" using marker_ascii(1) by (auto simp: list_all_iff scalar_def)
    show ?thesis
    proof (cases "n < 14")
      case True
      have asc: "list_all (\<lambda>c. c < 0x80) (take n ?mk)" using marker_ascii(1) set_take_subset [of n ?mk] unfolding list_all_iff by blast
      have "u = take n ?mk"
        using True TRUNCATE_SUMMARY assms(1) n enc marker_ascii(2) decode_ascii [OF asc] by (simp add: truncate_text_def Let_def)
      moreover have "truncation_of strategy t (take n ?mk)"
        unfolding truncation_of_def TRUNCATE_SUMMARY truncate_strategy.case
        by (intro exI [of _ "[]"] exI [of _ "take n ?mk"]) (simp add: take_is_prefix)
      moreover have "list_all scalar (take n ?mk)" using mk set_take_subset [of n ?mk] unfolding list_all_iff by blast
      ultimately show ?thesis using n encode_ascii [OF asc] by simp
    next
      case False
      obtain k where k: "utf8_decode (take (n - 14) (utf8_concat t) @ ?mk) = take k t @ utf8_decode ?mk"
          "length (utf8_concat (take k t)) \<le> n - 14"
        using decode_take [OF assms(2), of ?mk "n - 14"] by (auto simp: TRUNCATION_MARKER_def)
      have len: "nat (max 0 (int n - 14)) = n - 14" "length (take (n - 14) (utf8_concat t)) = n - 14"
        using False assms(3) n by auto
      have "u = take k t @ ?mk"
        using False TRUNCATE_SUMMARY assms(1) n enc marker_ascii(2) k(1) decode_ascii [OF marker_ascii(1)] len
        by (simp add: truncate_text_def Let_def)
      moreover have "truncation_of strategy t (take k t @ ?mk)"
        unfolding truncation_of_def TRUNCATE_SUMMARY truncate_strategy.case
        by (intro exI [of _ "take k t"] exI [of _ ?mk]) (simp add: take_is_prefix)
      moreover have "list_all scalar (take k t)" using assms(2) set_take_subset [of k t] unfolding list_all_iff by blast
      ultimately show ?thesis
        using False n mk k(2) encode_ascii [OF marker_ascii(1)] marker_ascii(2) by simp
    qed
  qed
qed

lemma shape_cases:
  assumes "shape w compile scanner t spec budget = Inr (out, budget')" "0 \<le> os_max_bytes spec"
  obtains filtered redactions limit where
    "list_all scalar t" "filter_text w compile t 0 (os_filter_rules spec) = Inr (filtered, redactions)"
    "limit = (case budget of None \<Rightarrow> os_max_bytes spec | Some b \<Rightarrow> min (os_max_bytes spec) (budget_remaining b))"
    "0 \<le> limit" "so_truncated out = (int (length (utf8_concat filtered)) > limit)"
    "if so_truncated out then truncate_text filtered limit (os_truncate_strategy spec) = Inr (so_text out) else so_text out = filtered"
    "list_all scalar (so_text out)" "so_shaped_bytes out = int (length (utf8_concat (so_text out)))"
    "so_original_bytes out = int (length (utf8_concat t))"
    "budget' = map_option (\<lambda>b. budget_consume b (so_shaped_bytes out)) budget"
    "so_injection out = (if os_injection_scan spec \<and> scanner \<noteq> None then Some (injection_scan w (the scanner) (so_text out)) else None)"
proof -
  let ?limit = "case budget of None \<Rightarrow> os_max_bytes spec | Some b \<Rightarrow> min (os_max_bytes spec) (budget_remaining b)"
  have pos: "0 \<le> ?limit"
    using assms(2) by (auto simp: budget_remaining_def split: option.split)
  obtain original where g: "encode_text t = Inr original"
    using assms(1) by (cases "encode_text t") (simp_all add: shape_def)
  obtain filtered redactions where f: "filter_text w compile t 0 (os_filter_rules spec) = Inr (filtered, redactions)"
    using assms(1) g by (cases "filter_text w compile t 0 (os_filter_rules spec)") (auto simp: shape_def)
  obtain encoded where e: "encode_text filtered = Inr encoded"
    using assms(1) g f by (cases "encode_text filtered") (simp_all add: shape_def)
  let ?cut = "int (length encoded) > ?limit"
  obtain res where x: "(if ?cut then truncate_text filtered ?limit (os_truncate_strategy spec) else Inr filtered) = Inr res"
    using assms(1) g f e
    by (cases "if ?cut then truncate_text filtered ?limit (os_truncate_strategy spec) else Inr filtered") (simp_all add: shape_def Let_def)
  obtain final where l: "encode_text res = Inr final"
    using assms(1) g f e x by (cases "encode_text res") (simp_all add: shape_def Let_def)
  have run: "out = \<lparr>so_text = res, so_original_bytes = int (length original), so_shaped_bytes = int (length final),
       so_truncated = ?cut, so_redactions = redactions,
       so_injection = (if os_injection_scan spec \<and> scanner \<noteq> None then Some (injection_scan w (the scanner) res) else None)\<rparr>"
      "budget' = map_option (\<lambda>b. budget_consume b (int (length final))) budget"
    using assms(1) g f e x l by (simp_all add: shape_def Let_def)
  show thesis
    by (rule that [of filtered redactions ?limit])
      (use pos g f e x l run in \<open>auto simp: encode_text_Inr split: if_splits\<close>)
qed

section \<open>Detection\<close>

abbreviation caseless :: "string \<Rightarrow> ucs \<Rightarrow> bool" where
  "caseless s u \<equiv> list_all2 (\<lambda>c x. ci_char (of_char c) x) s u"

abbreviation white_run :: "ucs \<Rightarrow> bool" where
  "white_run u \<equiv> u \<noteq> [] \<and> list_all is_white u"

lemma drop_shift: "drop i t = u @ y \<Longrightarrow> drop (i + length u) t = y"
  by (metis add.commute append_eq_conv_conj drop_drop)

lemma drop_next: "drop i t = c # y \<Longrightarrow> drop (Suc i) t = y"
  by (metis drop_Suc list.sel(3) tl_drop)

lemma drop_nth: "drop i t = c # y \<Longrightarrow> char_at t i p = p c"
  by (metis char_at_def drop_eq_Nil leI list.distinct(1) nth_via_drop)

lemma seq_ends: "k \<in> set (match_ends w t r i) \<Longrightarrow> j \<in> set (match_ends w t (seqs rs) k) \<Longrightarrow> j \<in> set (match_ends w t (seqs (r # rs)) i)"
  by auto

lemma ci_ends: "caseless s u \<Longrightarrow> drop i t = u @ y \<Longrightarrow> i + length u \<in> set (match_ends w t (ci s) i)"
proof (induction s u arbitrary: i rule: list_all2_induct)
  case (Cons c s x u)
  have "drop (Suc i) t = u @ y" using Cons.prems by (intro drop_next) simp
  from Cons.IH [OF this] show ?case
    using Cons.hyps(1) drop_nth [of i t x "u @ y"] Cons.prems by (simp add: ci_def)
qed (simp add: ci_def)

lemma match_class: "match_ends w t (Class p) = (\<lambda>i. if char_at t i p then [i + 1] else [])"
  by (rule ext) simp

lemma class_rep_ends:
  "list_all p u \<Longrightarrow> drop i t = u @ y \<Longrightarrow> lo \<le> length u \<Longrightarrow> length u \<le> hi \<Longrightarrow>
   i + length u \<in> set (rep_ends (match_ends w t (Class p)) lo hi i)"
proof (induction u arbitrary: i lo hi)
  case Nil
  then show ?case by (cases hi) auto
next
  case (Cons c u)
  then obtain h where h: "hi = Suc h" by (cases hi) auto
  have "drop (Suc i) t = u @ y" using Cons.prems(2) by (intro drop_next) simp
  then have "Suc i + length u \<in> set (rep_ends (match_ends w t (Class p)) (lo - 1) h (Suc i))"
    by (intro Cons.IH) (use Cons.prems h in auto)
  moreover have "char_at t i p" using drop_nth [of i t c "u @ y"] Cons.prems by simp
  ultimately show ?case by (simp add: h match_class)
qed

lemma white1_ends: "white_run u \<Longrightarrow> drop i t = u @ y \<Longrightarrow> i + length u \<in> set (match_ends w t white1 i)"
proof -
  assume u: "white_run u" "drop i t = u @ y"
  have "length u \<le> length t" using arg_cong [OF u(2), of length] by simp
  then show ?thesis using class_rep_ends [of is_white u i t y 1 "1 + length t" w] u by (simp add: white1_def Suc_le_eq)
qed

lemma opt_skip: "i \<in> set (match_ends w t (opt r) i)"
  by (simp add: opt_def)

lemma opt_take: "j \<in> set (match_ends w t r i) \<Longrightarrow> j \<in> set (match_ends w t (opt r) i)"
  by (cases "j = i") (auto simp: opt_def intro!: bexI [of _ j])

text \<open>Letters, in every form a caseless pattern accepts, are word characters.\<close>

definition word_letters :: "(nat \<Rightarrow> bool) \<Rightarrow> bool" where
  "word_letters w = (\<forall>c x. 97 \<le> c \<and> c \<le> 122 \<and> ci_char c x \<longrightarrow> w x)"

text \<open>
  An override phrase: "ignore previous instructions" or "ignore all previous instructions", in any
  mixture of cases and with any white space between the words.
\<close>

definition override_phrase :: "ucs \<Rightarrow> bool" where
  "override_phrase u = (\<exists>g s1 m p s2 q. u = g @ s1 @ m @ p @ s2 @ q \<and> caseless ''ignore'' g \<and> white_run s1 \<and>
     (m = [] \<or> (\<exists>l s. m = l @ s \<and> caseless ''all'' l \<and> white_run s)) \<and>
     caseless ''previous'' p \<and> white_run s2 \<and> caseless ''instructions'' q)"

lemma override_phraseI:
  assumes "caseless ''ignore'' g" "white_run s1" "caseless ''previous'' p" "white_run s2" "caseless ''instructions'' q"
  shows "override_phrase (g @ s1 @ [] @ p @ s2 @ q)"
  unfolding override_phrase_def using assms by blast

definition stands_alone :: "(nat \<Rightarrow> bool) \<Rightarrow> ucs \<Rightarrow> ucs \<Rightarrow> bool" where
  "stands_alone w a b = ((a = [] \<or> \<not> w (last a)) \<and> (b = [] \<or> \<not> w (hd b)))"

lemma caseless_ends:
  assumes "caseless s u" "word_letters w" "s \<noteq> []" "list_all (\<lambda>c. (of_char c :: nat) \<in> {97..122}) s"
  shows "u \<noteq> []" "w (hd u)" "w (last u)"
proof -
  show ne: "u \<noteq> []" using assms(1,3) by auto
  have "w x" if "x \<in> set u" for x
  proof -
    obtain i where i: "i < length u" "x = u ! i" using \<open>x \<in> set u\<close> by (metis in_set_conv_nth)
    then have "ci_char (of_char (s ! i)) x" "i < length s" using assms(1) by (auto simp: list_all2_conv_all_nth)
    moreover from this have "(of_char (s ! i) :: nat) \<in> {97..122}"
      using assms(4) unfolding list_all_length by simp
    ultimately show ?thesis
      using assms(2) [unfolded word_letters_def, rule_format, of "of_char (s ! i)" x] by simp
  qed
  then show "w (hd u)" "w (last u)" using ne by simp_all
qed

lemma last_char_at: "q \<noteq> [] \<Longrightarrow> char_at (x @ q @ b) (length x + length q - 1) p = p (last q)"
  by (cases q rule: rev_cases) (simp_all add: char_at_def nth_append)

lemma override_found:
  assumes "override_phrase u" "stands_alone w a b" "word_letters w"
  shows "\<exists>j. j \<in> set (match_ends w (a @ u @ b) ignore_previous (length a))"
proof -
  obtain g s1 m p s2 q where u: "u = g @ s1 @ m @ p @ s2 @ q" "caseless ''ignore'' g" "white_run s1"
      "m = [] \<or> (\<exists>l s. m = l @ s \<and> caseless ''all'' l \<and> white_run s)"
      "caseless ''previous'' p" "white_run s2" "caseless ''instructions'' q"
    using assms(1) unfolding override_phrase_def by blast
  let ?t = "a @ u @ b"
  define i1 where "i1 = length a + length g"
  define i2 where "i2 = i1 + length s1"
  define i3 where "i3 = i2 + length m"
  define i4 where "i4 = i3 + length p"
  define i5 where "i5 = i4 + length s2"
  define i6 where "i6 = i5 + length q"
  note pos = i1_def i2_def i3_def i4_def i5_def i6_def
  have d: "drop (length a) ?t = g @ s1 @ m @ p @ s2 @ q @ b" "drop i1 ?t = s1 @ m @ p @ s2 @ q @ b" "drop i2 ?t = m @ p @ s2 @ q @ b"
      "drop i3 ?t = p @ s2 @ q @ b" "drop i4 ?t = s2 @ q @ b" "drop i5 ?t = q @ b" "drop i6 ?t = b"
    by (simp_all add: u(1) pos)
  have g: "g \<noteq> []" "w (hd g)" using caseless_ends(1,2) [OF u(2) assms(3)] by simp_all
  have q: "q \<noteq> []" "w (last q)" using caseless_ends(1,3) [OF u(7) assms(3)] by simp_all
  have "char_at ?t (length a) w" using g by (cases g) (auto simp: u(1) char_at_def)
  moreover have "\<not> (0 < length a \<and> char_at ?t (length a - 1) w)"
    using assms(2) by (auto simp: stands_alone_def char_at_def nth_append last_conv_nth)
  ultimately have first: "length a \<in> set (match_ends w ?t WordBoundary (length a))" by simp
  have "\<not> char_at ?t i6 w"
  proof (cases b)
    case Nil
    then have "length ?t \<le> i6" by (simp add: u(1) pos)
    then show ?thesis by (simp add: char_at_def)
  next
    case (Cons c b')
    then show ?thesis using assms(2) drop_nth [of i6 ?t c b' w] d(7) by (simp add: stands_alone_def)
  qed
  moreover have "0 < i6 \<and> char_at ?t (i6 - 1) w"
    using last_char_at [OF q(1), of "a @ g @ s1 @ m @ p @ s2" b w] q by (simp add: u(1) pos add.assoc)
  ultimately have last: "i6 \<in> set (match_ends w ?t WordBoundary i6)" by simp
  have mid: "i3 \<in> set (match_ends w ?t (opt (seqs [ci ''all'', white1])) i2)"
  proof (cases "m = []")
    case True
    then show ?thesis using opt_skip by (simp add: i3_def)
  next
    case False
    then obtain l s where m: "m = l @ s" "caseless ''all'' l" "white_run s" using u(4) by blast
    have dl: "drop i2 ?t = l @ s @ p @ s2 @ q @ b" using d(3) m(1) by simp
    have "i3 \<in> set (match_ends w ?t (seqs [ci ''all'', white1]) i2)"
      using ci_ends [OF m(2) dl, of w] white1_ends [OF m(3) drop_shift [OF dl], of w]
      by (intro seq_ends) (auto simp: i3_def m(1) add.assoc)
    then show ?thesis by (rule opt_take)
  qed
  have "i6 \<in> set (match_ends w ?t (seqs [WordBoundary]) i6)" using last by simp
  note seq_ends [OF ci_ends [OF u(7) d(6), folded i6_def] this]
  note seq_ends [OF white1_ends [OF u(6) d(5), folded i5_def] this]
  note seq_ends [OF ci_ends [OF u(5) d(4), folded i4_def] this]
  note seq_ends [OF mid this]
  note seq_ends [OF white1_ends [OF u(3) d(2), folded i2_def] this]
  note seq_ends [OF ci_ends [OF u(2) d(1), folded i1_def] this]
  note seq_ends [OF first this]
  then show ?thesis unfolding ignore_previous_def by blast
qed

section \<open>Properties\<close>

lemma override_search:
  assumes "override_phrase u" "stands_alone w a b" "word_letters w"
  shows "re_search w ignore_previous (a @ u @ b) \<noteq> None"
  using override_found [OF assms] unfolding re_search_iff by (intro exI [of _ "length a"]) auto

lemma override_verdict:
  assumes "override_phrase u" "stands_alone w a b" "word_letters w"
  shows "ij_verdict (injection_scan w (new_injection_scanner None None) (a @ u @ b)) = VERDICT_BLOCK"
proof -
  have "injection_matches w (a @ u @ b) HIGH_PATTERNS \<noteq> []"
    using override_search [OF assms] by (simp add: injection_matches_def HIGH_PATTERNS_def)
  then show ?thesis by (simp add: injection_scan_def new_injection_scanner_def Let_def)
qed

text \<open>
  C23: shaped output fits. Whenever shaping returns, the encoding of the text has the reported length,
  at most the workload's limit and the remaining budget; a truncated text is a prefix or a suffix of
  the filtered text, or a prefix of it followed by the marker; and a budget that was not overdrawn
  is not overdrawn afterwards.
\<close>

theorem shape_fits:
  assumes "shape w compile scanner t spec budget = Inr (out, budget')" "0 < os_max_bytes spec"
  shows "(\<exists>bs. utf8_encode (so_text out) = Some bs \<and> so_shaped_bytes out = int (length bs)) \<and>
    so_shaped_bytes out \<le> os_max_bytes spec \<and>
    (\<exists>filtered redactions. filter_text w compile t 0 (os_filter_rules spec) = Inr (filtered, redactions) \<and>
       (if so_truncated out then truncation_of (os_truncate_strategy spec) filtered (so_text out) else so_text out = filtered)) \<and>
    (\<forall>b m. budget = Some b \<and> ob_max b = Some m \<and> ob_used b \<le> m \<longrightarrow>
       (\<exists>b'. budget' = Some b' \<and> ob_max b' = Some m \<and> ob_used b' = ob_used b + so_shaped_bytes out \<and> ob_used b' \<le> m))"
proof -
  have "0 \<le> os_max_bytes spec" using assms(2) by simp
  then obtain filtered redactions limit where c:
    "list_all scalar t" "filter_text w compile t 0 (os_filter_rules spec) = Inr (filtered, redactions)"
    "limit = (case budget of None \<Rightarrow> os_max_bytes spec | Some b \<Rightarrow> min (os_max_bytes spec) (budget_remaining b))"
    "0 \<le> limit" "so_truncated out = (int (length (utf8_concat filtered)) > limit)"
    "if so_truncated out then truncate_text filtered limit (os_truncate_strategy spec) = Inr (so_text out) else so_text out = filtered"
    "list_all scalar (so_text out)" "so_shaped_bytes out = int (length (utf8_concat (so_text out)))"
    "budget' = map_option (\<lambda>b. budget_consume b (so_shaped_bytes out)) budget"
    by (rule shape_cases [OF assms(1)])
  have sc: "list_all scalar filtered" by (rule filter_text_scalar [OF c(2,1)])
  have fit: "so_shaped_bytes out \<le> limit \<and>
      (if so_truncated out then truncation_of (os_truncate_strategy spec) filtered (so_text out) else so_text out = filtered)"
  proof (cases "so_truncated out")
    case True
    then show ?thesis using truncate_text_fits [of filtered limit "os_truncate_strategy spec" "so_text out"] c sc by simp
  next
    case False
    then show ?thesis using c(5,6,8) by simp
  qed
  have "limit \<le> os_max_bytes spec" using c(3) by (simp split: option.splits)
  moreover have "ob_used b + so_shaped_bytes out \<le> m" if "budget = Some b" "ob_max b = Some m" "ob_used b \<le> m" for b m
    using fit that c(3) by (simp add: budget_remaining_def)
  ultimately show ?thesis using fit c(2,7-9) by (auto simp: utf8_encode_def budget_consume_def)
qed

theorem shape_fits_witness:
  "\<exists>out budget'. shape (\<lambda>c. c \<noteq> 32) (\<lambda>_. None) None [0x68, 0xE9, 0x20AC, 0x21]
       \<lparr>os_max_bytes = 4, os_truncate_strategy = TRUNCATE_HEAD, os_filter_rules = [], os_injection_scan = True\<rparr>
       (Some \<lparr>ob_max = Some 10, ob_used = 3\<rparr>) = Inr (out, budget') \<and>
     so_text out = [0x68, 0xE9] \<and> so_shaped_bytes out \<le> 4 \<and> (\<exists>b. budget' = Some b \<and> ob_used b \<le> 10)"
proof -
  let ?spec = "\<lparr>os_max_bytes = 4, os_truncate_strategy = TRUNCATE_HEAD, os_filter_rules = [], os_injection_scan = True\<rparr>"
  let ?b = "\<lparr>ob_max = Some 10, ob_used = 3\<rparr>"
  obtain out budget' where run: "shape (\<lambda>c. c \<noteq> 32) (\<lambda>_. None) None [0x68, 0xE9, 0x20AC, 0x21] ?spec (Some ?b) = Inr (out, budget')"
      "so_text out = [0x68, 0xE9]"
    by (simp add: shape_def encode_text_def utf8_encode_def scalar_def utf8_bytes_def truncate_text_def budget_remaining_def
        continuation_def second_byte_def Let_def)
  show ?thesis using shape_fits [OF run(1)] run by auto
qed

text \<open>
  Filters that only mask keep the number of characters and never make the encoding longer, and
  without truncation the result has as many characters as the tool's output.
\<close>

theorem mask_keeps_length:
  assumes "shape w compile scanner t spec budget = Inr (out, budget')" "0 < os_max_bytes spec"
    and "\<forall>rule \<in> set (os_filter_rules spec). fr_action rule = MASK" "\<not> so_truncated out"
  shows "length (so_text out) = length t \<and> so_shaped_bytes out \<le> so_original_bytes out"
proof -
  have "0 \<le> os_max_bytes spec" using assms(2) by simp
  from shape_cases [OF assms(1) this] obtain filtered redactions where c:
    "filter_text w compile t 0 (os_filter_rules spec) = Inr (filtered, redactions)" "so_text out = filtered"
    "so_shaped_bytes out = int (length (utf8_concat (so_text out)))" "so_original_bytes out = int (length (utf8_concat t))"
    using assms(4) by metis
  then show ?thesis using mask_shorter [OF c(1) assms(3)] by simp
qed

theorem mask_keeps_length_witness:
  "\<exists>out budget'. shape (\<lambda>c. c \<noteq> 32) (\<lambda>_. Some (Class (\<lambda>c. c = 0xE9))) None [0x68, 0xE9, 0x21]
       \<lparr>os_max_bytes = 9, os_truncate_strategy = TRUNCATE_TAIL, os_filter_rules = [\<lparr>fr_pattern = ''x'', fr_action = MASK\<rparr>],
        os_injection_scan = False\<rparr> None = Inr (out, budget') \<and>
     length (so_text out) = 3 \<and> so_shaped_bytes out \<le> so_original_bytes out"
proof -
  let ?spec = "\<lparr>os_max_bytes = 9, os_truncate_strategy = TRUNCATE_TAIL, os_filter_rules = [\<lparr>fr_pattern = ''x'', fr_action = MASK\<rparr>],
    os_injection_scan = False\<rparr>"
  have sub: "re_sub (\<lambda>c. c \<noteq> 32) (Class (\<lambda>c. c = 0xE9)) (replacement MASK) [0x68, 0xE9, 0x21] = ([0x68, 42, 0x21], 1)"
    by (simp add: re_sub_def sub_from.simps [of _ _ _ 0] sub_from.simps [of _ _ _ "Suc (Suc 0)"] sub_ends_def char_at_def
        replacement_def upt_conv_Cons del: upt_Suc)
  obtain out budget' where run: "shape (\<lambda>c. c \<noteq> 32) (\<lambda>_. Some (Class (\<lambda>c. c = 0xE9))) None [0x68, 0xE9, 0x21] ?spec None = Inr (out, budget')"
      "\<not> so_truncated out"
    by (simp add: shape_def encode_text_def utf8_encode_def scalar_def utf8_bytes_def apply_filter_rule_def sub Let_def)
  show ?thesis using mask_keeps_length [OF run(1) _ _ run(2)] run(1) by auto
qed

end
