(* ===== verification/Scheduler.thy ===== *)
theory Scheduler
  imports Tenancy
begin

text \<open>
  The fleet scheduler (\<open>scheduler/models.py\<close>, \<open>scheduler/scheduler.py\<close>): admission with
  backpressure, ordering by QoS class, priority and aging, checkpoints, preemption and
  maintenance freezes. The clock reading of an operation is its argument \<open>now\<close>.
\<close>

section \<open>Models\<close>

datatype qos_class = GUARANTEED | BURSTABLE | BEST_EFFORT

fun qos_value :: "qos_class \<Rightarrow> string" where
  "qos_value GUARANTEED = ''guaranteed''"
| "qos_value BURSTABLE = ''burstable''"
| "qos_value BEST_EFFORT = ''best_effort''"

fun qos_rank :: "qos_class \<Rightarrow> int" where
  "qos_rank GUARANTEED = 2"
| "qos_rank BURSTABLE = 1"
| "qos_rank BEST_EFFORT = 0"

definition preemptible :: "qos_class \<Rightarrow> bool" where
  "preemptible q = (q \<noteq> GUARANTEED)"

datatype backpressure_reason = PER_TENANT_LIMIT | PER_WORKLOAD_LIMIT | QUEUE_DEPTH | MAINTENANCE

fun backpressure_value :: "backpressure_reason \<Rightarrow> string" where
  "backpressure_value PER_TENANT_LIMIT = ''capacity: per_tenant_limit''"
| "backpressure_value PER_WORKLOAD_LIMIT = ''capacity: per_workload_limit''"
| "backpressure_value QUEUE_DEPTH = ''capacity: queue_depth''"
| "backpressure_value MAINTENANCE = ''maintenance: frozen''"

datatype admission_action = ACTION_QUEUED | ACTION_REJECTED

record queue_entry =
  qe_task_id :: string
  qe_tenant_id :: string
  qe_workload :: string
  qe_team :: "string option"
  qe_run_id :: "string option"
  qe_qos :: qos_class
  qe_priority :: int
  qe_attempts :: int
  qe_preempted_by :: "string option"
  qe_submitted_at :: time

record admission_decision =
  ad_entry :: queue_entry
  ad_action :: admission_action
  ad_reason :: "backpressure_reason option"

definition decision_code :: "admission_decision \<Rightarrow> string option" where
  "decision_code d = map_option backpressure_value (ad_reason d)"

record preemption_record =
  pv_victim_task_id :: string
  pv_victim_workload :: string
  pv_victim_qos :: qos_class
  pv_preempted_by :: string
  pv_reason :: string
  pv_at :: time

record waiting_reason =
  wr_task_id :: string
  wr_workload :: string
  wr_qos :: qos_class
  wr_priority :: int
  wr_reason :: string

record queue_snapshot =
  qs_depth :: nat
  qs_by_qos :: "(string, int) dict"
  qs_by_priority :: "(string, int) dict"
  qs_waiting :: "waiting_reason list"
  qs_running_by_workload :: "(string, int) dict"
  qs_running_by_tenant :: "(string, int) dict"

record scheduler_config =
  sg_per_workload_limit :: nat
  sg_per_tenant_limit :: nat
  sg_max_queue_depth :: nat
  sg_aging_seconds :: rat

record running_task =
  rn_entry :: queue_entry
  rn_at_checkpoint :: bool
  rn_started_at :: time

record scheduler =
  sc_queue :: "(string, queue_entry) dict"
  sc_running :: "(string, running_task) dict"
  sc_preemptions :: "preemption_record list"
  sc_frozen_all :: bool
  sc_frozen_tenants :: "string list"
  sc_frozen_workloads :: "string list"

definition new_scheduler :: scheduler where
  "new_scheduler = \<lparr>sc_queue = [], sc_running = [], sc_preemptions = [], sc_frozen_all = False,
     sc_frozen_tenants = [], sc_frozen_workloads = []\<rparr>"

section \<open>Admission and backpressure\<close>

definition is_frozen :: "scheduler \<Rightarrow> string \<Rightarrow> string \<Rightarrow> bool" where
  "is_frozen s workload tenant_id =
     (sc_frozen_all s \<or> tenant_id \<in> set (sc_frozen_tenants s) \<or> workload \<in> set (sc_frozen_workloads s))"

definition running_for_workload :: "scheduler \<Rightarrow> string \<Rightarrow> nat" where
  "running_for_workload s workload =
     length (filter (\<lambda>r. qe_workload (rn_entry r) = workload) (dict_values (sc_running s)))"

definition running_for_tenant :: "scheduler \<Rightarrow> string \<Rightarrow> nat" where
  "running_for_tenant s tenant_id =
     length (filter (\<lambda>r. qe_tenant_id (rn_entry r) = tenant_id) (dict_values (sc_running s)))"

definition sched_submit :: "scheduler_config \<Rightarrow> queue_entry \<Rightarrow> scheduler \<Rightarrow> admission_decision \<times> scheduler" where
  "sched_submit cfg entry s =
     (let reject = (\<lambda>reason. (\<lparr>ad_entry = entry, ad_action = ACTION_REJECTED, ad_reason = Some reason\<rparr>, s)) in
      if is_frozen s (qe_workload entry) (qe_tenant_id entry) then reject MAINTENANCE
      else if running_for_workload s (qe_workload entry) \<ge> sg_per_workload_limit cfg then reject PER_WORKLOAD_LIMIT
      else if running_for_tenant s (qe_tenant_id entry) \<ge> sg_per_tenant_limit cfg then reject PER_TENANT_LIMIT
      else if length (sc_queue s) \<ge> sg_max_queue_depth cfg then reject QUEUE_DEPTH
      else (\<lparr>ad_entry = entry, ad_action = ACTION_QUEUED, ad_reason = None\<rparr>,
            s\<lparr>sc_queue := dict_put (qe_task_id entry) entry (sc_queue s)\<rparr>))"

section \<open>Ordering\<close>

definition score :: "scheduler_config \<Rightarrow> time \<Rightarrow> queue_entry \<Rightarrow> int \<times> rat" where
  "score cfg now entry =
     (let age = max 0 (of_int (now - qe_submitted_at entry) / 1000000);
          aging = min (age / sg_aging_seconds cfg) 10
      in (qos_rank (qe_qos entry), of_int (qe_priority entry) + aging))"

definition dequeue :: "scheduler_config \<Rightarrow> time \<Rightarrow> scheduler \<Rightarrow> queue_entry option \<times> scheduler" where
  "dequeue cfg now s = (case max_by (score cfg now) (dict_values (sc_queue s)) of
       None \<Rightarrow> (None, s)
     | Some entry \<Rightarrow>
         (Some entry,
          s\<lparr>sc_queue := dict_pop (qe_task_id entry) (sc_queue s),
            sc_running := dict_put (qe_task_id entry)
              \<lparr>rn_entry = entry, rn_at_checkpoint = False, rn_started_at = now\<rparr> (sc_running s)\<rparr>))"

section \<open>Running lifecycle\<close>

definition mark_checkpoint :: "string \<Rightarrow> scheduler \<Rightarrow> scheduler" where
  "mark_checkpoint task_id s = (case dict_get (sc_running s) task_id of
       None \<Rightarrow> s
     | Some r \<Rightarrow> s\<lparr>sc_running := dict_put task_id (r\<lparr>rn_at_checkpoint := True\<rparr>) (sc_running s)\<rparr>)"

definition complete :: "string \<Rightarrow> scheduler \<Rightarrow> scheduler" where
  "complete task_id s = s\<lparr>sc_running := dict_pop task_id (sc_running s)\<rparr>"

definition requeue :: "time \<Rightarrow> string \<Rightarrow> string option \<Rightarrow> scheduler \<Rightarrow> queue_entry option \<times> scheduler" where
  "requeue now task_id preempted_by s = (case dict_get (sc_running s) task_id of
       None \<Rightarrow> (None, s)
     | Some r \<Rightarrow>
         (let entry = (rn_entry r)\<lparr>qe_attempts := qe_attempts (rn_entry r) + 1,
                qe_preempted_by := preempted_by, qe_submitted_at := now\<rparr>
          in (Some entry,
              s\<lparr>sc_running := dict_pop task_id (sc_running s),
                sc_queue := dict_put (qe_task_id entry) entry (sc_queue s)\<rparr>)))"

section \<open>Preemption\<close>

definition preempt_candidates :: "scheduler \<Rightarrow> string \<Rightarrow> running_task list" where
  "preempt_candidates s incoming_task_id =
     filter (\<lambda>r. rn_at_checkpoint r \<and> preemptible (qe_qos (rn_entry r)) \<and>
       qe_task_id (rn_entry r) \<noteq> incoming_task_id) (dict_values (sc_running s))"

text \<open>\<open>now_r\<close> is the clock reading of the nested \<open>requeue\<close>.\<close>

definition preempt :: "time \<Rightarrow> time \<Rightarrow> string \<Rightarrow> scheduler \<Rightarrow> preemption_record option \<times> scheduler" where
  "preempt now now_r incoming_task_id s = (case dict_get (sc_running s) incoming_task_id of
       None \<Rightarrow> (None, s)
     | Some incoming \<Rightarrow>
         (if qe_qos (rn_entry incoming) \<noteq> GUARANTEED then (None, s)
          else (case min_by (\<lambda>r. qos_rank (qe_qos (rn_entry r))) (preempt_candidates s incoming_task_id) of
              None \<Rightarrow> (None, s)
            | Some victim \<Rightarrow>
                (let v = rn_entry victim;
                     r = \<lparr>pv_victim_task_id = qe_task_id v, pv_victim_workload = qe_workload v,
                       pv_victim_qos = qe_qos v, pv_preempted_by = incoming_task_id,
                       pv_reason = ''preempted by guaranteed work at checkpoint'', pv_at = now\<rparr>
                 in (Some r, snd (requeue now_r (qe_task_id v) (Some incoming_task_id)
                       (s\<lparr>sc_preemptions := sc_preemptions s @ [r]\<rparr>)))))))"

section \<open>Maintenance\<close>

definition freeze :: "string option \<Rightarrow> string option \<Rightarrow> scheduler \<Rightarrow> scheduler" where
  "freeze tenant_id workload s =
     s\<lparr>sc_frozen_all := (sc_frozen_all s \<or> (tenant_id = None \<and> workload = None)),
       sc_frozen_tenants := (case tenant_id of None \<Rightarrow> sc_frozen_tenants s | Some t \<Rightarrow> List.insert t (sc_frozen_tenants s)),
       sc_frozen_workloads := (case workload of None \<Rightarrow> sc_frozen_workloads s | Some w \<Rightarrow> List.insert w (sc_frozen_workloads s))\<rparr>"

definition unfreeze :: "string option \<Rightarrow> string option \<Rightarrow> scheduler \<Rightarrow> scheduler" where
  "unfreeze tenant_id workload s =
     s\<lparr>sc_frozen_all := (sc_frozen_all s \<and> \<not> (tenant_id = None \<and> workload = None)),
       sc_frozen_tenants := (case tenant_id of None \<Rightarrow> sc_frozen_tenants s | Some t \<Rightarrow> removeAll t (sc_frozen_tenants s)),
       sc_frozen_workloads := (case workload of None \<Rightarrow> sc_frozen_workloads s | Some w \<Rightarrow> removeAll w (sc_frozen_workloads s))\<rparr>"

section \<open>Visibility\<close>

definition count_key :: "string \<Rightarrow> (string, int) dict \<Rightarrow> (string, int) dict" where
  "count_key k d = dict_put k (dict_get_default d k 0 + 1) d"

definition sched_snapshot :: "scheduler \<Rightarrow> tenant_context \<Rightarrow> queue_snapshot" where
  "sched_snapshot s ctx =
     (let queue = filter (\<lambda>e. scopes ctx (qe_tenant_id e)) (dict_values (sc_queue s));
          running = filter (\<lambda>r. scopes ctx (qe_tenant_id (rn_entry r))) (dict_values (sc_running s))
      in \<lparr>qs_depth = length queue,
          qs_by_qos = fold (\<lambda>e. count_key (qos_value (qe_qos e))) queue [],
          qs_by_priority = fold (\<lambda>e. count_key (int_str (qe_priority e))) queue [],
          qs_waiting = map (\<lambda>e. \<lparr>wr_task_id = qe_task_id e, wr_workload = qe_workload e, wr_qos = qe_qos e,
            wr_priority = qe_priority e, wr_reason = ''awaiting capacity''\<rparr>) queue,
          qs_running_by_workload = fold (\<lambda>r. count_key (qe_workload (rn_entry r))) running [],
          qs_running_by_tenant = fold (\<lambda>r. count_key (qe_tenant_id (rn_entry r))) running []\<rparr>)"

section \<open>The step relation\<close>

text \<open>
  One call on the scheduler. A caller submits a task id that is neither queued nor running, as
  the run service does with fresh run ids.
\<close>

inductive sched_step :: "scheduler_config \<Rightarrow> scheduler \<Rightarrow> scheduler \<Rightarrow> bool" for cfg where
  step_submit: "dict_get (sc_queue s) (qe_task_id e) = None \<Longrightarrow> dict_get (sc_running s) (qe_task_id e) = None \<Longrightarrow>
    sched_step cfg s (snd (sched_submit cfg e s))"
| step_dequeue: "sched_step cfg s (snd (dequeue cfg now s))"
| step_checkpoint: "sched_step cfg s (mark_checkpoint t s)"
| step_complete: "sched_step cfg s (complete t s)"
| step_requeue: "sched_step cfg s (snd (requeue now t by s))"
| step_preempt: "sched_step cfg s (snd (preempt now now_r t s))"
| step_freeze: "sched_step cfg s (freeze t w s)"
| step_unfreeze: "sched_step cfg s (unfreeze t w s)"

definition sched_ok :: "scheduler \<Rightarrow> bool" where
  "sched_ok s \<longleftrightarrow> dict_ok (sc_queue s) \<and> dict_ok (sc_running s) \<and>
     (\<forall>k e. dict_get (sc_queue s) k = Some e \<longrightarrow> qe_task_id e = k) \<and>
     (\<forall>k r. dict_get (sc_running s) k = Some r \<longrightarrow> qe_task_id (rn_entry r) = k) \<and>
     (\<forall>k. dict_get (sc_queue s) k = None \<or> dict_get (sc_running s) k = None) \<and>
     (\<forall>p \<in> set (sc_preemptions s). preemptible (pv_victim_qos p))"

lemma sched_okD:
  assumes "sched_ok s"
  shows "dict_ok (sc_queue s)" "dict_ok (sc_running s)"
    "dict_get (sc_queue s) k = Some e \<Longrightarrow> qe_task_id e = k"
    "dict_get (sc_running s) k = Some r \<Longrightarrow> qe_task_id (rn_entry r) = k"
    "dict_get (sc_queue s) k = Some e \<Longrightarrow> dict_get (sc_running s) k = None"
    "dict_get (sc_running s) k = Some r \<Longrightarrow> dict_get (sc_queue s) k = None"
    "p \<in> set (sc_preemptions s) \<Longrightarrow> preemptible (pv_victim_qos p)"
  using assms unfolding sched_ok_def by (blast, blast, blast, blast, metis option.distinct(1), metis option.distinct(1), blast)

lemma sched_ok_apart: "sched_ok s \<Longrightarrow> dict_get (sc_queue s) k = None \<or> dict_get (sc_running s) k = None"
  unfolding sched_ok_def by (elim conjE) (erule spec)

lemma sched_okI:
  assumes "dict_ok (sc_queue s)" "dict_ok (sc_running s)"
    "\<And>k e. dict_get (sc_queue s) k = Some e \<Longrightarrow> qe_task_id e = k"
    "\<And>k r. dict_get (sc_running s) k = Some r \<Longrightarrow> qe_task_id (rn_entry r) = k"
    "\<And>k e. dict_get (sc_queue s) k = Some e \<Longrightarrow> dict_get (sc_running s) k = None"
    "\<And>p. p \<in> set (sc_preemptions s) \<Longrightarrow> preemptible (pv_victim_qos p)"
  shows "sched_ok s"
proof -
  have apart: "dict_get (sc_queue s) k = None \<or> dict_get (sc_running s) k = None" for k
  proof (cases "dict_get (sc_queue s) k")
    case (Some e)
    show ?thesis by (rule disjI2) (rule assms(5) [OF Some])
  qed (rule disjI1)
  show ?thesis
    unfolding sched_ok_def by (intro conjI allI impI ballI apart assms(1,2)) (erule assms(3,4,6))+
qed

lemma dict_value_get: "dict_ok d \<Longrightarrow> v \<in> set (dict_values d) \<Longrightarrow> \<exists>k. dict_get d k = Some v"
  by (auto simp: dict_get_in_set)

lemma dequeue_pick:
  assumes "sched_ok s" "max_by (score cfg now) (dict_values (sc_queue s)) = Some e"
  shows "dict_get (sc_queue s) (qe_task_id e) = Some e"
  using dict_value_get [OF sched_okD(1) [OF assms(1)] max_by_in_set [OF assms(2)]] sched_okD(3) [OF assms(1)] by metis

lemma preempt_pick:
  assumes "sched_ok s" "min_by f (preempt_candidates s t) = Some v"
  shows "dict_get (sc_running s) (qe_task_id (rn_entry v)) = Some v" "rn_at_checkpoint v"
    "preemptible (qe_qos (rn_entry v))" "qe_task_id (rn_entry v) \<noteq> t"
proof -
  note v = min_by_in_set [OF assms(2), unfolded preempt_candidates_def]
  then show "rn_at_checkpoint v" "preemptible (qe_qos (rn_entry v))" "qe_task_id (rn_entry v) \<noteq> t" by auto
  have "v \<in> set (dict_values (sc_running s))" using v by auto
  then show "dict_get (sc_running s) (qe_task_id (rn_entry v)) = Some v"
    using dict_value_get [OF sched_okD(2) [OF assms(1)]] sched_okD(4) [OF assms(1)] by metis
qed

text \<open>Updates of the two dictionaries that keep the invariant.\<close>

lemma sched_ok_queue:
  assumes "sched_ok s" "dict_get (sc_running s) (qe_task_id e) = None"
  shows "sched_ok (s\<lparr>sc_queue := dict_put (qe_task_id e) e (sc_queue s)\<rparr>)"
  using assms unfolding sched_ok_def by (simp add: dict_ok_put)

lemma sched_ok_frame:
  assumes "sched_ok s" "sc_queue s' = sc_queue s" "sc_running s' = sc_running s" "sc_preemptions s' = sc_preemptions s"
  shows "sched_ok s'"
  using assms unfolding sched_ok_def by simp

lemma sched_ok_complete:
  assumes "sched_ok s"
  shows "sched_ok (complete t s)"
  using sched_okD(1,2) [OF assms]
  by (intro sched_okI) (auto simp: complete_def dest: sched_okD(3-) [OF assms] split: if_splits)

lemma sched_ok_requeue:
  assumes "sched_ok s"
  shows "sched_ok (snd (requeue now t by s))"
proof (cases "dict_get (sc_running s) t")
  case (Some r)
  let ?e = "(rn_entry r)\<lparr>qe_attempts := qe_attempts (rn_entry r) + 1, qe_preempted_by := by, qe_submitted_at := now\<rparr>"
  have t: "qe_task_id ?e = t" using sched_okD(4) [OF assms Some] by simp
  have "dict_get (sc_running (complete t s)) (qe_task_id ?e) = None" using t by (simp add: complete_def)
  from sched_ok_queue [OF sched_ok_complete [OF assms] this] show ?thesis
    using Some by (simp add: requeue_def complete_def Let_def)
qed (simp add: requeue_def assms)

lemma sched_ok_dequeue:
  assumes "sched_ok s"
  shows "sched_ok (snd (dequeue cfg now s))"
proof (cases "max_by (score cfg now) (dict_values (sc_queue s))")
  case (Some e)
  have "dict_get (sc_queue s) (qe_task_id e) = Some e" by (rule dequeue_pick [OF assms Some])
  then show ?thesis
    using Some sched_okD(1,2) [OF assms]
    by (intro sched_okI) (auto simp: dequeue_def dest: sched_okD(3-) [OF assms] split: if_splits)
qed (simp add: dequeue_def assms)

lemma sched_ok_preempt:
  assumes "sched_ok s"
  shows "sched_ok (snd (preempt now now_r t s))"
proof -
  have trail: "sched_ok (s\<lparr>sc_preemptions := sc_preemptions s @ [r]\<rparr>)" if "preemptible (pv_victim_qos r)" for r
    using assms that unfolding sched_ok_def by auto
  show ?thesis
    unfolding preempt_def Let_def
    by (auto simp: assms intro!: sched_ok_requeue trail dest: preempt_pick(3) [OF assms] split: option.split)
qed

lemma sched_step_ok:
  assumes "sched_step cfg s s'" "sched_ok s"
  shows "sched_ok s'"
  using assms
proof (induction rule: sched_step.induct)
  case (step_submit s e)
  then show ?case using sched_ok_queue [of s e] by (simp add: sched_submit_def Let_def)
next
  case (step_checkpoint s t)
  show ?case
  proof (cases "dict_get (sc_running s) t")
    case (Some r)
    then show ?thesis
      using sched_okD(1,2) [OF step_checkpoint]
      by (intro sched_okI) (auto simp: mark_checkpoint_def dest: sched_okD(3-) [OF step_checkpoint] split: if_splits)
  qed (simp add: mark_checkpoint_def step_checkpoint)
next
  case (step_freeze s t w)
  then show ?case by (rule sched_ok_frame) (simp_all add: freeze_def)
next
  case (step_unfreeze s t w)
  then show ?case by (rule sched_ok_frame) (simp_all add: unfreeze_def)
qed (simp_all add: sched_ok_dequeue sched_ok_complete sched_ok_requeue sched_ok_preempt)

section \<open>The abstract task lifecycle\<close>

text \<open>
  What the scheduler promises of a task, without order and capacity: it is unknown, waiting or
  running, and a call moves at most one task along one edge.
\<close>

datatype task_status = UNKNOWN | WAITING | STARTED

type_synonym task_pool = "string \<Rightarrow> task_status"

inductive task_move :: "task_pool \<Rightarrow> task_pool \<Rightarrow> bool" where
  task_submit: "p t = UNKNOWN \<Longrightarrow> task_move p (p(t := WAITING))"
| task_start: "p t = WAITING \<Longrightarrow> task_move p (p(t := STARTED))"
| task_return: "p t = STARTED \<Longrightarrow> task_move p (p(t := WAITING))"
| task_finish: "p t = STARTED \<Longrightarrow> task_move p (p(t := UNKNOWN))"

definition task_pool_of :: "scheduler \<Rightarrow> task_pool" where
  "task_pool_of s = (\<lambda>t. if dict_get (sc_queue s) t \<noteq> None then WAITING
     else if dict_get (sc_running s) t \<noteq> None then STARTED else UNKNOWN)"

lemma task_pool_requeue:
  assumes "sched_ok s" "dict_get (sc_running s) t = Some r"
  shows "task_pool_of s t = STARTED"
    "task_pool_of (snd (requeue now t by s)) = (task_pool_of s)(t := WAITING)"
proof -
  have id: "qe_task_id (rn_entry r) = t" by (rule sched_okD(4) [OF assms])
  have "dict_get (sc_queue s) t = None" by (rule sched_okD(6) [OF assms])
  then show "task_pool_of s t = STARTED" using assms(2) by (simp add: task_pool_of_def)
  show "task_pool_of (snd (requeue now t by s)) = (task_pool_of s)(t := WAITING)"
    using assms(2) id by (auto simp: task_pool_of_def requeue_def Let_def)
qed

lemma task_pool_cong:
  "sc_queue s' = sc_queue s \<Longrightarrow> sc_running s' = sc_running s \<Longrightarrow> task_pool_of s' = task_pool_of s"
  by (simp add: task_pool_of_def cong: if_cong)

lemma requeue_moves:
  assumes "sched_ok s"
  shows "task_move\<^sup>=\<^sup>= (task_pool_of s) (task_pool_of (snd (requeue now t by s)))"
proof (cases "dict_get (sc_running s) t")
  case (Some r)
  show ?thesis
    using task_return [of "task_pool_of s" t] task_pool_requeue [OF assms Some] by simp
qed (simp add: requeue_def)

lemma dequeue_moves:
  assumes "sched_ok s"
  shows "task_move\<^sup>=\<^sup>= (task_pool_of s) (task_pool_of (snd (dequeue cfg now s)))"
proof (cases "max_by (score cfg now) (dict_values (sc_queue s))")
  case (Some e)
  let ?t = "qe_task_id e"
  have "dict_get (sc_queue s) ?t = Some e" by (rule dequeue_pick [OF assms Some])
  then have "task_pool_of s ?t = WAITING" by (simp add: task_pool_of_def)
  moreover have "task_pool_of (snd (dequeue cfg now s)) = (task_pool_of s)(?t := STARTED)"
    using Some by (auto simp: task_pool_of_def dequeue_def)
  ultimately show ?thesis using task_start by simp
qed (simp add: dequeue_def)

lemma complete_moves:
  assumes "sched_ok s"
  shows "task_move\<^sup>=\<^sup>= (task_pool_of s) (task_pool_of (complete t s))"
proof (cases "dict_get (sc_running s) t")
  case None
  then have "task_pool_of (complete t s) = task_pool_of s" by (auto simp: task_pool_of_def complete_def cong: if_cong)
  then show ?thesis by simp
next
  case (Some r)
  have q: "dict_get (sc_queue s) t = None" by (rule sched_okD(6) [OF assms Some])
  then have "task_pool_of s t = STARTED" using Some by (simp add: task_pool_of_def)
  moreover have "task_pool_of (complete t s) = (task_pool_of s)(t := UNKNOWN)"
    using q by (auto simp: task_pool_of_def complete_def)
  ultimately show ?thesis using task_finish by simp
qed

lemma preempt_cases:
  assumes "sched_ok s" "preempt now now_r t s = (res, s')"
  obtains "res = None" "s' = s"
  | v r inc where "res = Some r" "dict_get (sc_running s) t = Some inc" "qe_qos (rn_entry inc) = GUARANTEED"
    "min_by (\<lambda>r. qos_rank (qe_qos (rn_entry r))) (preempt_candidates s t) = Some v"
    "pv_victim_task_id r = qe_task_id (rn_entry v)" "pv_victim_qos r = qe_qos (rn_entry v)" "pv_preempted_by r = t"
    "s' = snd (requeue now_r (qe_task_id (rn_entry v)) (Some t) (s\<lparr>sc_preemptions := sc_preemptions s @ [r]\<rparr>))"
  using assms(2) unfolding preempt_def Let_def
  by (cases "dict_get (sc_running s) t"; cases "min_by (\<lambda>r. qos_rank (qe_qos (rn_entry r))) (preempt_candidates s t)")
    (auto split: if_splits)

lemma preempt_moves:
  assumes "sched_ok s"
  shows "task_move\<^sup>=\<^sup>= (task_pool_of s) (task_pool_of (snd (preempt now now_r t s)))"
proof -
  obtain res s' where p: "preempt now now_r t s = (res, s')" by (cases "preempt now now_r t s")
  from assms p show ?thesis
  proof (cases rule: preempt_cases)
    case 1
    then show ?thesis using p by simp
  next
    case (2 v r inc)
    let ?s = "s\<lparr>sc_preemptions := sc_preemptions s @ [r]\<rparr>"
    have "sched_ok ?s"
      using assms preempt_pick(3) [OF assms 2(4)] 2(6) unfolding sched_ok_def by auto
    from requeue_moves [OF this] show ?thesis
      using p 2(8) task_pool_cong [of ?s s] by simp
  qed
qed

lemma sched_step_moves:
  assumes "sched_step cfg s s'" "sched_ok s"
  shows "task_move\<^sup>=\<^sup>= (task_pool_of s) (task_pool_of s')"
  using assms
proof (induction rule: sched_step.induct)
  case (step_submit s e)
  then have "task_pool_of s (qe_task_id e) = UNKNOWN" by (simp add: task_pool_of_def)
  moreover have "task_pool_of (s\<lparr>sc_queue := dict_put (qe_task_id e) e (sc_queue s)\<rparr>) =
      (task_pool_of s)(qe_task_id e := WAITING)"
    by (auto simp: task_pool_of_def)
  ultimately show ?case using task_submit by (simp add: sched_submit_def Let_def)
next
  case (step_checkpoint s t)
  have "task_pool_of (mark_checkpoint t s) = task_pool_of s"
    by (cases "dict_get (sc_running s) t") (auto simp: mark_checkpoint_def task_pool_of_def cong: if_cong)
  then show ?case by simp
next
  case (step_freeze s t w)
  have "task_pool_of (freeze t w s) = task_pool_of s" by (rule task_pool_cong) (simp_all add: freeze_def)
  then show ?case by simp
next
  case (step_unfreeze s t w)
  have "task_pool_of (unfreeze t w s) = task_pool_of s" by (rule task_pool_cong) (simp_all add: unfreeze_def)
  then show ?case by simp
qed (simp_all only: requeue_moves dequeue_moves complete_moves preempt_moves)

lemma new_scheduler_ok: "sched_ok new_scheduler"
  by (simp add: sched_ok_def new_scheduler_def)

lemma reachable_ok:
  assumes "(sched_step cfg)\<^sup>*\<^sup>* new_scheduler s"
  shows "sched_ok s"
  using assms by (induction rule: rtranclp_induct) (auto intro: new_scheduler_ok sched_step_ok)

text \<open>Repeated dequeues, each at its own time.\<close>

fun drain :: "scheduler_config \<Rightarrow> time list \<Rightarrow> scheduler \<Rightarrow> scheduler" where
  "drain cfg [] s = s"
| "drain cfg (now # rest) s = drain cfg rest (snd (dequeue cfg now s))"

lemma dequeue_some:
  assumes "sched_ok s" "sc_queue s \<noteq> []"
  obtains e where "max_by (score cfg now) (dict_values (sc_queue s)) = Some e"
    "dict_get (sc_queue s) (qe_task_id e) = Some e"
  using dequeue_pick [OF assms(1)] assms(2) by (cases "max_by (score cfg now) (dict_values (sc_queue s))") auto

lemma dict_pop_absent: "k \<notin> set (dict_keys d) \<Longrightarrow> dict_pop k d = d"
  by (force simp: dict_pop_filter filter_id_conv)

lemma length_dict_pop: "dict_ok d \<Longrightarrow> dict_get d k = Some v \<Longrightarrow> Suc (length (dict_pop k d)) = length d"
  by (induction d) (auto simp: dict_pop_absent split: if_splits)

lemma drain_all:
  assumes "sched_ok s" "length (sc_queue s) \<le> length ts"
  shows "sc_queue (drain cfg ts s) = [] \<and>
    (\<forall>t. dict_get (sc_queue s) t \<noteq> None \<or> dict_get (sc_running s) t \<noteq> None \<longrightarrow>
       dict_get (sc_running (drain cfg ts s)) t \<noteq> None)"
  using assms
proof (induction ts arbitrary: s)
  case (Cons now rest)
  show ?case
  proof (cases "sc_queue s = []")
    case True
    then have "dequeue cfg now s = (None, s)" by (simp add: dequeue_def)
    then show ?thesis using Cons.IH [OF Cons.prems(1)] True by simp
  next
    case False
    obtain e where e: "max_by (score cfg now) (dict_values (sc_queue s)) = Some e"
        "dict_get (sc_queue s) (qe_task_id e) = Some e"
      by (rule dequeue_some [OF Cons.prems(1) False])
    let ?s = "snd (dequeue cfg now s)"
    have "Suc (length (sc_queue ?s)) = length (sc_queue s)"
      using length_dict_pop [OF sched_okD(1) [OF Cons.prems(1)] e(2)] e(1) by (simp add: dequeue_def)
    then have IH: "sc_queue (drain cfg rest ?s) = [] \<and>
        (\<forall>t. dict_get (sc_queue ?s) t \<noteq> None \<or> dict_get (sc_running ?s) t \<noteq> None \<longrightarrow>
           dict_get (sc_running (drain cfg rest ?s)) t \<noteq> None)"
      using Cons.IH [OF sched_ok_dequeue [OF Cons.prems(1)], of cfg now] Cons.prems(2) by simp
    have "dict_get (sc_queue ?s) t \<noteq> None \<or> dict_get (sc_running ?s) t \<noteq> None"
      if "dict_get (sc_queue s) t \<noteq> None \<or> dict_get (sc_running s) t \<noteq> None" for t
      using that e(1) by (auto simp: dequeue_def)
    with IH show ?thesis unfolding drain.simps by blast
  qed
qed simp

text \<open>Entries and configurations for the concrete instances.\<close>

definition sample_entry :: "string \<Rightarrow> qos_class \<Rightarrow> time \<Rightarrow> queue_entry" where
  "sample_entry t q at0 = \<lparr>qe_task_id = t, qe_tenant_id = ''t'', qe_workload = ''w'', qe_team = None, qe_run_id = None,
     qe_qos = q, qe_priority = 0, qe_attempts = 1, qe_preempted_by = None, qe_submitted_at = at0\<rparr>"

definition sample_config :: scheduler_config where
  "sample_config = \<lparr>sg_per_workload_limit = 1, sg_per_tenant_limit = 32, sg_max_queue_depth = 1000, sg_aging_seconds = 60\<rparr>"

definition sample_queue :: scheduler where
  "sample_queue = new_scheduler\<lparr>sc_queue := [(''a'', sample_entry ''a'' BEST_EFFORT 0), (''b'', sample_entry ''b'' GUARANTEED 9)]\<rparr>"

definition sample_running :: scheduler where
  "sample_running = new_scheduler\<lparr>sc_running :=
     [(''a'', \<lparr>rn_entry = sample_entry ''a'' BEST_EFFORT 0, rn_at_checkpoint = True, rn_started_at = 0\<rparr>),
      (''b'', \<lparr>rn_entry = sample_entry ''b'' GUARANTEED 9, rn_at_checkpoint = False, rn_started_at = 0\<rparr>)]\<rparr>"

lemma sample_queue_ok: "sched_ok sample_queue"
  by (rule sched_okI) (auto simp: sample_queue_def new_scheduler_def sample_entry_def split: if_splits)

lemma sample_running_ok: "sched_ok sample_running"
  by (rule sched_okI) (auto simp: sample_running_def new_scheduler_def sample_entry_def split: if_splits)

section \<open>Properties\<close>

text \<open>
  C9: the scheduler implements the abstract task lifecycle. From a new scheduler, under any
  sequence of calls that submit only unknown task ids, no task is ever both waiting and running,
  no guaranteed task is ever recorded as a victim, and every call moves at most one task along
  one edge of the lifecycle: submitted, started, returned to the queue, finished.
\<close>

theorem scheduler_refines_lifecycle:
  assumes "(sched_step cfg)\<^sup>*\<^sup>* new_scheduler s" "sched_step cfg s s'"
  shows "task_move\<^sup>=\<^sup>= (task_pool_of s) (task_pool_of s') \<and>
    (dict_get (sc_queue s') t = None \<or> dict_get (sc_running s') t = None) \<and>
    (\<forall>p \<in> set (sc_preemptions s'). pv_victim_qos p \<noteq> GUARANTEED)"
proof -
  have ok: "sched_ok s" by (rule reachable_ok [OF assms(1)])
  have ok': "sched_ok s'" by (rule sched_step_ok [OF assms(2) ok])
  show ?thesis
    using sched_okD(7) [OF ok']
    by (intro conjI sched_step_moves [OF assms(2) ok] sched_ok_apart [OF ok']) (simp add: preemptible_def)
qed

theorem scheduler_refines_lifecycle_witness:
  "task_move\<^sup>=\<^sup>= (task_pool_of new_scheduler)
     (task_pool_of (snd (sched_submit sample_config (sample_entry ''a'' BURSTABLE 0) new_scheduler)))"
proof -
  have "sched_step sample_config new_scheduler
      (snd (sched_submit sample_config (sample_entry ''a'' BURSTABLE 0) new_scheduler))"
    by (rule step_submit) (simp_all add: new_scheduler_def)
  from scheduler_refines_lifecycle [OF rtranclp.rtrancl_refl this] show ?thesis by blast
qed

text \<open>
  C11: progress. With no further submissions, as many dequeues as there are queued tasks start
  every one of them, whatever their class, priority and age, and empty the queue.
\<close>

theorem drain_starts_all:
  assumes "(sched_step cfg)\<^sup>*\<^sup>* new_scheduler s" "length (sc_queue s) \<le> length ts"
  shows "sc_queue (drain cfg ts s) = [] \<and>
    (dict_get (sc_queue s) t \<noteq> None \<longrightarrow> dict_get (sc_running (drain cfg ts s)) t \<noteq> None)"
  using drain_all [OF reachable_ok [OF assms(1)] assms(2)] by blast

theorem drain_starts_all_witness:
  "sc_queue (drain sample_config [5] (snd (sched_submit sample_config (sample_entry ''a'' BURSTABLE 0) new_scheduler))) = []"
proof -
  let ?s = "snd (sched_submit sample_config (sample_entry ''a'' BURSTABLE 0) new_scheduler)"
  have "sched_step sample_config new_scheduler ?s" by (rule step_submit) (simp_all add: new_scheduler_def)
  then have r: "(sched_step sample_config)\<^sup>*\<^sup>* new_scheduler ?s" by (rule r_into_rtranclp)
  have l: "length (sc_queue ?s) \<le> length [5 :: time]"
    by (simp add: sched_submit_def new_scheduler_def Let_def)
  from drain_starts_all [OF r l] show ?thesis by blast
qed

text \<open>
  A dequeue starts a task of the best score: no queued task has a higher QoS class, and none of
  the same class a higher aged priority. So, however long it has waited, a task of a lower class
  is not started while one of a higher class is queued: aging does not work across classes.
\<close>

theorem dequeue_order:
  assumes "sched_ok s" "dequeue cfg now s = (Some e, s')" "dict_get (sc_queue s) t = Some x"
  shows "dict_get (sc_queue s) (qe_task_id e) = Some e \<and>
    dict_get (sc_queue s') (qe_task_id e) = None \<and> map_option rn_entry (dict_get (sc_running s') (qe_task_id e)) = Some e \<and>
    qos_rank (qe_qos x) \<le> qos_rank (qe_qos e) \<and>
    (qe_qos x = qe_qos e \<longrightarrow> snd (score cfg now x) \<le> snd (score cfg now e)) \<and>
    (t \<noteq> qe_task_id e \<longrightarrow> dict_get (sc_queue s') t = Some x)"
proof -
  have m: "max_by (score cfg now) (dict_values (sc_queue s)) = Some e"
    and s': "s' = s\<lparr>sc_queue := dict_pop (qe_task_id e) (sc_queue s),
      sc_running := dict_put (qe_task_id e) \<lparr>rn_entry = e, rn_at_checkpoint = False, rn_started_at = now\<rparr> (sc_running s)\<rparr>"
    using assms(2) by (auto simp: dequeue_def split: option.splits)
  have "x \<in> set (dict_values (sc_queue s))" using map_of_SomeD [OF assms(3)] by force
  then have "score cfg now x \<le> score cfg now e" by (rule max_by_ge [OF m])
  then have "qos_rank (qe_qos x) \<le> qos_rank (qe_qos e) \<and>
      (qe_qos x = qe_qos e \<longrightarrow> snd (score cfg now x) \<le> snd (score cfg now e))"
    by (auto simp: score_def Let_def less_eq_prod_def)
  with dequeue_pick [OF assms(1) m] assms(3) show ?thesis by (simp add: s')
qed

theorem dequeue_order_witness:
  "fst (dequeue sample_config 1000000000000 sample_queue) = Some (sample_entry ''b'' GUARANTEED 9) \<and>
   qos_rank BEST_EFFORT \<le> qos_rank GUARANTEED"
proof -
  have d: "dequeue sample_config 1000000000000 sample_queue =
      (Some (sample_entry ''b'' GUARANTEED 9), snd (dequeue sample_config 1000000000000 sample_queue))"
    by (simp add: dequeue_def sample_queue_def new_scheduler_def score_def Let_def sample_entry_def sample_config_def)
  have x: "dict_get (sc_queue sample_queue) ''a'' = Some (sample_entry ''a'' BEST_EFFORT 0)"
    by (simp add: sample_queue_def)
  from dequeue_order [OF sample_queue_ok d x] d show ?thesis
    by (metis fst_conv queue_entry.select_convs(6) sample_entry_def)
qed

text \<open>
  C10: preemption is safe. A preemption happens only for running guaranteed work; its victim was
  running at a checkpoint, is another task and is not guaranteed; the victim goes back to the
  queue with one more attempt and the preemptor's name, every other task keeps its place, and the
  preemption is appended to the trail.
\<close>

theorem preempt_safe:
  assumes "sched_ok s" "preempt now now_r t s = (Some r, s')"
  shows "\<exists>inc v. dict_get (sc_running s) t = Some inc \<and> qe_qos (rn_entry inc) = GUARANTEED \<and>
    dict_get (sc_running s) (pv_victim_task_id r) = Some v \<and> rn_at_checkpoint v \<and>
    qe_qos (rn_entry v) \<noteq> GUARANTEED \<and> pv_victim_task_id r \<noteq> t \<and>
    sc_queue s' = dict_put (pv_victim_task_id r) ((rn_entry v)\<lparr>qe_attempts := qe_attempts (rn_entry v) + 1,
      qe_preempted_by := Some t, qe_submitted_at := now_r\<rparr>) (sc_queue s) \<and>
    sc_running s' = dict_pop (pv_victim_task_id r) (sc_running s) \<and>
    sc_preemptions s' = sc_preemptions s @ [r]"
  using assms
proof (cases rule: preempt_cases)
  case (2 v r' inc)
  note v = preempt_pick [OF assms(1) 2(4)]
  have "r' = r" using 2(1) by simp
  with 2 v show ?thesis
    by (intro exI [of _ inc] exI [of _ v]) (simp add: requeue_def Let_def preemptible_def)
qed simp

theorem preempt_safe_witness:
  "\<exists>r s'. preempt 1 2 ''b'' sample_running = (Some r, s') \<and> pv_victim_task_id r \<noteq> ''b'' \<and>
     sc_preemptions s' = [r]"
proof -
  obtain r s' where p: "preempt 1 2 ''b'' sample_running = (Some r, s')"
    by (simp add: preempt_def preempt_candidates_def preemptible_def sample_running_def new_scheduler_def
        sample_entry_def Let_def)
  from preempt_safe [OF sample_running_ok p] have "pv_victim_task_id r \<noteq> ''b'' \<and> sc_preemptions s' = [r]"
    by (auto simp: sample_running_def new_scheduler_def)
  with p show ?thesis by blast
qed

text \<open>
  Admission. A submission is queued exactly when nothing freezes it and the running tasks of
  its workload, those of its tenant and the queue are below their limits; a rejection names its
  reason and changes nothing. The limits count running tasks only: of two tasks submitted before
  the first is started, both are queued and both are started, although the workload limit is one.
\<close>

theorem submit_backpressure:
  "(ad_action (fst (sched_submit cfg e s)) = ACTION_QUEUED) =
     (\<not> is_frozen s (qe_workload e) (qe_tenant_id e) \<and>
      running_for_workload s (qe_workload e) < sg_per_workload_limit cfg \<and>
      running_for_tenant s (qe_tenant_id e) < sg_per_tenant_limit cfg \<and>
      length (sc_queue s) < sg_max_queue_depth cfg) \<and>
   (ad_reason (fst (sched_submit cfg e s)) = None) = (ad_action (fst (sched_submit cfg e s)) = ACTION_QUEUED) \<and>
   (ad_action (fst (sched_submit cfg e s)) = ACTION_REJECTED \<or>
      snd (sched_submit cfg e s) = s\<lparr>sc_queue := dict_put (qe_task_id e) e (sc_queue s)\<rparr>) \<and>
   (ad_action (fst (sched_submit cfg e s)) = ACTION_QUEUED \<or> snd (sched_submit cfg e s) = s) \<and>
   sg_per_workload_limit sample_config = 1 \<and>
   running_for_workload (drain sample_config [1, 2]
     (snd (sched_submit sample_config (sample_entry ''b'' BURSTABLE 0)
       (snd (sched_submit sample_config (sample_entry ''a'' BURSTABLE 0) new_scheduler))))) ''w'' = 2"
proof -
  have "running_for_workload (drain sample_config [1, 2]
     (snd (sched_submit sample_config (sample_entry ''b'' BURSTABLE 0)
       (snd (sched_submit sample_config (sample_entry ''a'' BURSTABLE 0) new_scheduler))))) ''w'' = 2"
    by (simp add: running_for_workload_def running_for_tenant_def sched_submit_def is_frozen_def new_scheduler_def
        sample_config_def sample_entry_def dequeue_def score_def Let_def)
  then show ?thesis by (auto simp: sched_submit_def Let_def sample_config_def)
qed

end
