(* ===== verification/Incident.thy ===== *)
theory Incident
  imports Scheduler Audit_Log
begin

text \<open>
  Incident mode: \<open>incident/models.py\<close>, the process-local store of \<open>incident/store.py\<close> and the
  service of \<open>incident/service.py\<close>. The application binds the drain hooks to the fleet scheduler
  (\<open>_drain_fleet\<close> and \<open>_undrain_fleet\<close> of \<open>api/app.py\<close>), so the state has the scheduler. The
  broadcast to the owners is a parameter that returns the accepted targets or fails; a database
  store that cannot be read is the flag \<open>iv_readable\<close>.
\<close>

section \<open>Records and store\<close>

datatype halt_scope = HALT_FLEET | HALT_TENANT | HALT_WORKLOAD

fun halt_scope_value :: "halt_scope \<Rightarrow> string" where
  "halt_scope_value HALT_FLEET = ''fleet''"
| "halt_scope_value HALT_TENANT = ''tenant''"
| "halt_scope_value HALT_WORKLOAD = ''workload''"

record incident_record =
  in_incident_id :: string
  in_scope :: halt_scope
  in_scope_ref :: "string option"
  in_trigger :: string
  in_reason :: "string option"
  in_actor :: string
  in_halted_at :: time
  in_resumed_at :: "time option"
  in_resumed_by :: "string option"
  in_owners_notified :: "string list"

definition at_most :: "nat \<Rightarrow> string option \<Rightarrow> bool" where
  "at_most n s = (case s of None \<Rightarrow> True | Some x \<Rightarrow> length x \<le> n)"

definition incident_valid :: "incident_record \<Rightarrow> bool" where
  "incident_valid r =
     (in_incident_id r \<noteq> [] \<and> length (in_incident_id r) \<le> 64 \<and> at_most 64 (in_scope_ref r) \<and>
      in_trigger r \<noteq> [] \<and> length (in_trigger r) \<le> 64 \<and> at_most 2000 (in_reason r) \<and>
      in_actor r \<noteq> [] \<and> length (in_actor r) \<le> 253)"

record 'l incident_service =
  iv_records :: "(string, incident_record) dict"
  iv_readable :: bool
  iv_scheduler :: "scheduler option"
  iv_audit :: "'l option"

datatype incident_error =
    NoActiveIncidentError
  | IncidentValidationError
  | IncidentAuditError audit_error

type_synonym ('l, 'a) incident = "('l incident_service, incident_error, 'a) exec"

definition save_incident :: "incident_record \<Rightarrow> ('l, unit) incident" where
  "save_incident r = modifyE (\<lambda>s. s\<lparr>iv_records := dict_put (in_incident_id r) r (iv_records s)\<rparr>)"

definition active_all :: "'l incident_service \<Rightarrow> incident_record list" where
  "active_all s = sort_key in_halted_at (filter (\<lambda>r. in_resumed_at r = None) (dict_values (iv_records s)))"

definition incident_active :: "'l incident_service \<Rightarrow> incident_record option" where
  "incident_active s = (if active_all s = [] then None else Some (last (active_all s)))"

definition list_incidents :: "'l incident_service \<Rightarrow> incident_record list" where
  "list_incidents s = sort_key in_halted_at (dict_values (iv_records s))"

section \<open>The service\<close>

definition covers :: "incident_record \<Rightarrow> string option \<Rightarrow> string option \<Rightarrow> bool" where
  "covers r tenant_id workload = (case in_scope r of
       HALT_FLEET \<Rightarrow> True
     | HALT_TENANT \<Rightarrow> tenant_id \<noteq> None \<and> in_scope_ref r = tenant_id
     | HALT_WORKLOAD \<Rightarrow> workload \<noteq> None \<and> in_scope_ref r = workload)"

type_synonym 'l append_entry =
  "time \<Rightarrow> string \<Rightarrow> string \<Rightarrow> string \<Rightarrow> string option \<Rightarrow> tenant_context \<Rightarrow> 'l \<Rightarrow> audit_error + (audit_record \<times> 'l)"

definition incident_audit ::
  "'l append_entry \<Rightarrow> time \<Rightarrow> string \<Rightarrow> string \<Rightarrow> string \<Rightarrow> string \<Rightarrow> ('l, unit) incident" where
  "incident_audit append_entry now actor action subject detail =
     bindE (getE iv_audit) (\<lambda>audit. case audit of
         None \<Rightarrow> returnE ()
       | Some l \<Rightarrow> (case append_entry now actor action subject (Some detail) DEFAULT_CONTEXT l of
             Inl e \<Rightarrow> raiseE (IncidentAuditError e)
           | Inr (_, l') \<Rightarrow> modifyE (\<lambda>s. s\<lparr>iv_audit := Some l'\<rparr>)))"

text \<open>\<open>notifier\<close> returns the targets that accepted the notice, or nothing when it raises.\<close>

definition incident_pause ::
  "'l append_entry \<Rightarrow> (incident_record \<Rightarrow> string list option) option \<Rightarrow> string \<Rightarrow> time \<Rightarrow> time \<Rightarrow> string \<Rightarrow> string option \<Rightarrow>
   halt_scope \<Rightarrow> string option \<Rightarrow> string \<Rightarrow> ('l, incident_record) incident" where
  "incident_pause append_entry notifier new_id now audit_now actor reason scope scope_ref trigger =
     (let r = \<lparr>in_incident_id = new_id, in_scope = scope, in_scope_ref = scope_ref, in_trigger = trigger,
            in_reason = reason, in_actor = actor, in_halted_at = now, in_resumed_at = None,
            in_resumed_by = None, in_owners_notified = []\<rparr> in
      if \<not> incident_valid r then raiseE IncidentValidationError
      else thenE (save_incident r)
        (thenE (modifyE (\<lambda>s. s\<lparr>iv_scheduler := map_option (freeze None None) (iv_scheduler s)\<rparr>))
        (let owners = (case notifier of None \<Rightarrow> [] | Some f \<Rightarrow> (case f r of None \<Rightarrow> [] | Some xs \<Rightarrow> xs));
             r' = (if owners = [] then r else r\<lparr>in_owners_notified := owners\<rparr>)
         in thenE (whenE (owners \<noteq> []) (save_incident r'))
           (thenE (incident_audit append_entry audit_now actor ''fleet.paused'' new_id
                (str_or reason (''scope='' @ halt_scope_value scope)))
             (returnE r')))))"

definition resume_target :: "string option \<Rightarrow> 'l incident_service \<Rightarrow> incident_record option" where
  "resume_target incident_id s = (case incident_id of
       Some i \<Rightarrow> dict_get (iv_records s) i
     | None \<Rightarrow> incident_active s)"

definition incident_resume ::
  "'l append_entry \<Rightarrow> time \<Rightarrow> time \<Rightarrow> string \<Rightarrow> string option \<Rightarrow> ('l, incident_record) incident" where
  "incident_resume append_entry now audit_now actor incident_id =
     bindE (getE (resume_target incident_id)) (\<lambda>target. case target of
         None \<Rightarrow> raiseE NoActiveIncidentError
       | Some r \<Rightarrow>
           if in_resumed_at r \<noteq> None then raiseE NoActiveIncidentError
           else (let r' = r\<lparr>in_resumed_at := Some now, in_resumed_by := Some actor\<rparr> in
             thenE (save_incident r')
             (thenE (modifyE (\<lambda>s. s\<lparr>iv_scheduler := map_option (unfreeze None None) (iv_scheduler s)\<rparr>))
             (thenE (incident_audit append_entry audit_now actor ''fleet.resumed'' (in_incident_id r')
                  (''halted_by='' @ in_actor r'))
               (returnE r')))))"

definition visible_to :: "string \<Rightarrow> incident_record \<Rightarrow> bool" where
  "visible_to tenant_id r =
     (in_scope r = HALT_FLEET \<or> (in_scope r = HALT_TENANT \<and> in_scope_ref r = Some tenant_id))"

definition active_for :: "string \<Rightarrow> 'l incident_service \<Rightarrow> incident_record option" where
  "active_for tenant_id s = (case incident_active s of
       None \<Rightarrow> None
     | Some r \<Rightarrow> if visible_to tenant_id r then Some r else None)"

definition incident_history :: "'l incident_service \<Rightarrow> incident_record list" where
  "incident_history s = rev (list_incidents s)"

definition history_for :: "string \<Rightarrow> 'l incident_service \<Rightarrow> incident_record list" where
  "history_for tenant_id s = filter (visible_to tenant_id) (incident_history s)"

definition halted :: "'l incident_service \<Rightarrow> string option \<Rightarrow> string option \<Rightarrow> bool" where
  "halted s tenant_id workload =
     (if \<not> iv_readable s then True else list_ex (\<lambda>r. covers r tenant_id workload) (active_all s))"

section \<open>What pausing and resuming keep\<close>

text \<open>An incident that has not been resumed, whatever its owners list.\<close>

definition open_incident :: "incident_record \<Rightarrow> 'l incident_service \<Rightarrow> bool" where
  "open_incident r s = (\<exists>q. dict_get (iv_records s) (in_incident_id r) = Some q \<and> in_resumed_at q = None \<and>
     in_scope q = in_scope r \<and> in_scope_ref q = in_scope_ref r)"

definition keyed :: "'l incident_service \<Rightarrow> bool" where
  "keyed s = (dict_ok (iv_records s) \<and> dict_all (\<lambda>k r. in_incident_id r = k) (iv_records s))"

lemma active_all_in: "keyed s \<Longrightarrow> (r \<in> set (active_all s)) = (dict_get (iv_records s) (in_incident_id r) = Some r \<and> in_resumed_at r = None)"
proof
  assume k: "keyed s" and "r \<in> set (active_all s)"
  then obtain i where i: "(i, r) \<in> set (iv_records s)" and n: "in_resumed_at r = None"
    by (auto simp: active_all_def)
  have g: "dict_get (iv_records s) i = Some r"
    using k i by (simp add: keyed_def)
  then have "in_incident_id r = i"
    using k unfolding keyed_def by (blast dest: dict_allD)
  with g n show "dict_get (iv_records s) (in_incident_id r) = Some r \<and> in_resumed_at r = None" by simp
next
  assume "dict_get (iv_records s) (in_incident_id r) = Some r \<and> in_resumed_at r = None"
  then show "r \<in> set (active_all s)"
    by (auto simp: active_all_def dest!: map_of_SomeD intro: image_eqI [where x = "(in_incident_id r, r)"])
qed

lemma keyed_id: "keyed s \<Longrightarrow> dict_get (iv_records s) i = Some q \<Longrightarrow> in_incident_id q = i"
  by (simp add: keyed_def dict_all_def)

lemma open_halted: "keyed s \<Longrightarrow> open_incident r s \<Longrightarrow> covers r t w \<Longrightarrow> halted s t w"
proof -
  assume k: "keyed s" and "open_incident r s" and c: "covers r t w"
  then obtain q where q: "dict_get (iv_records s) (in_incident_id r) = Some q" "in_resumed_at q = None"
    "in_scope q = in_scope r" "in_scope_ref q = in_scope_ref r"
    by (auto simp: open_incident_def)
  have "in_incident_id q = in_incident_id r"
    using k q(1) unfolding keyed_def by (blast dest: dict_allD)
  then have "q \<in> set (active_all s)" using k q by (simp add: active_all_in)
  moreover have "covers q t w" using c q by (simp add: covers_def split: halt_scope.splits)
  ultimately show ?thesis by (auto simp: halted_def list_ex_iff)
qed

lemma wp_save_incident [wps]:
  "wp (save_incident r) Q E s = Q () (s\<lparr>iv_records := dict_put (in_incident_id r) r (iv_records s)\<rparr>)"
  by (simp add: save_incident_def wps)

lemma keyed_put: "keyed s \<Longrightarrow> keyed (s\<lparr>iv_records := dict_put (in_incident_id r) r (iv_records s)\<rparr>)"
  by (simp add: keyed_def)

lemma keyed_more [simp]:
  "keyed (s\<lparr>iv_scheduler := x\<rparr>) = keyed s" "keyed (s\<lparr>iv_audit := y\<rparr>) = keyed s"
  by (simp_all add: keyed_def)

lemma incident_audit_keeps: "keeps iv_records (incident_audit append_entry now actor action subject detail)"
  by (rule steps_wpI) (auto simp: incident_audit_def wps split: option.split sum.split)

lemma wp_incident_audit:
  assumes "\<And>t. iv_records t = iv_records s \<Longrightarrow> Q () t \<and> (\<forall>e. E e t)"
  shows "wp (incident_audit append_entry now actor action subject detail) Q E s"
  using assms by (auto simp: incident_audit_def wps split: option.split sum.split)

text \<open>The operations in any order; the labels are the incidents that were resumed.\<close>

inductive incident_trace :: "'l append_entry \<Rightarrow> 'l incident_service \<Rightarrow> string list \<Rightarrow> 'l incident_service \<Rightarrow> bool"
  for append_entry where
  trace_refl: "incident_trace append_entry s [] s"
| trace_pause: "incident_trace append_entry s is t \<Longrightarrow> dict_get (iv_records t) new_id = None \<Longrightarrow>
    incident_pause append_entry notifier new_id now audit_now actor reason scope scope_ref trigger t = (res, u) \<Longrightarrow>
    incident_trace append_entry s is u"
| trace_resume: "incident_trace append_entry s is t \<Longrightarrow>
    incident_resume append_entry now audit_now actor incident_id t = (res, u) \<Longrightarrow>
    incident_trace append_entry s (is @ map in_incident_id (case resume_target incident_id t of None \<Rightarrow> [] | Some r \<Rightarrow> [r])) u"
| trace_store: "incident_trace append_entry s is t \<Longrightarrow> incident_trace append_entry s is (t\<lparr>iv_readable := b\<rparr>)"

lemma pause_keeps_open:
  assumes "keyed t" "open_incident r t" "in_incident_id r \<noteq> new_id"
    "incident_pause append_entry notifier new_id now audit_now actor reason scope scope_ref trigger t = (res, u)"
  shows "keyed u \<and> open_incident r u"
proof -
  have "wp (incident_pause append_entry notifier new_id now audit_now actor reason scope scope_ref trigger)
     (\<lambda>_ u. keyed u \<and> open_incident r u) (\<lambda>_ u. keyed u \<and> open_incident r u) t"
    using assms(1-3)
    by (auto simp: incident_pause_def Let_def wps keyed_def open_incident_def intro!: wp_incident_audit)
  then show ?thesis using assms(4) by (cases res) (auto simp: wp_def)
qed

lemma resume_keeps_open:
  assumes "keyed t" "open_incident r t"
    "\<And>q. resume_target incident_id t = Some q \<Longrightarrow> in_incident_id q \<noteq> in_incident_id r"
    "incident_resume append_entry now audit_now actor incident_id t = (res, u)"
  shows "keyed u \<and> open_incident r u"
proof -
  have "wp (incident_resume append_entry now audit_now actor incident_id)
     (\<lambda>_ u. keyed u \<and> open_incident r u) (\<lambda>_ u. keyed u \<and> open_incident r u) t"
    using assms(1-3)
    by (auto simp: incident_resume_def Let_def wps keyed_def open_incident_def split: option.split intro!: wp_incident_audit)
  then show ?thesis using assms(4) by (cases res) (auto simp: wp_def)
qed

lemma trace_keeps_open:
  "incident_trace append_entry s is u \<Longrightarrow> keyed s \<Longrightarrow> open_incident r s \<Longrightarrow> in_incident_id r \<notin> set is \<Longrightarrow>
   keyed u \<and> open_incident r u"
proof (induction rule: incident_trace.induct)
  case (trace_refl s)
  then show ?case by simp
next
  case (trace_pause s "is" t new_id notifier now audit_now actor reason scope scope_ref trigger res u)
  then have "keyed t \<and> open_incident r t" by simp
  moreover from this trace_pause have "in_incident_id r \<noteq> new_id" by (auto simp: open_incident_def)
  ultimately show ?case using trace_pause pause_keeps_open by metis
next
  case (trace_resume s "is" t now audit_now actor incident_id res u)
  then have o: "keyed t \<and> open_incident r t" by simp
  have "in_incident_id q \<noteq> in_incident_id r" if "resume_target incident_id t = Some q" for q
    using trace_resume.prems(3) that by auto
  with o trace_resume show ?case using resume_keeps_open by metis
next
  case (trace_store s "is" t b)
  then show ?case by (simp add: keyed_def open_incident_def)
qed

lemma pause_keyed:
  assumes "keyed t" "incident_pause append_entry notifier new_id now audit_now actor reason scope scope_ref trigger t = (res, u)"
  shows "keyed u"
proof -
  have "wp (incident_pause append_entry notifier new_id now audit_now actor reason scope scope_ref trigger)
     (\<lambda>_. keyed) (\<lambda>_. keyed) t"
    using assms(1) by (auto simp: incident_pause_def Let_def wps keyed_def intro!: wp_incident_audit)
  then show ?thesis using assms(2) by (cases res) (auto simp: wp_def)
qed

lemma resume_keyed:
  assumes "keyed t" "incident_resume append_entry now audit_now actor incident_id t = (res, u)"
  shows "keyed u"
proof -
  have "wp (incident_resume append_entry now audit_now actor incident_id) (\<lambda>_. keyed) (\<lambda>_. keyed) t"
    using assms(1) by (auto simp: incident_resume_def Let_def wps keyed_def split: option.split intro!: wp_incident_audit)
  then show ?thesis using assms(2) by (cases res) (auto simp: wp_def)
qed

lemma trace_keyed: "incident_trace append_entry s is u \<Longrightarrow> keyed s \<Longrightarrow> keyed u"
proof (induction rule: incident_trace.induct)
  case (trace_store s "is" t b)
  then show ?case by (simp add: keyed_def)
qed (auto intro: pause_keyed resume_keyed)

lemma pause_opens:
  assumes "keyed s" "incident_pause append_entry notifier new_id now audit_now actor reason scope scope_ref trigger s = (Inr r, t)"
  shows "keyed t \<and> open_incident r t \<and> in_scope r = scope \<and> in_scope_ref r = scope_ref \<and> in_incident_id r = new_id"
proof -
  have "wp (incident_pause append_entry notifier new_id now audit_now actor reason scope scope_ref trigger)
     (\<lambda>r t. keyed t \<and> open_incident r t \<and> in_scope r = scope \<and> in_scope_ref r = scope_ref \<and> in_incident_id r = new_id)
     (\<lambda>_ _. True) s"
    using assms(1)
    by (auto simp: incident_pause_def Let_def wps keyed_def open_incident_def intro!: wp_incident_audit)
  then show ?thesis using assms(2) by (simp add: wp_def)
qed

section \<open>Properties\<close>

text \<open>
  C39: a halt holds until it is resumed. In every state the service reaches from an empty store, a
  tenant and workload are halted exactly when the store cannot be read or an incident that has not
  been resumed is fleet-wide, names that tenant, or names that workload; and once a pause has
  returned in such a state, every tenant and workload its scope names stays halted through any
  further pauses, resumptions of other incidents and store failures. Incident ids are fresh.
\<close>

theorem halt_until_resumed:
  assumes "iv_records s0 = []" "incident_trace append_entry s0 is0 s"
  shows "halted s tenant_id workload =
      (\<not> iv_readable s \<or> (\<exists>i q. dict_get (iv_records s) i = Some q \<and> in_resumed_at q = None \<and>
         (in_scope q = HALT_FLEET \<or> in_scope q = HALT_TENANT \<and> tenant_id \<noteq> None \<and> in_scope_ref q = tenant_id \<or>
          in_scope q = HALT_WORKLOAD \<and> workload \<noteq> None \<and> in_scope_ref q = workload))) \<and>
    (\<forall>r t is u.
       incident_pause append_entry notifier new_id now audit_now actor reason scope scope_ref trigger s = (Inr r, t) \<and>
       incident_trace append_entry t is u \<and> new_id \<notin> set is \<and>
       (scope = HALT_FLEET \<or> scope = HALT_TENANT \<and> tenant_id \<noteq> None \<and> scope_ref = tenant_id \<or>
        scope = HALT_WORKLOAD \<and> workload \<noteq> None \<and> scope_ref = workload) \<longrightarrow>
       halted u tenant_id workload)"
proof (intro conjI allI impI)
  have s: "keyed s" using trace_keyed [OF assms(2)] assms(1) by (simp add: keyed_def)
  have cov: "covers q tenant_id workload = (in_scope q = HALT_FLEET \<or>
      in_scope q = HALT_TENANT \<and> tenant_id \<noteq> None \<and> in_scope_ref q = tenant_id \<or>
      in_scope q = HALT_WORKLOAD \<and> workload \<noteq> None \<and> in_scope_ref q = workload)" for q
    by (cases "in_scope q") (simp_all add: covers_def)
  have "halted s tenant_id workload = (\<not> iv_readable s \<or> (\<exists>q \<in> set (active_all s). covers q tenant_id workload))"
    by (simp add: halted_def list_ex_iff)
  also have "\<dots> = (\<not> iv_readable s \<or> (\<exists>i q. dict_get (iv_records s) i = Some q \<and> in_resumed_at q = None \<and>
      covers q tenant_id workload))"
    using active_all_in [OF s] keyed_id [OF s] by metis
  finally show "halted s tenant_id workload =
      (\<not> iv_readable s \<or> (\<exists>i q. dict_get (iv_records s) i = Some q \<and> in_resumed_at q = None \<and>
         (in_scope q = HALT_FLEET \<or> in_scope q = HALT_TENANT \<and> tenant_id \<noteq> None \<and> in_scope_ref q = tenant_id \<or>
          in_scope q = HALT_WORKLOAD \<and> workload \<noteq> None \<and> in_scope_ref q = workload)))" unfolding cov .
  fix r t "is" u
  assume h: "incident_pause append_entry notifier new_id now audit_now actor reason scope scope_ref trigger s = (Inr r, t) \<and>
       incident_trace append_entry t is u \<and> new_id \<notin> set is \<and>
       (scope = HALT_FLEET \<or> scope = HALT_TENANT \<and> tenant_id \<noteq> None \<and> scope_ref = tenant_id \<or>
        scope = HALT_WORKLOAD \<and> workload \<noteq> None \<and> scope_ref = workload)"
  have t: "keyed t" "open_incident r t" "in_incident_id r = new_id" "in_scope r = scope" "in_scope_ref r = scope_ref"
    using pause_opens [OF s] h by blast+
  have "keyed u" "open_incident r u" using trace_keeps_open [of append_entry t "is" u r] t h by simp_all
  then show "halted u tenant_id workload" using open_halted cov [of r] t h by metis
qed

text \<open>A service with no incidents and no audit log.\<close>

definition quiet_service :: "audit_log incident_service" where
  "quiet_service = \<lparr>iv_records = [], iv_readable = True, iv_scheduler = Some new_scheduler, iv_audit = None\<rparr>"

definition pause_at :: "time \<Rightarrow> string \<Rightarrow> halt_scope \<Rightarrow> string option \<Rightarrow> (audit_log, incident_record) incident" where
  "pause_at now new_id scope scope_ref =
     incident_pause (audit_append sha_example) None new_id now now ''op'' None scope scope_ref ''operator''"

lemmas incident_run = incident_pause_def incident_resume_def resume_target_def incident_active_def active_all_def
  incident_audit_def save_incident_def incident_valid_def at_most_def Let_def bindE_def thenE_def getE_def modifyE_def
  whenE_def returnE_def raiseE_def quiet_service_def

theorem halt_until_resumed_witness:
  "\<exists>r u. incident_resume (audit_append sha_example) 9 9 ''op'' (Some ''inc-2'')
       (snd (pause_at 2 ''inc-2'' HALT_FLEET None (snd (pause_at 1 ''inc-1'' HALT_TENANT (Some ''a'') quiet_service)))) = (Inr r, u) \<and>
     halted u (Some ''a'') (Some ''w'') \<and> \<not> halted u (Some ''b'') (Some ''w'')"
proof -
  define s1 where "s1 = snd (pause_at 1 ''inc-1'' HALT_TENANT (Some ''a'') quiet_service)"
  define s2 where "s2 = snd (pause_at 2 ''inc-2'' HALT_FLEET None s1)"
  have k: "keyed quiet_service" by (simp add: keyed_def quiet_service_def)
  obtain r1 where p1: "pause_at 1 ''inc-1'' HALT_TENANT (Some ''a'') quiet_service = (Inr r1, s1)"
    and r1: "in_scope r1 = HALT_TENANT" "in_scope_ref r1 = Some ''a''"
    unfolding s1_def pause_at_def by (simp add: incident_run str_or_def)
  obtain r2 where p2: "pause_at 2 ''inc-2'' HALT_FLEET None s1 = (Inr r2, s2)"
    unfolding s2_def s1_def pause_at_def by (simp add: incident_run str_or_def)
  obtain r3 u where p3: "incident_resume (audit_append sha_example) 9 9 ''op'' (Some ''inc-2'') s2 = (Inr r3, u)"
    and u: "iv_readable u" "map (\<lambda>(i, q). (i, in_scope q, in_scope_ref q, in_resumed_at q)) (iv_records u) =
      [(''inc-1'', HALT_TENANT, Some ''a'', None), (''inc-2'', HALT_FLEET, None, Some 9)]"
    unfolding s2_def s1_def pause_at_def by (simp add: incident_run str_or_def)
  have t2: "resume_target (Some ''inc-2'') s2 = Some q \<Longrightarrow> in_incident_id q = ''inc-2''" for q
    unfolding s2_def s1_def pause_at_def by (auto simp: incident_run str_or_def)
  have "incident_trace (audit_append sha_example) s1 [] s2"
    using trace_pause [OF trace_refl _ p2 [unfolded pause_at_def]] unfolding s1_def pause_at_def
    by (simp add: incident_run str_or_def)
  from trace_resume [OF this p3]
  obtain js where tr: "incident_trace (audit_append sha_example) s1 js u" and js: "set js \<subseteq> {''inc-2''}"
    using t2 by (cases "resume_target (Some ''inc-2'') s2") auto
  have fresh: "''inc-1'' \<notin> set js" using js by auto
  have start: "iv_records quiet_service = []" by (simp add: quiet_service_def)
  note f = halt_until_resumed [OF start trace_refl]
  have "halted u (Some ''a'') (Some ''w'')"
    by (rule conjunct2 [OF f, rule_format, OF conjI [OF p1 [unfolded pause_at_def] conjI [OF tr conjI [OF fresh]]]]) simp
  moreover have "\<not> halted u (Some ''b'') (Some ''w'')"
    using u by (auto simp: halted_def active_all_def list_ex_iff covers_def split: halt_scope.splits)
  ultimately show ?thesis using p3 by (auto simp: s1_def s2_def)
qed

text \<open>
  Two consequences of looking at the newest incident only and of draining the whole scheduler:
  a tenant under a fleet-wide halt is told that no incident is active when a newer incident is
  scoped to another tenant; and resuming one of two fleet-wide halts releases the scheduler
  while admission is still halted.
\<close>

lemma active_for_hides_halt:
  "\<exists>u. u = snd (pause_at 2 ''inc-2'' HALT_TENANT (Some ''b'') (snd (pause_at 1 ''inc-1'' HALT_FLEET None quiet_service))) \<and>
     halted u (Some ''a'') None \<and> active_for ''a'' u = None"
  unfolding pause_at_def
  by (simp add: incident_run str_or_def halted_def covers_def active_for_def visible_to_def)

lemma resume_releases_scheduler:
  "\<exists>r u s. incident_resume (audit_append sha_example) 9 9 ''op'' None
       (snd (pause_at 2 ''inc-2'' HALT_FLEET None (snd (pause_at 1 ''inc-1'' HALT_FLEET None quiet_service)))) = (Inr r, u) \<and>
     halted u (Some ''a'') None \<and> iv_scheduler u = Some s \<and> \<not> is_frozen s ''w'' ''a''"
  unfolding pause_at_def
  by (simp add: incident_run str_or_def halted_def covers_def is_frozen_def freeze_def unfreeze_def new_scheduler_def)

lemma scoped_pause_freezes_fleet:
  "\<exists>s. iv_scheduler (snd (pause_at 1 ''inc-1'' HALT_TENANT (Some ''b'') quiet_service)) = Some s \<and>
     is_frozen s ''w'' ''a'' \<and> \<not> halted (snd (pause_at 1 ''inc-1'' HALT_TENANT (Some ''b'') quiet_service)) (Some ''a'') (Some ''w'')"
  unfolding pause_at_def
  by (simp add: incident_run str_or_def halted_def covers_def is_frozen_def freeze_def unfreeze_def new_scheduler_def)

end
