(* ===== verification/Sandboxes.thy ===== *)
theory Sandboxes
  imports Core_Model
begin

text \<open>
  The sandbox managers of \<open>sandbox/manager.py\<close> over the models of \<open>sandbox/models.py\<close>: the
  shared bookkeeping (\<open>_Bookkeeper\<close>, which \<open>InMemorySandboxManager\<close> is) and the subprocess
  manager. The operating system is a parameter: the hard limits \<open>getrlimit\<close> reports and how the
  subprocess ended. The lock serialises the calls and has no other effect.
\<close>

section \<open>Instances\<close>

datatype sandbox_status =
    SB_PROVISIONING | SB_READY | SB_RUNNING | SB_COMPLETED | SB_FAILED | SB_CANCELLED | SB_DESTROYED

record sandbox_instance =
  si_sandbox_id :: string
  si_run_id :: string
  si_workload :: string
  si_status :: sandbox_status
  si_resource_caps :: "resource_caps option"
  si_egress_mode :: egress_mode
  si_started_at :: "time option"
  si_finished_at :: "time option"
  si_exit_code :: "int option"
  si_failure_reason :: "string option"
  si_caps_applied :: "string list"
  si_cap_errors :: "string list"

type_synonym sandboxes = "(string, sandbox_instance) dict"

datatype sandbox_error = SandboxNotFoundError string | SandboxProcessError

type_synonym 'a sandboxed = "(sandboxes, sandbox_error, 'a) exec"

definition sandbox_terminal :: "sandbox_status \<Rightarrow> bool" where
  "sandbox_terminal st = (st \<in> {SB_COMPLETED, SB_FAILED, SB_CANCELLED, SB_DESTROYED})"

section \<open>Bookkeeping\<close>

definition sandbox_save :: "sandbox_instance \<Rightarrow> unit sandboxed" where
  "sandbox_save i = modifyE (dict_put (si_sandbox_id i) i)"

definition sandbox_get :: "string \<Rightarrow> sandbox_instance sandboxed" where
  "sandbox_get sandbox_id = bindE (getE (\<lambda>s. dict_get s sandbox_id)) (\<lambda>i. case i of
       None \<Rightarrow> raiseE (SandboxNotFoundError sandbox_id)
     | Some x \<Rightarrow> returnE x)"

definition force_status :: "string \<Rightarrow> sandbox_status \<Rightarrow> unit sandboxed" where
  "force_status sandbox_id status = bindE (sandbox_get sandbox_id) (\<lambda>i. sandbox_save (i\<lparr>si_status := status\<rparr>))"

definition egress_mode_of :: "sandbox_spec option \<Rightarrow> egress_mode" where
  "egress_mode_of spec = (case spec of None \<Rightarrow> EGRESS_RESTRICTED | Some sp \<Rightarrow> eg_mode (sx_egress sp))"

definition new_instance :: "string \<Rightarrow> string \<Rightarrow> string \<Rightarrow> sandbox_status \<Rightarrow> sandbox_spec option \<Rightarrow> time \<Rightarrow> sandbox_instance" where
  "new_instance sandbox_id run_id workload status spec now =
     \<lparr>si_sandbox_id = sandbox_id, si_run_id = run_id, si_workload = workload, si_status = status,
      si_resource_caps = Option.bind spec sx_resource_caps, si_egress_mode = egress_mode_of spec,
      si_started_at = Some now, si_finished_at = None, si_exit_code = None, si_failure_reason = None,
      si_caps_applied = [], si_cap_errors = []\<rparr>"

definition provision :: "string \<Rightarrow> time \<Rightarrow> string \<Rightarrow> string \<Rightarrow> sandbox_spec option \<Rightarrow> sandbox_instance sandboxed" where
  "provision new_id now run_id workload spec =
     (let i = new_instance new_id run_id workload SB_READY spec now in thenE (sandbox_save i) (returnE i))"

definition destroy :: "time \<Rightarrow> string \<Rightarrow> unit sandboxed" where
  "destroy now sandbox_id = bindE (sandbox_get sandbox_id) (\<lambda>i.
     sandbox_save (i\<lparr>si_status := SB_DESTROYED, si_finished_at := Some now\<rparr>))"

definition sandbox_status_of :: "string \<Rightarrow> sandbox_status sandboxed" where
  "sandbox_status_of sandbox_id = bindE (sandbox_get sandbox_id) (\<lambda>i. returnE (si_status i))"

definition list_instances :: "time \<Rightarrow> sandboxes \<Rightarrow> sandbox_instance list" where
  "list_instances now s = sort_key (\<lambda>i. case si_started_at i of None \<Rightarrow> now | Some t \<Rightarrow> t) (dict_values s)"

definition reapable :: "sandbox_instance \<Rightarrow> bool" where
  "reapable i = (sandbox_terminal (si_status i) \<and> si_status i \<noteq> SB_DESTROYED)"

fun reap_loop :: "time \<Rightarrow> sandbox_instance list \<Rightarrow> string list sandboxed" where
  "reap_loop now [] = returnE []"
| "reap_loop now (i # is) =
     (if reapable i
      then thenE (destroy now (si_sandbox_id i)) (bindE (reap_loop now is) (\<lambda>ids. returnE (si_sandbox_id i # ids)))
      else reap_loop now is)"

definition reap :: "time \<Rightarrow> string list sandboxed" where
  "reap now = bindE (getE (list_instances now)) (reap_loop now)"

section \<open>The subprocess manager\<close>

datatype rlimit = RLIM_INFINITY | RLimit int

definition cpu_seconds :: "resource_caps \<Rightarrow> int" where
  "cpu_seconds caps = max 1 (rc_wall_clock_s caps)"

text \<open>\<open>hard\<close> is what \<open>getrlimit\<close> reports for a resource, nothing when it fails.\<close>

definition inspect_caps :: "(string \<Rightarrow> rlimit option) \<Rightarrow> resource_caps \<Rightarrow> string list \<times> string list" where
  "inspect_caps hard caps =
     (let checks = [(''memory_mb'', rc_memory_mb caps * 1024 * 1024), (''cpu'', cpu_seconds caps)];
          bad = (\<lambda>(name, target). case hard name of
              None \<Rightarrow> True
            | Some RLIM_INFINITY \<Rightarrow> False
            | Some (RLimit h) \<Rightarrow> target > h)
      in (map fst (filter (\<lambda>c. \<not> bad c) checks), map fst (filter bad checks)))"

definition soft_limit :: "rlimit option \<Rightarrow> int \<Rightarrow> int option" where
  "soft_limit hard soft = (case hard of
       None \<Rightarrow> None
     | Some RLIM_INFINITY \<Rightarrow> Some soft
     | Some (RLimit h) \<Rightarrow> Some (min soft h))"

text \<open>How the subprocess ended: an exit code, the timeout, or an error that \<open>run\<close> raises.\<close>

datatype process_end = Exited int | TimedOut | NotStarted

definition sandbox_execute ::
  "(string \<Rightarrow> rlimit option) \<Rightarrow> (string list \<Rightarrow> int \<Rightarrow> process_end) \<Rightarrow> string \<Rightarrow> time \<Rightarrow> time \<Rightarrow> string \<Rightarrow> string \<Rightarrow>
   string list \<Rightarrow> sandbox_spec option \<Rightarrow> sandbox_instance sandboxed" where
  "sandbox_execute hard run_process new_id now finished run_id workload command spec =
     (let caps = Option.bind spec sx_resource_caps;
          (applied, cap_errors) = (case caps of None \<Rightarrow> ([], []) | Some c \<Rightarrow> inspect_caps hard c);
          i = (new_instance new_id run_id workload SB_RUNNING spec now)\<lparr>si_caps_applied := applied, si_cap_errors := cap_errors\<rparr>;
          wall_clock = (case caps of None \<Rightarrow> 300 | Some c \<Rightarrow> rc_wall_clock_s c)
      in thenE (sandbox_save i)
        (case run_process command wall_clock of
           NotStarted \<Rightarrow> raiseE SandboxProcessError
         | ended \<Rightarrow>
             (let exit_code = (case ended of Exited n \<Rightarrow> Some n | _ \<Rightarrow> None);
                  failure = (case ended of
                      Exited n \<Rightarrow> if n \<noteq> 0 then Some (''exit_code_'' @ int_str n) else None
                    | _ \<Rightarrow> Some ''timeout'');
                  result = i\<lparr>si_status := (if failure = None then SB_COMPLETED else SB_FAILED), si_finished_at := Some finished,
                    si_exit_code := exit_code, si_failure_reason := failure\<rparr>
              in thenE (sandbox_save result) (returnE result))))"

section \<open>What the managers keep\<close>

definition sandboxes_ok :: "sandboxes \<Rightarrow> bool" where
  "sandboxes_ok s = (dict_ok s \<and> dict_all (\<lambda>k i. si_sandbox_id i = k) s)"

lemma wp_sandbox_save [wps]: "wp (sandbox_save i) Q E s = Q () (dict_put (si_sandbox_id i) i s)"
  by (simp add: sandbox_save_def wps)

lemma wp_sandbox_get [wps]:
  "wp (sandbox_get k) Q E s = (case dict_get s k of None \<Rightarrow> E (SandboxNotFoundError k) s | Some i \<Rightarrow> Q i s)"
  by (simp add: sandbox_get_def wps split: option.split)

lemma wp_destroy [wps]:
  "wp (destroy now k) Q E s = (case dict_get s k of
       None \<Rightarrow> E (SandboxNotFoundError k) s
     | Some i \<Rightarrow> Q () (dict_put (si_sandbox_id i) (i\<lparr>si_status := SB_DESTROYED, si_finished_at := Some now\<rparr>) s))"
  by (simp add: destroy_def wps split: option.split)

lemma wp_provision [wps]:
  "wp (provision new_id now run_id workload spec) Q E s =
     (let i = new_instance new_id run_id workload SB_READY spec now in Q i (dict_put new_id i s))"
  by (simp add: provision_def wps Let_def new_instance_def)

lemma sandboxes_ok_put: "sandboxes_ok s \<Longrightarrow> sandboxes_ok (dict_put (si_sandbox_id i) i s)"
  by (simp add: sandboxes_ok_def)

lemma sandboxes_okD: "sandboxes_ok s \<Longrightarrow> dict_get s k = Some i \<Longrightarrow> si_sandbox_id i = k"
  unfolding sandboxes_ok_def by (blast dest: dict_allD)

text \<open>The bookkeeping keeps every instance under its own id.\<close>

lemma sandbox_ops_ok:
  "preserves sandboxes_ok (provision new_id now run_id workload spec)"
  "preserves sandboxes_ok (destroy now k)"
  "preserves sandboxes_ok (force_status k st)"
  "preserves sandboxes_ok (sandbox_execute hard run_process new_id now finished run_id workload command spec)"
  by (rule steps_wpI, auto simp: wps force_status_def sandbox_execute_def sandboxes_ok_put Let_def new_instance_def split_def
      sandboxes_ok_def
      split: option.split process_end.split)+

text \<open>
  Reaping destroys exactly the instances that ended: it returns their ids, stamps each of them
  and leaves every other instance as it was.
\<close>

definition reaped :: "time \<Rightarrow> sandbox_instance \<Rightarrow> sandbox_instance" where
  "reaped now i = (if reapable i then i\<lparr>si_status := SB_DESTROYED, si_finished_at := Some now\<rparr> else i)"

lemma reaped_not_reapable: "\<not> reapable (reaped now i)"
  by (simp add: reaped_def reapable_def)

text \<open>The instances with an id in \<open>K\<close> were reaped and the others kept.\<close>

definition reaped_in :: "time \<Rightarrow> string set \<Rightarrow> sandboxes \<Rightarrow> sandboxes \<Rightarrow> bool" where
  "reaped_in now K s t = (\<forall>k. dict_get t k = map_option (\<lambda>i. if k \<in> K then reaped now i else i) (dict_get s k))"

lemma reaped_in_refl: "reaped_in now {} s s"
  by (simp add: reaped_in_def option.map_ident)

lemma reaped_in_skip:
  assumes "reaped_in now K s t" "dict_get s k = Some i" "\<not> reapable i"
  shows "reaped_in now (insert k K) s t"
  unfolding reaped_in_def
proof
  fix k'
  have "dict_get t k' = map_option (\<lambda>i. if k' \<in> K then reaped now i else i) (dict_get s k')"
    using assms(1) by (simp add: reaped_in_def)
  then show "dict_get t k' = map_option (\<lambda>i. if k' \<in> insert k K then reaped now i else i) (dict_get s k')"
    using assms(2,3) by (cases "k' = k") (simp_all add: reaped_def)
qed

lemma reaped_in_put:
  assumes "reaped_in now K (dict_put k (reaped now i) s) t" "dict_get s k = Some i" "k \<notin> K"
  shows "reaped_in now (insert k K) s t"
  unfolding reaped_in_def
proof
  fix k'
  have "dict_get t k' = map_option (\<lambda>i. if k' \<in> K then reaped now i else i) (dict_get (dict_put k (reaped now i) s) k')"
    using assms(1) by (simp only: reaped_in_def)
  then show "dict_get t k' = map_option (\<lambda>i. if k' \<in> insert k K then reaped now i else i) (dict_get s k')"
    using assms(2,3) by (cases "k' = k") simp_all
qed

lemma reaped_inD: "reaped_in now K s t \<Longrightarrow> dict_get s k = Some i \<Longrightarrow> k \<in> K \<Longrightarrow> dict_get t k = Some (reaped now i)"
  by (simp add: reaped_in_def)

lemma reaped_in_none: "reaped_in now K s t \<Longrightarrow> dict_get s k = None \<Longrightarrow> dict_get t k = None"
  by (simp add: reaped_in_def)

lemma wp_reap_loop:
  assumes "sandboxes_ok s" "distinct (map si_sandbox_id is)" "\<And>i. i \<in> set is \<Longrightarrow> dict_get s (si_sandbox_id i) = Some i"
  shows "wp (reap_loop now is)
    (\<lambda>ids t. ids = map si_sandbox_id (filter reapable is) \<and> sandboxes_ok t \<and> reaped_in now (si_sandbox_id ` set is) s t)
    (\<lambda>_ _. False) s"
  using assms
proof (induction "is" arbitrary: s)
  case Nil
  then show ?case by (simp add: wps reaped_in_refl)
next
  case (Cons i "is")
  have g: "dict_get s (si_sandbox_id i) = Some i" using Cons.prems(3) by simp
  have notin: "si_sandbox_id i \<notin> si_sandbox_id ` set is" using Cons.prems(2) by auto
  show ?case
  proof (cases "reapable i")
    case True
    let ?s = "dict_put (si_sandbox_id i) (reaped now i) s"
    have ok: "sandboxes_ok ?s"
      using Cons.prems(1) by (simp add: sandboxes_ok_def reaped_def)
    have rest: "dict_get ?s (si_sandbox_id j) = Some j" if "j \<in> set is" for j
    proof -
      have "si_sandbox_id j \<noteq> si_sandbox_id i" using notin that by (metis image_eqI)
      then show ?thesis using Cons.prems(3) [of j] that by simp
    qed
    have "distinct (map si_sandbox_id is)" using Cons.prems(2) by simp
    from Cons.IH [OF ok this rest]
    have "wp (reap_loop now is) (\<lambda>ids t. si_sandbox_id i # ids = map si_sandbox_id (filter reapable (i # is)) \<and> sandboxes_ok t \<and>
       reaped_in now (si_sandbox_id ` set (i # is)) s t) (\<lambda>_ _. False) ?s"
      by (rule wp_conseq) (use True reaped_in_put [OF _ g notin] in auto)
    then show ?thesis using True g by (simp add: wps wpf_return reaped_def)
  next
    case False
    have "distinct (map si_sandbox_id is)" using Cons.prems(2) by simp
    from Cons.IH [OF Cons.prems(1) this] Cons.prems(3)
    have "wp (reap_loop now is) (\<lambda>ids t. ids = map si_sandbox_id (filter reapable is) \<and> sandboxes_ok t \<and>
       reaped_in now (si_sandbox_id ` set is) s t) (\<lambda>_ _. False) s" by simp
    then have "wp (reap_loop now is) (\<lambda>ids t. ids = map si_sandbox_id (filter reapable (i # is)) \<and> sandboxes_ok t \<and>
       reaped_in now (si_sandbox_id ` set (i # is)) s t) (\<lambda>_ _. False) s"
      by (rule wp_conseq) (use False reaped_in_skip [OF _ g False] in auto)
    then show ?thesis using False by simp
  qed
qed

lemma list_instances_values: "set (list_instances now s) = set (dict_values s)"
  by (simp add: list_instances_def)

lemma distinct_instances: "sandboxes_ok s \<Longrightarrow> distinct (map si_sandbox_id (list_instances now s))"
proof -
  assume ok: "sandboxes_ok s"
  have "map si_sandbox_id (dict_values s) = dict_keys s"
    using ok by (auto simp: sandboxes_ok_def dict_all_def intro!: map_idI)
  then have "distinct (map si_sandbox_id (dict_values s))" using ok unfolding sandboxes_ok_def by metis
  then show ?thesis
    by (metis distinct_map distinct_sort inj_on_cong list_instances_def set_sort)
qed

lemma instance_lookup: "sandboxes_ok s \<Longrightarrow> i \<in> set (dict_values s) \<Longrightarrow> dict_get s (si_sandbox_id i) = Some i"
proof -
  assume ok: "sandboxes_ok s" and "i \<in> set (dict_values s)"
  then obtain k where "(k, i) \<in> set s" by auto
  then have "dict_get s k = Some i" using ok by (simp add: sandboxes_ok_def)
  moreover from this ok have "si_sandbox_id i = k" by (rule sandboxes_okD [rotated])
  ultimately show ?thesis by simp
qed

lemma reap_exact:
  assumes ok: "sandboxes_ok s"
  shows "\<exists>ids t. reap now s = (Inr ids, t) \<and> sandboxes_ok t \<and>
    set ids = {k. \<exists>i. dict_get s k = Some i \<and> reapable i} \<and>
    (\<forall>k. dict_get t k = map_option (reaped now) (dict_get s k)) \<and> fst (reap now t) = Inr []"
proof -
  have all: "k \<in> si_sandbox_id ` set (list_instances now s)" if "dict_get s k = Some i" for k i
    using sandboxes_okD [OF ok that] map_of_SomeD [OF that] by (force simp: list_instances_values)
  have look: "dict_get s (si_sandbox_id i) = Some i" if "i \<in> set (list_instances now s)" for i
    using instance_lookup [OF ok] that by (simp add: list_instances_values)
  have "wp (reap now) (\<lambda>ids t. ids = map si_sandbox_id (filter reapable (list_instances now s)) \<and> sandboxes_ok t \<and>
     reaped_in now (si_sandbox_id ` set (list_instances now s)) s t) (\<lambda>_ _. False) s"
    using wp_reap_loop [OF ok distinct_instances [OF ok] look] by (simp add: reap_def wps)
  then obtain ids t where r: "reap now s = (Inr ids, t)"
    and ids: "ids = map si_sandbox_id (filter reapable (list_instances now s))" and t: "sandboxes_ok t"
    and d: "reaped_in now (si_sandbox_id ` set (list_instances now s)) s t"
    by (auto simp: wp_def split: prod.splits sum.splits)
  have d': "dict_get t k = map_option (reaped now) (dict_get s k)" for k
    using reaped_inD [OF d _ all] reaped_in_none [OF d] by (cases "dict_get s k") simp_all
  have "set ids = {k. \<exists>i. dict_get s k = Some i \<and> reapable i}"
  proof (rule set_eqI, rule iffI)
    fix k
    assume "k \<in> set ids"
    then obtain i where "i \<in> set (dict_values s)" "reapable i" "k = si_sandbox_id i"
      unfolding ids by (auto simp: list_instances_def)
    with instance_lookup [OF ok] show "k \<in> {k. \<exists>i. dict_get s k = Some i \<and> reapable i}" by blast
  next
    fix k
    assume "k \<in> {k. \<exists>i. dict_get s k = Some i \<and> reapable i}"
    then obtain i where i: "dict_get s k = Some i" "reapable i" by blast
    then have "i \<in> set (dict_values s)" by (metis map_of_SomeD image_eqI list.set_map snd_conv)
    then show "k \<in> set ids"
      using i sandboxes_okD [OF ok i(1)] unfolding ids by (auto simp: list_instances_def)
  qed
  moreover have "fst (reap now t) = Inr []"
  proof -
    have "\<not> reapable i" if "i \<in> set (dict_values t)" for i
      using instance_lookup [OF t that] d' [of "si_sandbox_id i"] reaped_not_reapable by auto
    then have "list_all (\<lambda>i. \<not> reapable i) (list_instances now t)"
      by (simp add: list_all_iff list_instances_values)
    moreover have "list_all (\<lambda>i. \<not> reapable i) js \<Longrightarrow> reap_loop now js t = (Inr [], t)" for js
      by (induction js) (simp_all add: returnE_def)
    ultimately have "reap_loop now (list_instances now t) t = (Inr [], t)" by blast
    then show ?thesis by (simp add: reap_def bindE_def getE_def)
  qed
  ultimately show ?thesis using r t d' by blast
qed

text \<open>A command that cannot be started leaves its instance running, and reaping never removes it.\<close>

lemma failed_start_leaks:
  assumes "sandboxes_ok s" "run_process command wall = NotStarted" "spec = None" "wall = 300"
  shows "\<exists>t i. sandbox_execute hard run_process k now finished run_id workload command spec s = (Inl SandboxProcessError, t) \<and>
    dict_get t k = Some i \<and> si_status i = SB_RUNNING \<and> dict_get (snd (reap later t)) k = Some i"
proof -
  let ?i = "new_instance k run_id workload SB_RUNNING spec now"
  have run: "sandbox_execute hard run_process k now finished run_id workload command spec s = (Inl SandboxProcessError, dict_put k ?i s)"
    using assms(2-4) by (simp add: sandbox_execute_def thenE_def bindE_def sandbox_save_def modifyE_def raiseE_def new_instance_def)
  have ok: "sandboxes_ok (dict_put k ?i s)"
    using sandboxes_ok_put [OF assms(1), of ?i] by (simp add: new_instance_def)
  have "reaped later ?i = ?i" by (simp add: reaped_def reapable_def sandbox_terminal_def new_instance_def)
  then show ?thesis
    using reap_exact [OF ok, of later] run by (auto simp: new_instance_def)
qed

end
