(* ===== verification/Run_Store.thy ===== *)
theory Run_Store
  imports Core_Model
begin

text \<open>
  The run storage of the execution plane: the models of \<open>execution/models.py\<close> and the bundle
  store of \<open>execution/store.py\<close> (\<open>_BundleStore\<close>, which \<open>InMemoryRunStore\<close> is). A
  bundle holds a run with its admission result, events, usage and deliveries. The write-through
  of \<open>JsonFileRunStore\<close> is file I/O behind the \<open>_commit\<close> and \<open>_discard\<close> hooks and is not
  modelled.
\<close>

section \<open>Models\<close>

datatype admission_outcome = ADMITTED | SANDBOX_ONLY | REFUSED

fun admission_outcome_value :: "admission_outcome \<Rightarrow> string" where
  "admission_outcome_value ADMITTED = ''admitted''"
| "admission_outcome_value SANDBOX_ONLY = ''sandbox_only''"
| "admission_outcome_value REFUSED = ''refused''"

record admission_check =
  ck_step :: string
  ck_passed :: bool
  ck_reason :: "string option"
  ck_rule :: "string option"

record admission_result =
  ar_run_id :: string
  ar_workload :: string
  ar_context :: admission_context
  ar_outcome :: admission_outcome
  ar_checks :: "admission_check list"
  ar_sandbox :: bool
  ar_escalation_required :: bool
  ar_refused_reason :: "string option"

definition policy_check :: "admission_result \<Rightarrow> admission_check option" where
  "policy_check r = List.find (\<lambda>check. ck_step check = ''policy'') (ar_checks r)"

datatype intervention_action = PAUSE | RESUME | STOP

fun intervention_action_value :: "intervention_action \<Rightarrow> string" where
  "intervention_action_value PAUSE = ''pause''"
| "intervention_action_value RESUME = ''resume''"
| "intervention_action_value STOP = ''stop''"

datatype delivery_status = DELIVERY_PENDING | DELIVERY_DELIVERED | DELIVERY_FAILED

record delivery_record =
  dr_run_id :: string
  dr_destination_type :: fanout_type
  dr_target :: string
  dr_status :: delivery_status
  dr_attempts :: int
  dr_error :: "string option"
  dr_timestamp :: time

record run_context =
  rx_run :: run
  rx_workload :: agent_workload
  rx_sandbox :: bool

record canary_assignment =
  ca_rollout_id :: string
  ca_arm :: string
  ca_candidate_version :: "int option"

record run_bundle =
  rb_run :: run
  rb_admission :: "admission_result option"
  rb_events :: "run_event list"
  rb_usage :: "usage_report list"
  rb_deliveries :: "delivery_record list"

section \<open>The bundle store\<close>

type_synonym run_store = "(string \<times> string, run_bundle) dict"

datatype store_error = RunNotFoundError string | RunScopeError tenancy_error

text \<open>
  The key of the bundle \<open>_find\<close> returns: the first bundle with the run id for the system
  context, the tenant's own bundle otherwise.
\<close>

definition find_key :: "run_store \<Rightarrow> string \<Rightarrow> tenant_context \<Rightarrow> (string \<times> string) option" where
  "find_key st run_id ctx =
     (if tc_is_system ctx
      then map_option fst (List.find (\<lambda>((tenant_id, rid), bundle). rid = run_id) st)
      else if dict_get st (tc_tenant_id ctx, run_id) \<noteq> None then Some (tc_tenant_id ctx, run_id)
      else None)"

definition find_bundle :: "run_store \<Rightarrow> string \<Rightarrow> tenant_context \<Rightarrow> run_bundle option" where
  "find_bundle st run_id ctx = Option.bind (find_key st run_id ctx) (dict_get st)"

definition require_bundle :: "run_store \<Rightarrow> string \<Rightarrow> tenant_context \<Rightarrow> store_error + run_bundle" where
  "require_bundle st run_id ctx = (case find_bundle st run_id ctx of
       None \<Rightarrow> Inl (RunNotFoundError run_id)
     | Some b \<Rightarrow> Inr b)"

text \<open>A mutation of the bundle object that \<open>_require\<close> returned.\<close>

definition mutate_bundle ::
  "run_store \<Rightarrow> string \<Rightarrow> tenant_context \<Rightarrow> (run_bundle \<Rightarrow> run_bundle) \<Rightarrow> store_error + run_store" where
  "mutate_bundle st run_id ctx f = (case find_key st run_id ctx of
       None \<Rightarrow> Inl (RunNotFoundError run_id)
     | Some k \<Rightarrow> (case dict_get st k of
           None \<Rightarrow> Inl (RunNotFoundError run_id)
         | Some b \<Rightarrow> Inr (dict_put k (f b) st)))"

definition save_run :: "run_store \<Rightarrow> tenant_context \<Rightarrow> run \<Rightarrow> store_error + run_store" where
  "save_run st ctx r = (case require ctx (r_tenant_id r) of
       Inl e \<Rightarrow> Inl (RunScopeError e)
     | Inr _ \<Rightarrow>
         (let key = (r_tenant_id r, r_id r) in
          case dict_get st key of
            None \<Rightarrow> Inr (dict_put key \<lparr>rb_run = r, rb_admission = None, rb_events = [], rb_usage = [],
                rb_deliveries = []\<rparr> st)
          | Some bundle \<Rightarrow> Inr (dict_put key (bundle\<lparr>rb_run := r\<rparr>) st)))"

definition get_run :: "run_store \<Rightarrow> tenant_context \<Rightarrow> string \<Rightarrow> run option" where
  "get_run st ctx run_id = map_option rb_run (find_bundle st run_id ctx)"

definition list_runs ::
  "run_store \<Rightarrow> tenant_context \<Rightarrow> string option \<Rightarrow> run_state option \<Rightarrow> time option \<Rightarrow> run_state list option \<Rightarrow>
   run list" where
  "list_runs st ctx workload state finished_after states =
     (let runs0 = map (rb_run \<circ> snd)
            (filter (\<lambda>((tenant_id, _), _). tc_is_system ctx \<or> tenant_id = tc_tenant_id ctx) st);
          runs1 = (case workload of None \<Rightarrow> runs0 | Some w \<Rightarrow> filter (\<lambda>r. r_workload_id r = w) runs0);
          runs2 = (case state of None \<Rightarrow> runs1 | Some s \<Rightarrow> filter (\<lambda>r. r_state r = s) runs1);
          runs3 = (case states of None \<Rightarrow> runs2 | Some ss \<Rightarrow> filter (\<lambda>r. r_state r \<in> set ss) runs2);
          runs4 = (case finished_after of None \<Rightarrow> runs3
            | Some t \<Rightarrow> filter (\<lambda>r. case r_finished_at r of None \<Rightarrow> False | Some f \<Rightarrow> f \<ge> t) runs3)
      in sort_key r_created_at runs4)"

text \<open>The store owns sequencing: one more than the largest sequence, \<open>-1\<close> by default.\<close>

definition next_sequence :: "run_event list \<Rightarrow> int" where
  "next_sequence events =
     (case max_by id (map e_sequence events) of None \<Rightarrow> -1 | Some m \<Rightarrow> m) + 1"

definition add_event :: "run_store \<Rightarrow> tenant_context \<Rightarrow> run_event \<Rightarrow> store_error + run_store" where
  "add_event st ctx event =
     mutate_bundle st (e_run_id event) ctx (\<lambda>b.
       b\<lparr>rb_events := rb_events b @ [event\<lparr>e_sequence := next_sequence (rb_events b)\<rparr>]\<rparr>)"

definition list_events :: "run_store \<Rightarrow> tenant_context \<Rightarrow> string \<Rightarrow> store_error + run_event list" where
  "list_events st ctx run_id = (case require_bundle st run_id ctx of
       Inl e \<Rightarrow> Inl e
     | Inr b \<Rightarrow> Inr (sort_key e_sequence (rb_events b)))"

definition add_usage :: "run_store \<Rightarrow> tenant_context \<Rightarrow> usage_report \<Rightarrow> store_error + run_store" where
  "add_usage st ctx report =
     mutate_bundle st (ur_run_id report) ctx (\<lambda>b. b\<lparr>rb_usage := rb_usage b @ [report]\<rparr>)"

definition list_usage :: "run_store \<Rightarrow> tenant_context \<Rightarrow> string \<Rightarrow> store_error + usage_report list" where
  "list_usage st ctx run_id = (case require_bundle st run_id ctx of
       Inl e \<Rightarrow> Inl e
     | Inr b \<Rightarrow> Inr (rb_usage b))"

definition save_admission :: "run_store \<Rightarrow> tenant_context \<Rightarrow> admission_result \<Rightarrow> store_error + run_store" where
  "save_admission st ctx result =
     mutate_bundle st (ar_run_id result) ctx (\<lambda>b. b\<lparr>rb_admission := Some result\<rparr>)"

definition get_admission ::
  "run_store \<Rightarrow> tenant_context \<Rightarrow> string \<Rightarrow> store_error + admission_result option" where
  "get_admission st ctx run_id = (case require_bundle st run_id ctx of
       Inl e \<Rightarrow> Inl e
     | Inr b \<Rightarrow> Inr (rb_admission b))"

definition add_delivery :: "run_store \<Rightarrow> tenant_context \<Rightarrow> delivery_record \<Rightarrow> store_error + run_store" where
  "add_delivery st ctx d =
     mutate_bundle st (dr_run_id d) ctx (\<lambda>b. b\<lparr>rb_deliveries := rb_deliveries b @ [d]\<rparr>)"

definition list_deliveries ::
  "run_store \<Rightarrow> tenant_context \<Rightarrow> string \<Rightarrow> store_error + delivery_record list" where
  "list_deliveries st ctx run_id = (case require_bundle st run_id ctx of
       Inl e \<Rightarrow> Inl e
     | Inr b \<Rightarrow> Inr (rb_deliveries b))"

definition delete_terminal_before ::
  "run_store \<Rightarrow> tenant_context \<Rightarrow> time \<Rightarrow> string \<Rightarrow> (string \<Rightarrow> bool) option \<Rightarrow> run_store \<times> nat" where
  "delete_terminal_before st ctx cutoff tenant_id skip =
     (let stale = map fst (filter (\<lambda>(key, bundle).
            fst key = tenant_id \<and> terminal (r_state (rb_run bundle)) \<and>
            r_updated_at (rb_run bundle) < cutoff \<and>
            \<not> (case skip of None \<Rightarrow> False | Some f \<Rightarrow> f (r_id (rb_run bundle)))) st)
      in (fold dict_pop stale st, length stale))"

definition purge_runs :: "run_store \<Rightarrow> tenant_context \<Rightarrow> string \<Rightarrow> run_store \<times> nat" where
  "purge_runs st ctx tenant_id =
     (let keys = filter (\<lambda>key. fst key = tenant_id) (dict_keys st)
      in (fold dict_pop keys st, length keys))"

section \<open>The store's invariant\<close>

definition sequenced :: "run_event list \<Rightarrow> bool" where
  "sequenced events \<longleftrightarrow> map e_sequence events = map int [0..<length events]"

definition bundle_ok :: "string \<times> string \<Rightarrow> run_bundle \<Rightarrow> bool" where
  "bundle_ok k b \<longleftrightarrow> k = (r_tenant_id (rb_run b), r_id (rb_run b)) \<and> sequenced (rb_events b)"

definition run_store_ok :: "run_store \<Rightarrow> bool" where
  "run_store_ok st \<longleftrightarrow> dict_ok st \<and> (\<forall>k b. dict_get st k = Some b \<longrightarrow> bundle_ok k b)"

lemma foldl_max_upt: "a \<le> b \<Longrightarrow> foldl (\<lambda>b y. if id b < id y then y else b) (int a) (map int [Suc a..<Suc b]) = int b"
proof (induction b)
  case 0
  then show ?case by simp
next
  case (Suc b)
  then show ?case
    by (cases "a = Suc b") (auto simp: upt_Suc simp del: upt_Suc_append)
qed

lemma next_sequence_sequenced:
  assumes "sequenced events"
  shows "next_sequence events = int (length events)"
proof (cases events)
  case Nil
  then show ?thesis by (simp add: next_sequence_def)
next
  case (Cons e es)
  have "map e_sequence events = int 0 # map int [Suc 0..<Suc (length es)]"
    using assms Cons by (simp add: sequenced_def upt_conv_Cons del: upt_Suc)
  then show ?thesis
    using foldl_max_upt [of 0 "length es"] Cons by (simp add: next_sequence_def del: upt_Suc)
qed

lemma sequenced_add: "sequenced events \<Longrightarrow> sequenced (events @ [e\<lparr>e_sequence := next_sequence events\<rparr>])"
  using next_sequence_sequenced [of events] by (simp add: sequenced_def)

lemma sort_sequenced: "sequenced events \<Longrightarrow> sort_key e_sequence events = events"
  by (rule sort_key_id_if_sorted) (simp add: sequenced_def sorted_map)

lemma find_key_scoped: "find_key st run_id ctx = Some k \<Longrightarrow> snd k = run_id \<and> scopes ctx (fst k)"
  by (auto simp: find_key_def scopes_def find_Some_iff split: if_splits)

lemma find_key_present: "find_key st run_id ctx = Some k \<Longrightarrow> \<exists>b. dict_get st k = Some b"
proof (cases "tc_is_system ctx")
  case True
  assume "find_key st run_id ctx = Some k"
  with True obtain b where "(k, b) \<in> set st"
    by (auto simp: find_key_def find_Some_iff) (metis nth_mem)
  then show ?thesis
    by (metis map_of_eq_None_iff option.exhaust fst_conv image_eqI)
next
  case False
  then show "find_key st run_id ctx = Some k \<Longrightarrow> \<exists>b. dict_get st k = Some b"
    by (auto simp: find_key_def split: if_splits)
qed

lemma find_key_own:
  "\<not> tc_is_system ctx \<Longrightarrow> find_key st run_id ctx =
     (if dict_get st (tc_tenant_id ctx, run_id) = None then None else Some (tc_tenant_id ctx, run_id))"
  by (simp add: find_key_def)

lemma find_bundle_own:
  "\<not> tc_is_system ctx \<Longrightarrow> find_bundle st run_id ctx = dict_get st (tc_tenant_id ctx, run_id)"
  by (simp add: find_bundle_def find_key_own)

lemma mutate_bundle_Inr:
  "(mutate_bundle st run_id ctx f = Inr st') =
     (\<exists>k b. find_key st run_id ctx = Some k \<and> dict_get st k = Some b \<and> st' = dict_put k (f b) st)"
  by (auto simp: mutate_bundle_def split: option.splits)

lemma mutate_bundle_ok:
  assumes "run_store_ok st" and "mutate_bundle st run_id ctx f = Inr st'"
    and "\<And>k b. bundle_ok k b \<Longrightarrow> bundle_ok k (f b)"
  shows "run_store_ok st'"
  using assms by (auto simp: mutate_bundle_Inr run_store_ok_def split: if_splits)

lemma save_run_Inr:
  "(save_run st ctx r = Inr st') =
     (scopes ctx (r_tenant_id r) \<and>
      st' = dict_put (r_tenant_id r, r_id r)
        (case dict_get st (r_tenant_id r, r_id r) of
           None \<Rightarrow> \<lparr>rb_run = r, rb_admission = None, rb_events = [], rb_usage = [], rb_deliveries = []\<rparr>
         | Some bundle \<Rightarrow> bundle\<lparr>rb_run := r\<rparr>) st)"
  by (auto simp: save_run_def require_def split: option.splits)

lemma save_run_ok:
  assumes "run_store_ok st" and "save_run st ctx r = Inr st'"
  shows "run_store_ok st'"
  using assms by (auto simp: save_run_Inr run_store_ok_def bundle_ok_def sequenced_def
      split: option.splits if_splits)

lemma add_event_ok: "run_store_ok st \<Longrightarrow> add_event st ctx e = Inr st' \<Longrightarrow> run_store_ok st'"
  unfolding add_event_def by (erule (1) mutate_bundle_ok) (auto simp: bundle_ok_def sequenced_add)

lemma add_usage_ok: "run_store_ok st \<Longrightarrow> add_usage st ctx u = Inr st' \<Longrightarrow> run_store_ok st'"
  unfolding add_usage_def by (erule (1) mutate_bundle_ok) (auto simp: bundle_ok_def)

lemma save_admission_ok: "run_store_ok st \<Longrightarrow> save_admission st ctx a = Inr st' \<Longrightarrow> run_store_ok st'"
  unfolding save_admission_def by (erule (1) mutate_bundle_ok) (auto simp: bundle_ok_def)

lemma add_delivery_ok: "run_store_ok st \<Longrightarrow> add_delivery st ctx d = Inr st' \<Longrightarrow> run_store_ok st'"
  unfolding add_delivery_def by (erule (1) mutate_bundle_ok) (auto simp: bundle_ok_def)

lemmas run_store_ok_ops = save_run_ok add_event_ok add_usage_ok save_admission_ok add_delivery_ok

interpretation runs: scoped_store run_store_ok get_run save_run r_id r_tenant_id
proof unfold_locales
  fix st ctx k v
  assume ok: "run_store_ok st" and "get_run st ctx k = Some v"
  then obtain key b where key: "find_key st k ctx = Some key" "dict_get st key = Some b" "v = rb_run b"
    by (auto simp: get_run_def find_bundle_def bind_eq_Some_conv)
  with ok have "bundle_ok key b" unfolding run_store_ok_def by blast
  then show "scopes ctx (r_tenant_id v)"
    using key find_key_scoped [OF key(1)] by (simp add: bundle_ok_def)
next
  fix st st' ctx v
  assume "save_run st ctx v = Inr st'"
  then show "scopes ctx (r_tenant_id v)" by (simp add: save_run_Inr)
next
  fix st st' ctx v
  assume "run_store_ok st" and "save_run st ctx v = Inr st'"
  then show "run_store_ok st'" by (rule save_run_ok)
next
  fix st st' ctx v team attr
  assume "save_run st ctx v = Inr st'"
  then show "get_run st' (context_for_run (r_tenant_id v) team attr) (r_id v) = Some v"
    by (auto simp: get_run_def find_bundle_own save_run_Inr split: option.splits)
next
  fix st st' ctx v k and rctx :: tenant_context
  assume "save_run st ctx v = Inr st'" and "\<not> tc_is_system rctx"
    and "tc_tenant_id rctx \<noteq> r_tenant_id v \<or> k \<noteq> r_id v"
  then show "get_run st' rctx k = get_run st rctx k"
    by (auto simp: get_run_def find_bundle_own save_run_Inr)
qed

section \<open>Properties\<close>

text \<open>
  An event is appended to the log of its run with the next free sequence number: listing the
  log gives the old log followed by the event, numbered by its position, and the logs of all
  other runs are unchanged.
\<close>

theorem add_event_appends:
  assumes "run_store_ok st" and "\<not> tc_is_system ctx"
    and "list_events st ctx (e_run_id e) = Inr es"
  shows "\<exists>st'. add_event st ctx e = Inr st' \<and> run_store_ok st' \<and>
    list_events st' ctx (e_run_id e) = Inr (es @ [e\<lparr>e_sequence := int (length es)\<rparr>]) \<and>
    (\<forall>rctx rid. \<not> tc_is_system rctx \<and> (tc_tenant_id rctx, rid) \<noteq> (tc_tenant_id ctx, e_run_id e) \<longrightarrow>
       list_events st' rctx rid = list_events st rctx rid)"
proof -
  let ?k = "(tc_tenant_id ctx, e_run_id e)"
  obtain b where b: "dict_get st ?k = Some b" and es: "es = sort_key e_sequence (rb_events b)"
    using assms(2,3) by (auto simp: list_events_def require_bundle_def find_bundle_own split: option.splits)
  have seq: "sequenced (rb_events b)"
    using assms(1) b by (auto simp: run_store_ok_def bundle_ok_def)
  then have es': "es = rb_events b"
    using es by (simp add: sort_sequenced)
  let ?b = "b\<lparr>rb_events := rb_events b @ [e\<lparr>e_sequence := next_sequence (rb_events b)\<rparr>]\<rparr>"
  have add: "add_event st ctx e = Inr (dict_put ?k ?b st)"
    using assms(2) b by (simp add: add_event_def mutate_bundle_def find_key_own)
  moreover have "list_events (dict_put ?k ?b st) ctx (e_run_id e) = Inr (es @ [e\<lparr>e_sequence := int (length es)\<rparr>])"
    using assms(2) sort_sequenced [OF sequenced_add [OF seq, of e]] next_sequence_sequenced [OF seq] es'
    by (simp add: list_events_def require_bundle_def find_bundle_own)
  moreover have "list_events (dict_put ?k ?b st) rctx rid = list_events st rctx rid"
    if "\<not> tc_is_system rctx" "(tc_tenant_id rctx, rid) \<noteq> ?k" for rctx rid
    using that by (auto simp: list_events_def require_bundle_def find_bundle_own)
  ultimately show ?thesis
    using add_event_ok [OF assms(1) add] by blast
qed

text \<open>A run in its first state, used to exercise the properties.\<close>

definition sample_bundle :: "string \<Rightarrow> string \<Rightarrow> run_state \<Rightarrow> (string \<times> string) \<times> run_bundle" where
  "sample_bundle tenant_id run_id state =
     ((tenant_id, run_id), \<lparr>rb_run = sample_run tenant_id run_id state, rb_admission = None,
        rb_events = [], rb_usage = [], rb_deliveries = []\<rparr>)"

definition sample_event :: "string \<Rightarrow> run_event" where
  "sample_event run_id = \<lparr>e_run_id = run_id, e_sequence = 0, e_type = EV_TOOL_CALL, e_actor = ''a'',
     e_timestamp = 0, e_from_state = None, e_to_state = None, e_detail = None\<rparr>"

lemma sample_bundle_ok: "run_store_ok [sample_bundle t r s]"
  by (simp add: run_store_ok_def bundle_ok_def sequenced_def sample_bundle_def sample_run_def)

theorem add_event_appends_witness:
  "\<exists>st'. add_event [sample_bundle ''t'' ''r'' QUEUED] (context_for_run ''t'' None None) (sample_event ''r'') = Inr st' \<and>
     list_events st' (context_for_run ''t'' None None) ''r'' = Inr [sample_event ''r'']"
proof -
  have "run_store_ok [sample_bundle ''t'' ''r'' QUEUED]" by (rule sample_bundle_ok)
  moreover have "list_events [sample_bundle ''t'' ''r'' QUEUED] (context_for_run ''t'' None None) ''r'' = Inr []"
    by (simp add: list_events_def require_bundle_def find_bundle_own sample_bundle_def)
  ultimately show ?thesis
    using add_event_appends [of "[sample_bundle ''t'' ''r'' QUEUED]" "context_for_run ''t'' None None" "sample_event ''r''" "[]"]
    by (auto simp: sample_event_def)
qed

text \<open>
  C27: isolation of runs. Whatever runs contexts outside a tenant save, the tenant reads the same
  runs as before.
\<close>

theorem run_store_isolated:
  assumes "run_store_ok st" and "\<not> tc_is_system rctx"
    and "\<forall>w \<in> set ws. \<not> scopes (fst w) (tc_tenant_id rctx)"
  shows "get_run (runs.writes st ws) rctx k = get_run st rctx k \<and> run_store_ok (runs.writes st ws)"
  using runs.writes_isolated [OF assms] runs.writes_ok [OF assms(1)] by blast

theorem run_store_isolated_witness:
  "get_run (runs.writes [sample_bundle ''t'' ''r'' QUEUED]
      [(context_for_run ''u'' None None, sample_run ''t'' ''r'' FAILED)]) (context_for_run ''t'' None None) ''r'' =
   Some (sample_run ''t'' ''r'' QUEUED)"
proof -
  have "run_store_ok [sample_bundle ''t'' ''r'' QUEUED]" by (rule sample_bundle_ok)
  then have "get_run (runs.writes [sample_bundle ''t'' ''r'' QUEUED]
      [(context_for_run ''u'' None None, sample_run ''t'' ''r'' FAILED)]) (context_for_run ''t'' None None) ''r'' =
      get_run [sample_bundle ''t'' ''r'' QUEUED] (context_for_run ''t'' None None) ''r''"
    by (intro run_store_isolated [THEN conjunct1]) auto
  also have "\<dots> = Some (sample_run ''t'' ''r'' QUEUED)"
    by (simp add: get_run_def find_bundle_own sample_bundle_def)
  finally show ?thesis .
qed

lemma fold_dict_pop_get:
  "dict_get (fold dict_pop ks d) k = (if k \<in> set ks then None else dict_get d k)"
  by (induction ks arbitrary: d) auto

text \<open>
  Retention. \<open>delete_terminal_before\<close> removes exactly the tenant's runs that are terminal,
  last updated before the cut-off and not skipped, and returns their number; every other run of
  every tenant stays.
\<close>

theorem delete_terminal_exact:
  assumes "dict_ok st"
  shows "dict_get (fst (delete_terminal_before st ctx cutoff t skip)) k =
    (case dict_get st k of
       None \<Rightarrow> None
     | Some b \<Rightarrow>
         (if fst k = t \<and> terminal (r_state (rb_run b)) \<and> r_updated_at (rb_run b) < cutoff \<and>
             \<not> (case skip of None \<Rightarrow> False | Some f \<Rightarrow> f (r_id (rb_run b)))
          then None else Some b)) \<and>
    snd (delete_terminal_before st ctx cutoff t skip) + length (fst (delete_terminal_before st ctx cutoff t skip)) = length st"
proof -
  let ?P = "\<lambda>(key, bundle). fst key = t \<and> terminal (r_state (rb_run bundle)) \<and>
      r_updated_at (rb_run bundle) < cutoff \<and>
      \<not> (case skip of None \<Rightarrow> False | Some f \<Rightarrow> f (r_id (rb_run bundle)))"
  let ?stale = "map fst (filter ?P st)"
  have del: "delete_terminal_before st ctx cutoff t skip = (fold dict_pop ?stale st, length ?stale)"
    by (simp add: delete_terminal_before_def)
  have fold: "fold dict_pop ?stale st = filter (\<lambda>p. \<not> ?P p) st"
    by (rule fold_pop_filter [OF assms])
  then have "length ?stale + length (fold dict_pop ?stale st) = length st"
    using sum_length_filter_compl [of ?P st] by simp
  then show ?thesis
    unfolding del fst_conv snd_conv fold dict_get_filter [OF assms]
    by (simp split: option.splits)
qed

theorem delete_terminal_exact_witness:
  "dict_get (fst (delete_terminal_before [sample_bundle ''t'' ''r'' FAILED] DEFAULT_CONTEXT 10 ''t'' None)) (''t'', ''r'') = None"
  using delete_terminal_exact [of "[sample_bundle ''t'' ''r'' FAILED]" DEFAULT_CONTEXT 10 "''t''" None "(''t'', ''r'')"]
  by (simp add: sample_bundle_def sample_run_def)

text \<open>
  Purging runs ignores the acting context: a context of one tenant purges all runs of another
  tenant, although the interface documents that writes across a tenant boundary raise.
\<close>

theorem purge_runs_unscoped:
  assumes "tc_tenant_id ctx \<noteq> t" "\<not> tc_is_system ctx"
  shows "\<not> scopes ctx t \<and> dict_get (fst (purge_runs st ctx t)) k = (if fst k = t then None else dict_get st k)"
  using assms by (cases k) (auto simp: scopes_def purge_runs_def fold_dict_pop_get map_of_eq_None_iff
      intro: rev_image_eqI)

theorem purge_runs_unscoped_witness:
  "dict_get (fst (purge_runs [sample_bundle ''t'' ''r'' RUNNING] DEFAULT_CONTEXT ''t'')) (''t'', ''r'') = None"
  using purge_runs_unscoped [of DEFAULT_CONTEXT "''t''" "[sample_bundle ''t'' ''r'' RUNNING]" "(''t'', ''r'')"]
  by (simp add: DEFAULT_CONTEXT_def DEFAULT_TENANT_ID_def)

end
