(* ===== verification/Fanout.thy ===== *)
theory Fanout
  imports Run_Store
begin

text \<open>
  Result fan-out, \<open>execution/fanout.py\<close>: the destinations of a run's outcome, the message, the
  delivery loop with its retries and the record of every delivery in the run store. The HTTP
  request (\<open>_urllib_post\<close>) is outside the model: \<open>post\<close> gives, for a URL and the number of the
  attempt, the error text or nothing on success. The span of a delivery is telemetry.
\<close>

section \<open>Transports\<close>

type_synonym message = "(string, json) dict"

type_synonym transport = "fanout_destination \<Rightarrow> message \<Rightarrow> nat \<Rightarrow> string option"

definition slack_send :: "(string \<Rightarrow> nat \<Rightarrow> string option) \<Rightarrow> string option \<Rightarrow> transport" where
  "slack_send post webhook_url destination message attempt =
     (if \<not> truthy webhook_url then Some ''no slack webhook configured''
      else post (the webhook_url) attempt)"

definition webhook_send :: "(string \<Rightarrow> nat \<Rightarrow> string option) \<Rightarrow> string option \<Rightarrow> transport" where
  "webhook_send post default_url destination message attempt =
     (let url = str_or (fd_url destination) (str_or default_url []) in
      if url = [] then Some ''no webhook url configured'' else post url attempt)"

section \<open>The service\<close>

record fanout_config =
  ff_transports :: "(fanout_type, transport) dict"
  ff_enabled :: bool
  ff_max_retries :: int
  ff_verification_base_url :: "string option"
  ff_artifact_lookup :: "(string \<Rightarrow> json list option) option"

definition fanout_target :: "fanout_destination \<Rightarrow> string" where
  "fanout_target d = str_or (fd_url d) (str_or (fd_channel d) (str_or (fd_project d) (fanout_type_value (fd_type d))))"

definition destinations :: "run \<Rightarrow> agent_workload \<Rightarrow> fanout_destination list" where
  "destinations r workload =
     (let fan_out = ws_fan_out (aw_spec workload) in
      if r_state r = COMPLETED then fo_on_completed fan_out
      else if r_state r = FAILED then fo_on_failed fan_out
      else [])"

definition rstrip_slash :: "string \<Rightarrow> string" where
  "rstrip_slash s = rev (dropWhile (\<lambda>c. c = CHR ''/'') (rev s))"

definition opt_json :: "string option \<Rightarrow> json" where
  "opt_json s = (case s of None \<Rightarrow> JNull | Some x \<Rightarrow> JStr x)"

definition fanout_message :: "run \<Rightarrow> agent_workload \<Rightarrow> string option \<Rightarrow> json list \<Rightarrow> message" where
  "fanout_message r workload base artifacts =
     (let attestation_id = Option.bind (ws_certification (aw_spec workload)) cs_attestation_id;
          url = (if truthy attestation_id \<and> truthy base
            then Some (rstrip_slash (the base) @ ''/attestations/'' @ the attestation_id @ ''/verify'') else None)
      in [(''run_id'', JStr (r_id r)), (''workload'', JStr (r_workload_id r)), (''state'', JStr (run_state_value (r_state r))),
          (''failure_reason'', opt_json (r_failure_reason r)), (''cost_usd'', JFloat (r_cost_usd r)),
          (''attestation_id'', opt_json attestation_id), (''verification_url'', opt_json url),
          (''artifacts'', JList artifacts)])"

definition fanout_artifacts :: "fanout_config \<Rightarrow> run \<Rightarrow> json list" where
  "fanout_artifacts cfg r = (case ff_artifact_lookup cfg of
       None \<Rightarrow> []
     | Some lookup \<Rightarrow> (case lookup (r_id r) of None \<Rightarrow> [] | Some xs \<Rightarrow> xs))"

type_synonym 'a fanout = "(run_store, store_error, 'a) exec"

definition fanout_finish :: "run \<Rightarrow> delivery_record \<Rightarrow> delivery_status \<Rightarrow> string option \<Rightarrow> delivery_record fanout" where
  "fanout_finish r d status error =
     (let finished = d\<lparr>dr_status := status, dr_error := error\<rparr> in
      bindE (getE id) (\<lambda>st.
        bindE (liftE (add_delivery st (context_for_run (r_tenant_id r) (r_team_id r) (r_attribution_key r)) finished)) (\<lambda>st'.
          thenE (modifyE (\<lambda>_. st')) (returnE finished))))"

text \<open>The retry loop: \<open>fuel\<close> attempts are left, \<open>n\<close> were made, \<open>error\<close> is the last error.\<close>

fun send_loop :: "(nat \<Rightarrow> string option) \<Rightarrow> nat \<Rightarrow> nat \<Rightarrow> string option \<Rightarrow> nat \<times> delivery_status \<times> string option" where
  "send_loop send 0 n error = (n, DELIVERY_FAILED, error)"
| "send_loop send (Suc fuel) n error = (case send (Suc n) of
       Some e \<Rightarrow> send_loop send fuel (Suc n) (Some e)
     | None \<Rightarrow> (Suc n, DELIVERY_DELIVERED, None))"

definition fanout_attempt ::
  "fanout_config \<Rightarrow> time \<Rightarrow> run \<Rightarrow> message \<Rightarrow> fanout_destination \<Rightarrow> delivery_record fanout" where
  "fanout_attempt cfg now r message destination =
     (let d = \<lparr>dr_run_id = r_id r, dr_destination_type = fd_type destination, dr_target = fanout_target destination,
            dr_status = DELIVERY_PENDING, dr_attempts = 0, dr_error = None, dr_timestamp = now\<rparr> in
      case dict_get (ff_transports cfg) (fd_type destination) of
        None \<Rightarrow> fanout_finish r d DELIVERY_FAILED (Some ''no transport configured'')
      | Some send \<Rightarrow>
          (let (attempts, status, error) = send_loop (send destination message) (nat (ff_max_retries cfg + 1)) 0 None
           in fanout_finish r (d\<lparr>dr_attempts := int attempts\<rparr>) status error))"

fun deliver_all ::
  "fanout_config \<Rightarrow> (nat \<Rightarrow> time) \<Rightarrow> run \<Rightarrow> message \<Rightarrow> fanout_destination list \<Rightarrow> delivery_record list fanout" where
  "deliver_all cfg clocks r message [] = returnE []"
| "deliver_all cfg clocks r message (d # ds) =
     bindE (fanout_attempt cfg (clocks (length ds)) r message d) (\<lambda>x.
       bindE (deliver_all cfg clocks r message ds) (\<lambda>xs. returnE (x # xs)))"

definition fanout_notify :: "fanout_config \<Rightarrow> (nat \<Rightarrow> time) \<Rightarrow> run \<Rightarrow> agent_workload \<Rightarrow> delivery_record list fanout" where
  "fanout_notify cfg clocks r workload =
     (if \<not> ff_enabled cfg then returnE []
      else deliver_all cfg clocks r (fanout_message r workload (ff_verification_base_url cfg) (fanout_artifacts cfg r))
             (destinations r workload))"

definition fanout_notify_escalation ::
  "fanout_config \<Rightarrow> (nat \<Rightarrow> time) \<Rightarrow> run \<Rightarrow> agent_workload \<Rightarrow> delivery_record list fanout" where
  "fanout_notify_escalation cfg clocks r workload =
     (if \<not> ff_enabled cfg then returnE []
      else deliver_all cfg clocks r (fanout_message r workload (ff_verification_base_url cfg) (fanout_artifacts cfg r))
             (fo_on_escalation (ws_fan_out (aw_spec workload))))"

section \<open>The retry loop\<close>

text \<open>
  The loop stops at the first attempt that succeeds and reports its number; otherwise it makes
  every attempt it has and reports the last error.
\<close>

lemma send_loop_delivers:
  "(\<exists>k. k < fuel \<and> send (Suc (n + k)) = None \<and> (\<forall>j < k. send (Suc (n + j)) \<noteq> None) \<and>
      send_loop send fuel n error = (Suc (n + k), DELIVERY_DELIVERED, None)) \<or>
   ((\<forall>j < fuel. send (Suc (n + j)) \<noteq> None) \<and>
      send_loop send fuel n error = (n + fuel, DELIVERY_FAILED, if fuel = 0 then error else send (n + fuel)))"
proof (induction fuel arbitrary: n error)
  case 0
  then show ?case by simp
next
  case (Suc fuel)
  show ?case
  proof (cases "send (Suc n)")
    case None
    then show ?thesis by (intro disjI1 exI [of _ 0]) simp
  next
    case (Some e)
    from Suc.IH [of "Suc n" "Some e"] show ?thesis
    proof (elim disjE exE conjE)
      fix k
      assume k: "k < fuel" "send (Suc (Suc n + k)) = None" "\<forall>j<k. send (Suc (Suc n + j)) \<noteq> None"
        "send_loop send fuel (Suc n) (Some e) = (Suc (Suc n + k), DELIVERY_DELIVERED, None)"
      have "send (Suc (n + j)) \<noteq> None" if "j < Suc k" for j
        using k(3) Some that by (cases j) auto
      then show ?thesis using k Some by (intro disjI1 exI [of _ "Suc k"]) simp
    next
      assume f: "\<forall>j<fuel. send (Suc (Suc n + j)) \<noteq> None"
        "send_loop send fuel (Suc n) (Some e) = (Suc n + fuel, DELIVERY_FAILED, if fuel = 0 then Some e else send (Suc n + fuel))"
      have "send (Suc (n + j)) \<noteq> None" if "j < Suc fuel" for j
        using f(1) Some that by (cases j) auto
      then show ?thesis using f(2) Some by (intro disjI2) auto
    qed
  qed
qed

section \<open>What a notification writes\<close>

text \<open>The run stays as it is; its delivery log grows by the records returned, in order.\<close>

definition with_deliveries :: "delivery_record list \<Rightarrow> run_bundle \<Rightarrow> run_bundle" where
  "with_deliveries ds b = b\<lparr>rb_deliveries := rb_deliveries b @ ds\<rparr>"

lemma with_deliveries_Nil [simp]: "with_deliveries [] b = b"
  by (simp add: with_deliveries_def)

lemma with_deliveries_run [simp]:
  "rb_run (with_deliveries ds b) = rb_run b" "rb_events (with_deliveries ds b) = rb_events b"
  "rb_usage (with_deliveries ds b) = rb_usage b" "rb_admission (with_deliveries ds b) = rb_admission b"
  by (simp_all add: with_deliveries_def)

lemma with_deliveries_Cons: "with_deliveries ds (with_deliveries [d] b) = with_deliveries (d # ds) b"
  by (simp add: with_deliveries_def)

lemma wp_fanout_finish:
  assumes "dict_get st (r_tenant_id r, r_id r) = Some b" and "dr_run_id d = r_id r"
  shows "wp (fanout_finish r d status error) Q E st =
    (let x = d\<lparr>dr_status := status, dr_error := error\<rparr> in Q x (dict_put (r_tenant_id r, r_id r) (with_deliveries [x] b) st))"
  using assms
  by (simp add: fanout_finish_def Let_def wps add_delivery_def mutate_bundle_def find_key_own with_deliveries_def)

lemma wp_fanout_attempt:
  assumes "dict_get st (r_tenant_id r, r_id r) = Some b"
  shows "wp (fanout_attempt cfg now r message d)
    (\<lambda>x t. dr_run_id x = r_id r \<and> dr_status x \<noteq> DELIVERY_PENDING \<and> dr_attempts x \<le> max 0 (ff_max_retries cfg + 1) \<and>
       t = dict_put (r_tenant_id r, r_id r) (with_deliveries [x] b) st) (\<lambda>_ _. False) st"
proof (cases "dict_get (ff_transports cfg) (fd_type d)")
  case None
  then show ?thesis using assms by (simp add: fanout_attempt_def Let_def wp_fanout_finish)
next
  case (Some send)
  obtain n status error where l: "send_loop (send d message) (nat (ff_max_retries cfg + 1)) 0 None = (n, status, error)"
    by (cases "send_loop (send d message) (nat (ff_max_retries cfg + 1)) 0 None")
  have "n \<le> nat (ff_max_retries cfg + 1) \<and> status \<noteq> DELIVERY_PENDING"
    using send_loop_delivers [of "nat (ff_max_retries cfg + 1)" "send d message" 0 None] l by auto
  then show ?thesis
    using Some l assms by (auto simp: fanout_attempt_def Let_def wp_fanout_finish)
qed

lemma wp_deliver_all:
  assumes "dict_get st (r_tenant_id r, r_id r) = Some b" "dict_ok st"
  shows "wp (deliver_all cfg clocks r message ds)
    (\<lambda>xs t. length xs = length ds \<and>
       (\<forall>x \<in> set xs. dr_run_id x = r_id r \<and> dr_status x \<noteq> DELIVERY_PENDING \<and> dr_attempts x \<le> max 0 (ff_max_retries cfg + 1)) \<and>
       t = (if ds = [] then st else dict_put (r_tenant_id r, r_id r) (with_deliveries xs b) st)) (\<lambda>_ _. False) st"
  using assms
proof (induction ds arbitrary: st b)
  case Nil
  then show ?case by (simp add: wps)
next
  case (Cons d ds)
  let ?k = "(r_tenant_id r, r_id r)"
  have step: "wp (deliver_all cfg clocks r message ds)
      (\<lambda>xs t. length (x # xs) = length (d # ds) \<and>
         (\<forall>y \<in> set (x # xs). dr_run_id y = r_id r \<and> dr_status y \<noteq> DELIVERY_PENDING \<and> dr_attempts y \<le> max 0 (ff_max_retries cfg + 1)) \<and>
         t = dict_put ?k (with_deliveries (x # xs) b) st) (\<lambda>_ _. False) (dict_put ?k (with_deliveries [x] b) st)"
    if x: "dr_run_id x = r_id r \<and> dr_status x \<noteq> DELIVERY_PENDING \<and> dr_attempts x \<le> max 0 (ff_max_retries cfg + 1)" for x
  proof -
    have g: "dict_get (dict_put ?k (with_deliveries [x] b) st) ?k = Some (with_deliveries [x] b)" by simp
    have ok: "dict_ok (dict_put ?k (with_deliveries [x] b) st)" using Cons.prems(2) by simp
    have pp: "dict_put ?k c (dict_put ?k c' st) = dict_put ?k c st" for c c'
      by (rule AList.update_last)
    show ?thesis
      by (rule wp_conseq [OF Cons.IH [OF g ok]])
         (use x pp in \<open>auto simp: with_deliveries_Cons split: if_splits\<close>)
  qed
  show ?case
    by (simp add: wpf, rule wp_conseq [OF wp_fanout_attempt [OF Cons.prems(1)]])
       (use step in auto)
qed

end
