(* ===== verification/Signing.thy ===== *)
theory Signing
  imports Core_Model Audit_Log
begin

text \<open>
  What a certification binds and how it is authenticated: the artifact binding
  (\<open>certification/binding.py\<close>), the attestation model with its canonical payload and
  signature (\<open>certification/models.py\<close>, \<open>certification/signing.py\<close>) and the signed workload
  bundle (\<open>transparency/provenance.py\<close>). \<open>json.dumps\<close> and \<open>base64\<close> are modelled; SHA-256,
  Ed25519, the textual form of a float and pydantic's text of an instant are parameters,
  bundled in \<open>crypto\<close>. The lemmas show that the canonical text determines the document, so
  that a hash or a signature over it covers every field.
\<close>

section \<open>JSON text\<close>

text \<open>\<open>json.dumps\<close> with \<open>sort_keys=True\<close> and compact separators.\<close>

fun comma_join :: "string list \<Rightarrow> string" where
  "comma_join [] = []"
| "comma_join [x] = x"
| "comma_join (x # y # xs) = x @ '','' @ comma_join (y # xs)"

fun json_dumps :: "(rat \<Rightarrow> string) \<Rightarrow> json \<Rightarrow> string" where
  "json_dumps fl JNull = ''null''"
| "json_dumps fl (JBool b) = (if b then ''true'' else ''false'')"
| "json_dumps fl (JInt i) = int_str i"
| "json_dumps fl (JFloat r) = fl r"
| "json_dumps fl (JStr s) = json_string s"
| "json_dumps fl (JList xs) = ''['' @ comma_join (map (json_dumps fl) xs) @ '']''"
| "json_dumps fl (JObj kvs) =
     ''{'' @ comma_join (map (\<lambda>(k, v). json_string k @ '':'' @ v)
        (sort_key fst (map (\<lambda>(k, v). (k, json_dumps fl v)) kvs))) @ ''}''"

section \<open>Base64\<close>

definition b64_char :: "nat \<Rightarrow> char" where
  "b64_char n =
     (if n < 26 then char_of (65 + n)
      else if n < 52 then char_of (71 + n)
      else if n < 62 then char_of (n - 4)
      else if n = 62 then CHR ''+'' else CHR ''/'')"

definition b64_value :: "char \<Rightarrow> nat option" where
  "b64_value c =
     (let n = of_char c in
      if 65 \<le> n \<and> n \<le> 90 then Some (n - 65)
      else if 97 \<le> n \<and> n \<le> 122 then Some (n - 71)
      else if 48 \<le> n \<and> n \<le> 57 then Some (n + 4)
      else if n = 43 then Some 62 else if n = 47 then Some 63 else None)"

fun b64encode :: "string \<Rightarrow> string" where
  "b64encode [] = []"
| "b64encode [a] =
     (let x = of_char a in [b64_char (x div 4), b64_char (x mod 4 * 16), CHR ''='', CHR ''=''])"
| "b64encode [a, b] =
     (let x = of_char a; y = of_char b
      in [b64_char (x div 4), b64_char (x mod 4 * 16 + y div 16), b64_char (y mod 16 * 4), CHR ''=''])"
| "b64encode (a # b # c # s) =
     (let x = of_char a; y = of_char b; z = of_char c
      in b64_char (x div 4) # b64_char (x mod 4 * 16 + y div 16) #
         b64_char (y mod 16 * 4 + z div 64) # b64_char (z mod 64) # b64encode s)"

text \<open>
  Strict decoding (\<open>validate=True\<close>): only the alphabet, padding only at the end of the last
  quantum. The bits a padded quantum leaves over are not inspected.
\<close>

fun b64decode :: "string \<Rightarrow> string option" where
  "b64decode [] = Some []"
| "b64decode (a # b # c # d # s) = (case (b64_value a, b64_value b) of
       (Some p, Some q) \<Rightarrow>
         (if d = CHR ''='' then
            (if s \<noteq> [] then None
             else if c = CHR ''='' then Some [char_of (p * 4 + q div 16)]
             else map_option (\<lambda>r. [char_of (p * 4 + q div 16), char_of (q mod 16 * 16 + r div 4)]) (b64_value c))
          else (case (b64_value c, b64_value d) of
              (Some r, Some t) \<Rightarrow>
                map_option (\<lambda>rest. char_of (p * 4 + q div 16) # char_of (q mod 16 * 16 + r div 4) #
                  char_of (r mod 4 * 64 + t) # rest) (b64decode s)
            | _ \<Rightarrow> None))
     | _ \<Rightarrow> None)"
| "b64decode s = None"

section \<open>Parameters\<close>

record ('sk, 'pk) crypto =
  cr_sha256 :: "string \<Rightarrow> string"
  cr_sign :: "'sk \<Rightarrow> string \<Rightarrow> string"
  cr_verify :: "'pk \<Rightarrow> string \<Rightarrow> string \<Rightarrow> bool"
  cr_float :: "rat \<Rightarrow> string"
  cr_datetime :: "time \<Rightarrow> string"

section \<open>The documents of the manifest\<close>

fun runtime_adapter_value :: "runtime_adapter \<Rightarrow> string" where
  "runtime_adapter_value RAW_WORKER = ''raw-worker''"
| "runtime_adapter_value LANGGRAPH = ''langgraph''"
| "runtime_adapter_value PYDANTIC_AI = ''pydanticai''"
| "runtime_adapter_value OPENAI_AGENTS = ''openai-agents''"
| "runtime_adapter_value CREWAI = ''crewai''"

fun model_strategy_value :: "model_strategy \<Rightarrow> string" where
  "model_strategy_value FIXED = ''fixed''"
| "model_strategy_value TIERED = ''tiered''"
| "model_strategy_value ROUTER = ''router''"

fun tool_trust_value :: "tool_trust_level \<Rightarrow> string" where
  "tool_trust_value TRUST_READ_ONLY = ''read_only''"
| "tool_trust_value TRUST_DESTRUCTIVE = ''destructive''"

fun action_class_value :: "action_class \<Rightarrow> string" where
  "action_class_value AC_READ_ONLY = ''read_only''"
| "action_class_value AC_DESTRUCTIVE = ''destructive''"
| "action_class_value AC_PRODUCTION_WRITE = ''production_write''"
| "action_class_value AC_HIGH_SPEND = ''high_spend''"

fun egress_mode_value :: "egress_mode \<Rightarrow> string" where
  "egress_mode_value EGRESS_OPEN = ''open''"
| "egress_mode_value EGRESS_RESTRICTED = ''restricted''"
| "egress_mode_value EGRESS_NONE = ''none''"

fun filesystem_mode_value :: "filesystem_mode \<Rightarrow> string" where
  "filesystem_mode_value ISOLATED = ''isolated''"

fun truncate_strategy_value :: "truncate_strategy \<Rightarrow> string" where
  "truncate_strategy_value TRUNCATE_HEAD = ''head''"
| "truncate_strategy_value TRUNCATE_TAIL = ''tail''"
| "truncate_strategy_value TRUNCATE_SUMMARY = ''summary''"

fun filter_action_value :: "filter_action \<Rightarrow> string" where
  "filter_action_value REDACT = ''redact''"
| "filter_action_value MASK = ''mask''"

definition json_option :: "('a \<Rightarrow> json) \<Rightarrow> 'a option \<Rightarrow> json" where
  "json_option f x = (case x of None \<Rightarrow> JNull | Some y \<Rightarrow> f y)"

abbreviation JOptStr :: "string option \<Rightarrow> json" where
  "JOptStr \<equiv> json_option JStr"

definition runtime_doc :: "runtime_spec \<Rightarrow> json" where
  "runtime_doc r = JObj [(''adapter'', JStr (runtime_adapter_value (rt_adapter r))),
     (''entrypoint'', JStr (rt_entrypoint r)),
     (''env'', JObj (map (\<lambda>(k, v). (k, JStr v)) (rt_env r))),
     (''adapter_contract'', JStr (rt_adapter_contract r))]"

definition model_identity_doc :: "model_identity \<Rightarrow> json" where
  "model_identity_doc i = JObj [(''provider'', JStr (mi_provider i)), (''family'', JStr (mi_family i)),
     (''version'', JStr (mi_version i))]"

definition model_doc :: "model_spec \<Rightarrow> json" where
  "model_doc m = JObj [(''strategy'', JStr (model_strategy_value (mo_strategy m))),
     (''identity'', json_option model_identity_doc (mo_identity m))]"

definition tool_ref_doc :: "tool_ref \<Rightarrow> json" where
  "tool_ref_doc t = JObj [(''tool_id'', JStr (tr_tool_id t)),
     (''trust_level'', JStr (tool_trust_value (tr_trust_level t))),
     (''require_approval'', JBool (tr_require_approval t)),
     (''allow_untrusted'', JBool (tr_allow_untrusted t))]"

definition mcp_server_doc :: "mcp_server \<Rightarrow> json" where
  "mcp_server_doc s = JObj [(''name'', JStr (ms_name s)), (''endpoint'', JStr (ms_endpoint s))]"

definition tools_doc :: "tools_spec \<Rightarrow> json" where
  "tools_doc t = JObj [(''allow'', JList (map tool_ref_doc (ts_allow t))),
     (''deny'', JList (map JStr (ts_deny t))),
     (''mcp_servers'', JList (map mcp_server_doc (ts_mcp_servers t))),
     (''default_trust'', JStr (tool_trust_value (ts_default_trust t)))]"

definition budget_doc :: "budget_spec \<Rightarrow> json" where
  "budget_doc b = JObj [(''per_run_usd'', JFloat (bs_per_run_usd b)),
     (''per_day_usd'', JFloat (bs_per_day_usd b)),
     (''per_team_usd'', json_option JFloat (bs_per_team_usd b))]"

definition approvals_doc :: "approvals_spec \<Rightarrow> json" where
  "approvals_doc a = JObj [(''required_for'', JList (map (\<lambda>c. JStr (action_class_value c)) (as_required_for a))),
     (''contact'', JOptStr (as_contact a)),
     (''auto_escalate_after'', JInt (as_auto_escalate_after a))]"

definition filter_rule_doc :: "filter_rule \<Rightarrow> json" where
  "filter_rule_doc f = JObj [(''pattern'', JStr (fr_pattern f)),
     (''action'', JStr (filter_action_value (fr_action f)))]"

definition output_shaping_doc :: "output_shaping_spec \<Rightarrow> json" where
  "output_shaping_doc s = JObj [(''max_bytes'', JInt (os_max_bytes s)),
     (''truncate_strategy'', JStr (truncate_strategy_value (os_truncate_strategy s))),
     (''filter_rules'', JList (map filter_rule_doc (os_filter_rules s))),
     (''injection_scan'', JBool (os_injection_scan s))]"

definition resource_caps_doc :: "resource_caps \<Rightarrow> json" where
  "resource_caps_doc c = JObj [(''memory_mb'', JInt (rc_memory_mb c)),
     (''cpu_cores'', JFloat (rc_cpu_cores c)), (''wall_clock_s'', JInt (rc_wall_clock_s c))]"

definition egress_doc :: "egress_spec \<Rightarrow> json" where
  "egress_doc e = JObj [(''allow'', JList (map JStr (eg_allow e))), (''deny'', JList (map JStr (eg_deny e))),
     (''mode'', JStr (egress_mode_value (eg_mode e)))]"

definition egress_rule_doc :: "egress_rule \<Rightarrow> json" where
  "egress_rule_doc r = JObj [(''host'', JStr (er_host r)), (''port'', json_option JInt (er_port r))]"

definition network_doc :: "network_spec \<Rightarrow> json" where
  "network_doc n = JObj [(''egress'', JStr (egress_mode_value (nw_egress n))),
     (''allow'', JList (map egress_rule_doc (nw_allow n))),
     (''deny'', JList (map egress_rule_doc (nw_deny n)))]"

definition sandbox_doc :: "sandbox_spec \<Rightarrow> json" where
  "sandbox_doc s = JObj [(''enabled'', JBool (sx_enabled s)),
     (''resource_caps'', json_option resource_caps_doc (sx_resource_caps s)),
     (''egress'', egress_doc (sx_egress s)),
     (''network'', json_option network_doc (sx_network s)),
     (''filesystem'', JStr (filesystem_mode_value (sx_filesystem s)))]"

section \<open>The artifact binding\<close>

record artifact_binding =
  ab_artifact_hash :: string
  ab_manifest_hash :: string
  ab_toolset_hash :: string
  ab_model_identity :: string
  ab_policy_version :: "string option"

definition behavioral_spec :: "agent_workload \<Rightarrow> json" where
  "behavioral_spec w = (let s = aw_spec w in JObj
     [(''runtime'', runtime_doc (ws_runtime s)),
      (''model'', model_doc (ws_model s)),
      (''tools'', tools_doc (ws_tools s)),
      (''budget'', budget_doc (ws_budget s)),
      (''approvals'', approvals_doc (ws_approvals s)),
      (''output_shaping'', json_option output_shaping_doc (ws_output_shaping s)),
      (''sandbox'', json_option sandbox_doc (ws_sandbox s))])"

definition toolset :: "agent_workload \<Rightarrow> json" where
  "toolset w = (let tools = ws_tools (aw_spec w) in JObj
     [(''allow'', JList (map (\<lambda>entry. JObj
         [(''tool_id'', JStr (tr_tool_id entry)),
          (''trust_level'', JStr (tool_trust_value (tr_trust_level entry))),
          (''require_approval'', JBool (tr_require_approval entry))])
        (sort_key tr_tool_id (ts_allow tools)))),
      (''deny'', JList (map JStr (sort (ts_deny tools)))),
      (''default_trust'', JStr (tool_trust_value (ts_default_trust tools)))])"

definition canonical_json :: "('sk, 'pk) crypto \<Rightarrow> json \<Rightarrow> string" where
  "canonical_json c j = json_dumps (cr_float c) j"

definition compute_binding :: "('sk, 'pk) crypto \<Rightarrow> agent_workload \<Rightarrow> string option \<Rightarrow> artifact_binding" where
  "compute_binding c w policy_version =
     (let manifest_hash = cr_sha256 c (canonical_json c (behavioral_spec w));
          toolset_hash = cr_sha256 c (canonical_json c (toolset w));
          model_binding = (case mo_identity (ws_model (aw_spec w)) of
              None \<Rightarrow> ''unbound''
            | Some identity \<Rightarrow> canonical_model_identity identity);
          artifact_hash = cr_sha256 c (canonical_json c (JObj
            [(''manifest_hash'', JStr manifest_hash), (''toolset_hash'', JStr toolset_hash),
             (''model_binding'', JStr model_binding), (''policy_version'', JOptStr policy_version)]))
      in \<lparr>ab_artifact_hash = artifact_hash, ab_manifest_hash = manifest_hash,
          ab_toolset_hash = toolset_hash, ab_model_identity = model_binding,
          ab_policy_version = policy_version\<rparr>)"

text \<open>An optional string inside an f-string.\<close>

definition opt_str :: "string option \<Rightarrow> string" where
  "opt_str x = (case x of None \<Rightarrow> ''None'' | Some s \<Rightarrow> s)"

definition changed_bindings :: "artifact_binding option \<Rightarrow> artifact_binding \<Rightarrow> string list" where
  "changed_bindings before after = (case before of
       None \<Rightarrow> [''manifest'', ''toolset'', ''model_binding'', ''policy_version'']
     | Some b \<Rightarrow>
         (if ab_manifest_hash b \<noteq> ab_manifest_hash after then [''manifest''] else []) @
         (if ab_toolset_hash b \<noteq> ab_toolset_hash after then [''toolset''] else []) @
         (if ab_model_identity b \<noteq> ab_model_identity after
          then [''model_binding: '' @ ab_model_identity b @ '' -> '' @ ab_model_identity after] else []) @
         (if ab_policy_version b \<noteq> ab_policy_version after
          then [''policy_version: '' @ opt_str (ab_policy_version b) @ '' -> '' @ opt_str (ab_policy_version after)]
          else []))"

section \<open>Attestations\<close>

datatype target_context = TARGET_STAGING | TARGET_PRODUCTION

fun target_context_value :: "target_context \<Rightarrow> string" where
  "target_context_value TARGET_STAGING = ''staging''"
| "target_context_value TARGET_PRODUCTION = ''production''"

record eval_summary =
  ev_pass_rate :: rat
  ev_critical_failures :: int
  ev_p95_latency_ms :: int
  ev_tasks_passed :: int
  ev_tasks_failed :: int

record environment =
  en_sandbox_image :: string
  en_runtime_adapter :: string
  en_control_plane_version :: string

record signer =
  sg_identity :: string
  sg_key_id :: string
  sg_signature :: string

record attestation =
  at_attestation_id :: string
  at_workload_id :: string
  at_manifest_version :: int
  at_benchmark_version :: string
  at_benchmark_run_id :: string
  at_corpus_id :: string
  at_corpus_version :: int
  at_model_identity :: string
  at_status :: certification_status
  at_target_context :: target_context
  at_eval_summary :: eval_summary
  at_timestamp :: time
  at_environment :: environment
  at_signer :: signer
  at_artifact_hash :: "string option"
  at_binding :: "artifact_binding option"
  at_previous_attestation_id :: "string option"
  at_profile :: string

definition eval_summary_doc :: "eval_summary \<Rightarrow> json" where
  "eval_summary_doc e = JObj [(''pass_rate'', JFloat (ev_pass_rate e)),
     (''critical_failures'', JInt (ev_critical_failures e)),
     (''p95_latency_ms'', JInt (ev_p95_latency_ms e)),
     (''tasks_passed'', JInt (ev_tasks_passed e)), (''tasks_failed'', JInt (ev_tasks_failed e))]"

definition environment_doc :: "environment \<Rightarrow> json" where
  "environment_doc e = JObj [(''sandbox_image'', JStr (en_sandbox_image e)),
     (''runtime_adapter'', JStr (en_runtime_adapter e)),
     (''control_plane_version'', JStr (en_control_plane_version e))]"

definition binding_doc :: "artifact_binding \<Rightarrow> json" where
  "binding_doc b = JObj [(''artifact_hash'', JStr (ab_artifact_hash b)),
     (''manifest_hash'', JStr (ab_manifest_hash b)), (''toolset_hash'', JStr (ab_toolset_hash b)),
     (''model_identity'', JStr (ab_model_identity b)), (''policy_version'', JOptStr (ab_policy_version b))]"

text \<open>\<open>model_dump(exclude={"signer": {"signature"}})\<close>: every field but the signature.\<close>

definition attestation_doc :: "(time \<Rightarrow> string) \<Rightarrow> attestation \<Rightarrow> json" where
  "attestation_doc dt a = JObj
     [(''attestation_id'', JStr (at_attestation_id a)),
      (''workload_id'', JStr (at_workload_id a)),
      (''manifest_version'', JInt (at_manifest_version a)),
      (''benchmark_version'', JStr (at_benchmark_version a)),
      (''benchmark_run_id'', JStr (at_benchmark_run_id a)),
      (''corpus_id'', JStr (at_corpus_id a)),
      (''corpus_version'', JInt (at_corpus_version a)),
      (''model_identity'', JStr (at_model_identity a)),
      (''status'', JStr (certification_status_value (at_status a))),
      (''target_context'', JStr (target_context_value (at_target_context a))),
      (''eval_summary'', eval_summary_doc (at_eval_summary a)),
      (''timestamp'', JStr (dt (at_timestamp a))),
      (''environment'', environment_doc (at_environment a)),
      (''signer'', JObj [(''identity'', JStr (sg_identity (at_signer a))), (''key_id'', JStr (sg_key_id (at_signer a)))]),
      (''artifact_hash'', JOptStr (at_artifact_hash a)),
      (''binding'', json_option binding_doc (at_binding a)),
      (''previous_attestation_id'', JOptStr (at_previous_attestation_id a)),
      (''profile'', JStr (at_profile a))]"

definition canonical_payload :: "('sk, 'pk) crypto \<Rightarrow> attestation \<Rightarrow> string" where
  "canonical_payload c a = json_dumps (cr_float c) (attestation_doc (cr_datetime c) a)"

definition sign_attestation :: "('sk, 'pk) crypto \<Rightarrow> attestation \<Rightarrow> 'sk \<Rightarrow> attestation" where
  "sign_attestation c a private_key =
     (let signature = cr_sign c private_key (canonical_payload c a);
          encoded = b64encode signature
      in a\<lparr>at_signer := (at_signer a)\<lparr>sg_signature := encoded\<rparr>\<rparr>)"

definition verify_attestation :: "('sk, 'pk) crypto \<Rightarrow> attestation \<Rightarrow> 'pk \<Rightarrow> bool" where
  "verify_attestation c a public_key = (case b64decode (sg_signature (at_signer a)) of
       None \<Rightarrow> False
     | Some signature \<Rightarrow> cr_verify c public_key signature (canonical_payload c a))"

section \<open>Workload bundles\<close>

record workload_bundle =
  wb_workload_id :: string
  wb_bundle_digest :: string
  wb_entrypoint_digest :: string
  wb_manifest_hash :: string
  wb_key_id :: string
  wb_signature :: string
  wb_registered_at :: time

definition UNSIGNED :: string where
  "UNSIGNED = ''unsigned''"

definition entrypoint_digest :: "('sk, 'pk) crypto \<Rightarrow> string \<Rightarrow> string option \<Rightarrow> string" where
  "entrypoint_digest c entrypoint source =
     cr_sha256 c (case source of Some bytes \<Rightarrow> bytes | None \<Rightarrow> entrypoint)"

definition compute_bundle_digest :: "('sk, 'pk) crypto \<Rightarrow> agent_workload \<Rightarrow> string option \<Rightarrow> string" where
  "compute_bundle_digest c w entrypoint_source =
     (let runtime = ws_runtime (aw_spec w) in
      cr_sha256 c (canonical_json c (JObj
        [(''workload_id'', JStr (workload_name w)),
         (''adapter'', JStr (runtime_adapter_value (rt_adapter runtime))),
         (''entrypoint'', JStr (rt_entrypoint runtime)),
         (''entrypoint_digest'', JStr (entrypoint_digest c (rt_entrypoint runtime) entrypoint_source)),
         (''manifest_hash'', JStr (ab_manifest_hash (compute_binding c w None)))])))"

definition canonical_bundle_payload :: "('sk, 'pk) crypto \<Rightarrow> workload_bundle \<Rightarrow> string" where
  "canonical_bundle_payload c b = json_dumps (cr_float c) (JObj
     [(''workload_id'', JStr (wb_workload_id b)),
      (''bundle_digest'', JStr (wb_bundle_digest b)),
      (''entrypoint_digest'', JStr (wb_entrypoint_digest b)),
      (''manifest_hash'', JStr (wb_manifest_hash b)),
      (''key_id'', JStr (wb_key_id b)),
      (''registered_at'', JStr (cr_datetime c (wb_registered_at b)))])"

definition sign_bundle ::
  "('sk, 'pk) crypto \<Rightarrow> agent_workload \<Rightarrow> 'sk \<Rightarrow> string \<Rightarrow> string \<Rightarrow> time \<Rightarrow> string option \<Rightarrow> workload_bundle" where
  "sign_bundle c w private_key key_id workload_id registered_at entrypoint_source =
     (let b = \<lparr>wb_workload_id = workload_id,
            wb_bundle_digest = compute_bundle_digest c w entrypoint_source,
            wb_entrypoint_digest = entrypoint_digest c (rt_entrypoint (ws_runtime (aw_spec w))) entrypoint_source,
            wb_manifest_hash = ab_manifest_hash (compute_binding c w None),
            wb_key_id = key_id, wb_signature = UNSIGNED, wb_registered_at = registered_at\<rparr>
      in b\<lparr>wb_signature := b64encode (cr_sign c private_key (canonical_bundle_payload c b))\<rparr>)"

definition verify_bundle ::
  "('sk, 'pk) crypto \<Rightarrow> workload_bundle \<Rightarrow> agent_workload \<Rightarrow> 'pk \<Rightarrow> string option \<Rightarrow> bool" where
  "verify_bundle c b w public_key entrypoint_source =
     (if wb_bundle_digest b \<noteq> compute_bundle_digest c w entrypoint_source then False
      else (case b64decode (wb_signature b) of
          None \<Rightarrow> False
        | Some signature \<Rightarrow> cr_verify c public_key signature (canonical_bundle_payload c b)))"

section \<open>Base64 round trip\<close>

lemma b64_value_char [simp]: "n < 64 \<Longrightarrow> b64_value (b64_char n) = Some n"
  by (auto simp: b64_value_def b64_char_def Let_def)

lemma b64_char_not_pad [simp]:
  assumes "n < 64"
  shows "b64_char n \<noteq> CHR ''=''"
proof
  assume "b64_char n = CHR ''=''"
  with b64_value_char [OF assms] show False by (simp add: b64_value_def)
qed

lemma of_char_bound [simp]: "(of_char c :: nat) div 4 < 64" "(of_char c :: nat) div 16 < 16" "(of_char c :: nat) div 64 < 4"
  using nat_of_char_less_256 [of c] by linarith+

lemma sextets:
  "(x::nat) mod 4 * 16 < 64" "y < 16 \<Longrightarrow> x mod 4 * 16 + y < 64"
  "x mod 16 * 4 < 64" "y < 4 \<Longrightarrow> x mod 16 * 4 + y < 64" "x mod 64 < 64"
  by linarith+

lemma b64decode_encode: "b64decode (b64encode s) = Some s"
proof (induction s rule: b64encode.induct)
  case (2 a)
  show ?case by (simp add: Let_def sextets)
next
  case (3 a b)
  show ?case by (simp add: Let_def sextets)
next
  case (4 a b c s)
  then show ?case by (simp add: Let_def sextets)
qed simp

section \<open>The JSON text determines the document\<close>

text \<open>The document with the keys of every object sorted, and its text without sorting.\<close>

fun json_norm :: "json \<Rightarrow> json" where
  "json_norm (JList xs) = JList (map json_norm xs)"
| "json_norm (JObj kvs) = JObj (sort_key fst (map (\<lambda>(k, v). (k, json_norm v)) kvs))"
| "json_norm j = j"

fun render :: "(rat \<Rightarrow> string) \<Rightarrow> json \<Rightarrow> string" where
  "render fl (JList xs) = ''['' @ comma_join (map (render fl) xs) @ '']''"
| "render fl (JObj kvs) =
     ''{'' @ comma_join (map (\<lambda>(k, v). json_string k @ '':'' @ render fl v) kvs) @ ''}''"
| "render fl j = json_dumps fl j"

lemma insort_key_map: "insort_key f (g x) (map g xs) = map g (insort_key (\<lambda>y. f (g y)) x xs)"
  by (induction xs) auto

lemma sort_key_map: "sort_key f (map g xs) = map g (sort_key (\<lambda>y. f (g y)) xs)"
  by (induction xs) (auto simp: insort_key_map)

lemma json_dumps_render: "json_dumps fl j = render fl (json_norm j)"
proof (induction fl j rule: json_dumps.induct)
  case (6 fl xs)
  then show ?case by (simp cong: map_cong)
next
  case (7 fl kvs)
  have "json_dumps fl (snd p) = render fl (json_norm (snd p))" if "p \<in> set kvs" for p
    using 7 that by (cases p) auto
  then show ?case by (simp add: sort_key_map case_prod_beta comp_def cong: map_cong)
qed simp_all

text \<open>What \<open>repr\<close> gives for a finite float: digits with a point or an exponent.\<close>

definition number_char :: "char \<Rightarrow> bool" where
  "number_char c = (is_digit c \<or> c \<in> {CHR ''-'', CHR ''+'', CHR ''.'', CHR ''e''})"

definition float_text :: "(rat \<Rightarrow> string) \<Rightarrow> bool" where
  "float_text fl = (inj fl \<and> (\<forall>r. fl r \<noteq> [] \<and> list_all number_char (fl r) \<and> hd (fl r) \<noteq> CHR ''e'') \<and>
     (\<forall>r i. fl r \<noteq> int_str i))"

definition delim :: "string \<Rightarrow> bool" where
  "delim x = (x = [] \<or> hd x \<in> {CHR '','', CHR '']'', CHR ''}''})"

lemma int_str_number: "list_all number_char (int_str i)" "int_str i \<noteq> []" "hd (int_str i) \<noteq> CHR ''e''"
proof -
  have "list_all number_char (nat_str n)" for n
    using nat_str_digits [of n] by (auto simp: list_all_iff number_char_def)
  then show "list_all number_char (int_str i)" by (simp add: int_str_def number_char_def)
  show "int_str i \<noteq> []" by (simp add: int_str_def)
  show "hd (int_str i) \<noteq> CHR ''e''"
    using nat_str_digits [of "nat i"] nat_str_nonempty [of "nat i"]
    by (cases "nat_str (nat i)") (auto simp: int_str_def is_digit_def)
qed

lemma int_str_eq: "(int_str i = int_str j) = (i = j)"
proof
  assume eq: "int_str i = int_str j"
  have d: "hd (nat_str n) \<noteq> CHR ''-''" for n
    using nat_str_digits [of n] by (cases "nat_str n") (auto simp: is_digit_def)
  have n: "nat_str m = nat_str n \<Longrightarrow> m = n" for m n
    by (metis digits_value_nat_str of_nat_eq_iff)
  show "i = j"
  proof (cases "i < 0")
    case True
    then have "j < 0" using arg_cong [OF eq, of hd] d [of "nat j"] by (auto simp: int_str_def split: if_splits)
    with True eq n [of "nat (- i)" "nat (- j)"] show ?thesis by (simp add: int_str_def)
  next
    case False
    then have "\<not> j < 0" using arg_cong [OF eq, of hd] d [of "nat i"] by (auto simp: int_str_def split: if_splits)
    with False eq n [of "nat i" "nat j"] show ?thesis by (simp add: int_str_def)
  qed
qed simp

lemma token_split:
  assumes "s @ x = t @ y" "list_all number_char s" "list_all number_char t" "delim x" "delim y"
  shows "s = t \<and> x = y"
  using assms(1-3)
proof (induction s arbitrary: t)
  case Nil
  have "t = []"
  proof (cases t)
    case (Cons c t')
    with Nil assms(4) have "c \<in> {CHR '','', CHR '']'', CHR ''}''}" "number_char c" by (auto simp: delim_def)
    then show ?thesis by (auto simp: number_char_def is_digit_def)
  qed simp
  then show ?case using Nil by simp
next
  case (Cons c s)
  show ?case
  proof (cases t)
    case Nil
    with Cons.prems assms(5) have "c \<in> {CHR '','', CHR '']'', CHR ''}''}" "number_char c" by (auto simp: delim_def)
    then show ?thesis by (auto simp: number_char_def is_digit_def)
  next
    case (Cons d t')
    then show ?thesis using Cons.prems Cons.IH [of t'] by simp
  qed
qed

lemma comma_join_Cons: "comma_join (x # xs) = x @ (if xs = [] then [] else CHR '','' # comma_join xs)"
  by (cases xs) simp_all

text \<open>A renderer whose texts can be cut out of any text they start.\<close>

definition cuts :: "('a \<Rightarrow> string) \<Rightarrow> 'a \<Rightarrow> bool" where
  "cuts R a = (\<forall>b x y. delim x \<longrightarrow> delim y \<longrightarrow> R a @ x = R b @ y \<longrightarrow> a = b \<and> x = y)"

lemma comma_join_cut:
  assumes "\<And>a. a \<in> set xs \<Longrightarrow> cuts R a"
    and "\<And>b. \<not> delim (R b)"
    and "comma_join (map R xs) @ c # x = comma_join (map R ys) @ c # y" "delim [c]" "c \<noteq> CHR '',''"
  shows "xs = ys \<and> x = y"
  using assms(1,3)
proof (induction xs arbitrary: ys)
  case Nil
  have nd: "\<not> delim (R b @ w)" for b w
    using assms(2) [of b] by (cases "R b") (auto simp: delim_def)
  show ?case
  proof (cases ys)
    case (Cons b bs)
    have "R b @ (if bs = [] then [] else CHR '','' # comma_join (map R bs)) @ c # y = c # x"
      using Nil.prems(2) Cons by (simp add: comma_join_Cons split: if_splits)
    moreover have "delim (c # x)" using assms(4) by (simp add: delim_def)
    ultimately show ?thesis using nd [of b "(if bs = [] then [] else CHR '','' # comma_join (map R bs)) @ c # y"] by metis
  qed (use Nil in simp)
next
  case (Cons a as)
  have nd: "\<not> delim (R b @ w)" for b w
    using assms(2) [of b] by (cases "R b") (auto simp: delim_def)
  let ?tail = "\<lambda>zs w. (if zs = [] then [] else CHR '','' # comma_join (map R zs)) @ c # w"
  have dt: "delim (?tail zs w)" for zs w using assms(4) by (simp add: delim_def)
  show ?case
  proof (cases ys)
    case Nil
    have "R a @ ?tail as x = c # y" using Cons.prems(2) Nil by (simp add: comma_join_Cons split: if_splits)
    moreover have "delim (c # y)" using assms(4) by (simp add: delim_def)
    ultimately show ?thesis using nd [of a "?tail as x"] by metis
  next
    case (Cons b bs)
    have "R a @ ?tail as x = R b @ ?tail bs y"
      using Cons.prems(2) Cons by (simp add: comma_join_Cons split: if_splits)
    moreover have "cuts R a" using Cons.prems(1) by simp
    ultimately have ab: "a = b" and t: "?tail as x = ?tail bs y"
      using dt unfolding cuts_def by blast+
    show ?thesis
    proof (cases "as = []")
      case True
      with t assms(5) have "bs = [] \<and> x = y" by (cases bs) auto
      with True ab Cons show ?thesis by simp
    next
      case False
      with t assms(5) have "bs \<noteq> [] \<and> comma_join (map R as) @ c # x = comma_join (map R bs) @ c # y"
        by (cases bs) auto
      with Cons.IH [of bs] Cons.prems(1) ab Cons show ?thesis by simp
    qed
  qed
qed

lemma json_string_hd: "json_string s = CHR 0x22 # tl (json_string s)"
  by (simp add: json_string_def)

lemma render_start:
  assumes "float_text fl"
  shows "\<not> delim (render fl j)"
proof -
  have num: "\<not> delim s" if "list_all number_char s" "s \<noteq> []" for s
    using that by (cases s) (auto simp: delim_def number_char_def is_digit_def)
  show ?thesis
  proof (cases j)
    case (JFloat r)
    then show ?thesis using assms num [of "fl r"] by (simp add: float_text_def)
  next
    case (JStr s)
    then show ?thesis by (simp add: delim_def json_string_def)
  qed (use num int_str_number in \<open>auto simp: delim_def\<close>)
qed

text \<open>The kind of a value can be read off the first character of its text.\<close>

fun json_kind :: "json \<Rightarrow> nat" where
  "json_kind JNull = 0"
| "json_kind (JBool b) = (if b then 1 else 2)"
| "json_kind (JInt i) = 3"
| "json_kind (JFloat r) = 3"
| "json_kind (JStr s) = 4"
| "json_kind (JList xs) = 5"
| "json_kind (JObj kvs) = 6"

definition text_kind :: "char \<Rightarrow> nat" where
  "text_kind c = (if c = CHR ''n'' then 0 else if c = CHR ''t'' then 1 else if c = CHR ''f'' then 2
     else if c = CHR 0x22 then 4 else if c = CHR ''['' then 5 else if c = CHR ''{'' then 6 else 3)"

lemma render_kind:
  assumes "float_text fl"
  shows "text_kind (hd (render fl j @ x)) = json_kind j"
proof -
  have num: "text_kind (hd (s @ x)) = 3" if "list_all number_char s" "s \<noteq> []" for s
    using that by (cases s) (auto simp: text_kind_def number_char_def is_digit_def)
  show ?thesis
  proof (cases j)
    case (JFloat r)
    then show ?thesis using assms num [of "fl r"] by (simp add: float_text_def)
  next
    case (JInt i)
    then show ?thesis using num [of "int_str i"] int_str_number by simp
  qed (simp_all add: text_kind_def json_string_def)
qed

lemma same_kind: "float_text fl \<Longrightarrow> render fl a @ x = render fl b @ y \<Longrightarrow> json_kind b = json_kind a"
  by (metis render_kind)

lemma render_cuts:
  assumes "float_text fl"
  shows "cuts (render fl) j"
proof (induction j)
  case JNull
  show ?case unfolding cuts_def
  proof (intro allI impI)
    fix b x y
    assume eq: "render fl JNull @ x = render fl b @ y"
    from same_kind [OF assms eq] have "json_kind b = 0" by simp
    with eq show "JNull = b \<and> x = y" by (cases b) (auto split: if_splits)
  qed
next
  case (JBool v)
  show ?case unfolding cuts_def
  proof (intro allI impI)
    fix b x y
    assume eq: "render fl (JBool v) @ x = render fl b @ y"
    from same_kind [OF assms eq] have "json_kind b = (if v then 1 else 2)" by simp
    with eq show "JBool v = b \<and> x = y" by (cases b) (auto split: if_splits)
  qed
next
  case (JInt i)
  show ?case unfolding cuts_def
  proof (intro allI impI)
    fix b x y
    assume d: "delim x" "delim y" and eq: "render fl (JInt i) @ x = render fl b @ y"
    from same_kind [OF assms eq] have "json_kind b = 3" by simp
    then consider j where "b = JInt j" | r where "b = JFloat r" by (cases b) (auto split: if_splits)
    then show "JInt i = b \<and> x = y"
    proof cases
      case 1
      with eq token_split [of "int_str i" x "int_str j" y] d int_str_number show ?thesis by (simp add: int_str_eq)
    next
      case 2
      with eq token_split [of "int_str i" x "fl r" y] d int_str_number assms
      have "int_str i = fl r" by (simp add: float_text_def)
      then show ?thesis using assms by (metis float_text_def)
    qed
  qed
next
  case (JFloat q)
  show ?case unfolding cuts_def
  proof (intro allI impI)
    fix b x y
    assume d: "delim x" "delim y" and eq: "render fl (JFloat q) @ x = render fl b @ y"
    from same_kind [OF assms eq] have "json_kind b = 3" by simp
    then consider j where "b = JInt j" | r where "b = JFloat r" by (cases b) (auto split: if_splits)
    then show "JFloat q = b \<and> x = y"
    proof cases
      case 1
      with eq token_split [of "fl q" x "int_str j" y] d int_str_number assms
      have "int_str j = fl q" by (simp add: float_text_def)
      then show ?thesis using assms by (metis float_text_def)
    next
      case 2
      with eq token_split [of "fl q" x "fl r" y] d assms show ?thesis by (simp add: float_text_def inj_eq)
    qed
  qed
next
  case (JStr s)
  show ?case unfolding cuts_def
  proof (intro allI impI)
    fix b x y
    assume eq: "render fl (JStr s) @ x = render fl b @ y"
    from same_kind [OF assms eq] have "json_kind b = 4" by simp
    then obtain t where "b = JStr t" by (cases b) (auto split: if_splits)
    with eq show "JStr s = b \<and> x = y" by (simp add: json_string_iff)
  qed
next
  case (JList xs)
  show ?case unfolding cuts_def
  proof (intro allI impI)
    fix b x y
    assume eq: "render fl (JList xs) @ x = render fl b @ y"
    from same_kind [OF assms eq] have "json_kind b = 5" by simp
    then obtain ys where b: "b = JList ys" by (cases b) (auto split: if_splits)
    have "xs = ys \<and> x = y"
      by (rule comma_join_cut [of xs "render fl" "CHR '']''"])
        (use JList.IH render_start [OF assms] eq b in \<open>simp_all add: delim_def\<close>)
    with b show "JList xs = b \<and> x = y" by simp
  qed
next
  case (JObj kvs)
  let ?R = "\<lambda>(k, v). json_string k @ '':'' @ render fl v"
  have c: "cuts ?R p" if "p \<in> set kvs" for p
  proof -
    obtain k v where p: "p = (k, v)" by (cases p)
    have "cuts (render fl) v" using JObj.IH that p by fastforce
    then show ?thesis unfolding cuts_def p by (auto simp: json_string_iff)
  qed
  show ?case unfolding cuts_def
  proof (intro allI impI)
    fix b x y
    assume eq: "render fl (JObj kvs) @ x = render fl b @ y"
    from same_kind [OF assms eq] have "json_kind b = 6" by simp
    then obtain ls where b: "b = JObj ls" by (cases b) (auto split: if_splits)
    have "kvs = ls \<and> x = y"
      by (rule comma_join_cut [of kvs ?R "CHR ''}''"])
        (use c eq b in \<open>auto simp: delim_def json_string_def\<close>)
    with b show "JObj kvs = b \<and> x = y" by simp
  qed
qed

text \<open>Equal texts come from the same document, up to the order of keys.\<close>

lemma json_dumps_inj:
  assumes "float_text fl" and "json_dumps fl a = json_dumps fl b"
  shows "json_norm a = json_norm b"
  using render_cuts [OF assms(1), of "json_norm a"] assms(2)
  unfolding cuts_def json_dumps_render by (metis append_Nil2 delim_def)

section \<open>Documents with known keys\<close>

lemma sort_key_eq_set:
  assumes "sort_key fst (xs :: (string \<times> 'a) list) = sort_key fst ys"
  shows "set xs = set ys"
  using arg_cong [OF assms, of set] by simp

abbreviation norm_pairs :: "(string \<times> json) list \<Rightarrow> (string \<times> json) list" where
  "norm_pairs kvs \<equiv> map (\<lambda>p. (fst p, json_norm (snd p))) kvs"

lemma json_norm_JObj: "json_norm (JObj kvs) = JObj (sort_key fst (norm_pairs kvs))"
  by (simp add: case_prod_beta')

declare json_norm.simps(2) [simp del]

lemma norm_pairs_eq:
  assumes "set (norm_pairs kvs) = set (norm_pairs ls)" "map fst kvs = map fst ls" "distinct (map fst kvs)" "i < length kvs"
  shows "json_norm (snd (kvs ! i)) = json_norm (snd (ls ! i))"
proof -
  have len: "length kvs = length ls" using assms(2) by (rule map_eq_imp_length_eq)
  have k: "fst (kvs ! i) = fst (ls ! i)"
    using arg_cong [OF assms(2), of "\<lambda>ks. ks ! i"] assms(4) len by simp
  have "norm_pairs kvs ! i \<in> set (norm_pairs kvs)" by (rule nth_mem) (simp add: assms(4))
  then have a: "(fst (ls ! i), json_norm (snd (kvs ! i))) \<in> set (norm_pairs ls)"
    using assms(4) unfolding assms(1) by (simp add: k)
  have "norm_pairs ls ! i \<in> set (norm_pairs ls)" by (rule nth_mem) (simp add: assms(4) len [symmetric])
  then have b: "(fst (ls ! i), json_norm (snd (ls ! i))) \<in> set (norm_pairs ls)"
    using assms(4) len by simp
  have d: "distinct (map fst (norm_pairs ls))" using assms(2,3) by (simp add: comp_def)
  show ?thesis by (rule eq_key_imp_eq_value [OF d a b])
qed

text \<open>Two objects with the same keys in the same order have the same normal form iff their values have.\<close>

lemma norm_obj_eq:
  assumes "map fst kvs = map fst ls" "distinct (map fst kvs)"
  shows "(json_norm (JObj kvs) = json_norm (JObj ls)) = list_all2 (\<lambda>p q. json_norm (snd p) = json_norm (snd q)) kvs ls"
    (is "?l = ?r")
proof
  assume ?l
  then have "sort_key fst (norm_pairs kvs) = sort_key fst (norm_pairs ls)" unfolding json_norm_JObj json.inject .
  then have "set (norm_pairs kvs) = set (norm_pairs ls)" by (rule sort_key_eq_set)
  note this [THEN norm_pairs_eq, OF assms]
  then show ?r using map_eq_imp_length_eq [OF assms(1)] by (simp add: list_all2_conv_all_nth)
next
  assume r: ?r
  have "norm_pairs kvs = norm_pairs ls"
    using r assms(1) by (induction kvs ls rule: list_all2_induct) simp_all
  then show ?l unfolding json_norm_JObj by simp
qed

definition doc_faithful :: "('a \<Rightarrow> json) \<Rightarrow> bool" where
  "doc_faithful f = (\<forall>a b. json_norm (f a) = json_norm (f b) \<longrightarrow> a = b)"

lemma faithful_eq: "doc_faithful f \<Longrightarrow> (json_norm (f a) = json_norm (f b)) = (a = b)"
  by (auto simp: doc_faithful_def)

lemma faithful_list:
  "doc_faithful f \<Longrightarrow> (json_norm (JList (map f xs)) = json_norm (JList (map f ys))) = (xs = ys)"
proof -
  assume f: "doc_faithful f"
  have "map (\<lambda>x. json_norm (f x)) xs = map (\<lambda>x. json_norm (f x)) ys \<Longrightarrow> xs = ys"
    by (rule map_injective) (use f in \<open>auto simp: inj_def doc_faithful_def\<close>)
  then show ?thesis by (auto simp: comp_def)
qed

lemma faithful_option:
  assumes "doc_faithful f" "\<And>a. json_norm (f a) \<noteq> JNull"
  shows "(json_norm (json_option f x) = json_norm (json_option f y)) = (x = y)"
  using assms faithful_eq [OF assms(1)] assms(2) [symmetric]
  by (cases x; cases y) (auto simp: json_option_def)

lemma faithful_str: "inj f \<Longrightarrow> doc_faithful (\<lambda>x. JStr (f x))"
  by (simp add: doc_faithful_def inj_eq)

lemma faithful_scalars:
  "doc_faithful JStr" "doc_faithful JInt" "doc_faithful JFloat" "doc_faithful JBool"
  by (simp_all add: doc_faithful_def)

lemma enum_values_inj:
  "inj runtime_adapter_value" "inj model_strategy_value" "inj tool_trust_value" "inj action_class_value"
  "inj egress_mode_value" "inj truncate_strategy_value" "inj filter_action_value" "inj target_context_value"
  "inj certification_status_value"
proof -
  show "inj runtime_adapter_value"
    by (rule injI, case_tac x; case_tac y) simp_all
  show "inj model_strategy_value" by (rule injI, case_tac x; case_tac y) simp_all
  show "inj tool_trust_value" by (rule injI, case_tac x; case_tac y) simp_all
  show "inj action_class_value" by (rule injI, case_tac x; case_tac y) simp_all
  show "inj egress_mode_value" by (rule injI, case_tac x; case_tac y) simp_all
  show "inj truncate_strategy_value" by (rule injI, case_tac x; case_tac y) simp_all
  show "inj filter_action_value" by (rule injI, case_tac x; case_tac y) simp_all
  show "inj target_context_value" by (rule injI, case_tac x; case_tac y) simp_all
  show "inj certification_status_value" by (rule injI, case_tac x; case_tac y) simp_all
qed

lemma norm_JObj_not_JNull [simp]: "json_norm (JObj kvs) \<noteq> JNull"
  by (simp add: json_norm_JObj)

lemma faithful_map:
  "doc_faithful f \<Longrightarrow> (map (json_norm \<circ> f) xs = map (json_norm \<circ> f) ys) = (xs = ys)"
  using faithful_list [of f xs ys] by simp

lemmas norm_cases = norm_obj_eq faithful_scalars [THEN faithful_map]
  faithful_option [OF faithful_scalars(1)] faithful_option [OF faithful_scalars(2)] faithful_option [OF faithful_scalars(3)]
  enum_values_inj [THEN inj_eq] enum_values_inj [THEN faithful_str, THEN faithful_map]

lemma model_identity_doc_faithful: "doc_faithful model_identity_doc"
  by (simp add: doc_faithful_def model_identity_doc_def norm_cases)

lemma model_doc_faithful: "doc_faithful model_doc"
proof -
  have "json_norm (model_identity_doc i) \<noteq> JNull" for i by (simp add: model_identity_doc_def json_norm_JObj)
  note opt = faithful_option [OF model_identity_doc_faithful this]
  show ?thesis by (simp add: doc_faithful_def model_doc_def norm_cases opt)
qed

lemma tool_ref_doc_faithful: "doc_faithful tool_ref_doc"
  by (simp add: doc_faithful_def tool_ref_doc_def norm_cases)

lemma mcp_server_doc_faithful: "doc_faithful mcp_server_doc"
  by (simp add: doc_faithful_def mcp_server_doc_def norm_cases)

lemma tools_doc_faithful: "doc_faithful tools_doc"
  by (simp add: doc_faithful_def tools_doc_def norm_cases tool_ref_doc_faithful [THEN faithful_map]
      mcp_server_doc_faithful [THEN faithful_map])

lemma budget_doc_faithful: "doc_faithful budget_doc"
  by (simp add: doc_faithful_def budget_doc_def norm_cases)

lemma approvals_doc_faithful: "doc_faithful approvals_doc"
  by (simp add: doc_faithful_def approvals_doc_def norm_cases)

lemma filter_rule_doc_faithful: "doc_faithful filter_rule_doc"
  by (simp add: doc_faithful_def filter_rule_doc_def norm_cases)

lemma output_shaping_doc_faithful: "doc_faithful output_shaping_doc"
  by (simp add: doc_faithful_def output_shaping_doc_def norm_cases filter_rule_doc_faithful [THEN faithful_map])

lemma resource_caps_doc_faithful: "doc_faithful resource_caps_doc"
  by (simp add: doc_faithful_def resource_caps_doc_def norm_cases)

lemma egress_doc_faithful: "doc_faithful egress_doc"
  by (simp add: doc_faithful_def egress_doc_def norm_cases)

lemma egress_rule_doc_faithful: "doc_faithful egress_rule_doc"
  by (simp add: doc_faithful_def egress_rule_doc_def norm_cases)

lemma network_doc_faithful: "doc_faithful network_doc"
  by (simp add: doc_faithful_def network_doc_def norm_cases egress_rule_doc_faithful [THEN faithful_map])

lemma docs_not_null:
  "json_norm (model_identity_doc i) \<noteq> JNull" "json_norm (resource_caps_doc r) \<noteq> JNull"
  "json_norm (network_doc n) \<noteq> JNull" "json_norm (output_shaping_doc o') \<noteq> JNull"
  "json_norm (sandbox_doc x) \<noteq> JNull" "json_norm (binding_doc b) \<noteq> JNull"
  by (simp_all add: model_identity_doc_def resource_caps_doc_def network_doc_def output_shaping_doc_def
      sandbox_doc_def binding_doc_def)

lemma sandbox_doc_faithful: "doc_faithful sandbox_doc"
proof -
  have "filesystem_mode_value x = filesystem_mode_value y \<longleftrightarrow> x = y" for x y by (cases x; cases y) simp
  then show ?thesis
    by (simp add: doc_faithful_def sandbox_doc_def norm_cases egress_doc_faithful [THEN faithful_eq]
        faithful_option [OF resource_caps_doc_faithful docs_not_null(2)] faithful_option [OF network_doc_faithful docs_not_null(3)])
qed

lemma eval_summary_doc_faithful: "doc_faithful eval_summary_doc"
  by (simp add: doc_faithful_def eval_summary_doc_def norm_cases)

lemma environment_doc_faithful: "doc_faithful environment_doc"
  by (simp add: doc_faithful_def environment_doc_def norm_cases)

lemma binding_doc_faithful: "doc_faithful binding_doc"
  by (simp add: doc_faithful_def binding_doc_def norm_cases)

section \<open>What the artifact hash covers\<close>

text \<open>
  The parts of two manifests the binding reads. The environment is a dictionary, so its order
  does not count.
\<close>

definition same_runtime :: "runtime_spec \<Rightarrow> runtime_spec \<Rightarrow> bool" where
  "same_runtime r q = (rt_adapter r = rt_adapter q \<and> rt_entrypoint r = rt_entrypoint q \<and>
     set (rt_env r) = set (rt_env q) \<and> rt_adapter_contract r = rt_adapter_contract q)"

definition same_behavior :: "agent_workload \<Rightarrow> agent_workload \<Rightarrow> bool" where
  "same_behavior w v = (let s = aw_spec w; t = aw_spec v in
     same_runtime (ws_runtime s) (ws_runtime t) \<and> ws_model s = ws_model t \<and> ws_tools s = ws_tools t \<and>
     ws_budget s = ws_budget t \<and> ws_approvals s = ws_approvals t \<and>
     ws_output_shaping s = ws_output_shaping t \<and> ws_sandbox s = ws_sandbox t)"

definition env_ok :: "agent_workload \<Rightarrow> bool" where
  "env_ok w = dict_ok (rt_env (ws_runtime (aw_spec w)))"

lemma sorted_dict_eq:
  fixes xs ys :: "(string \<times> 'a) list"
  assumes "dict_ok xs" "dict_ok ys"
  shows "(sort_key fst xs = sort_key fst ys) = (set xs = set ys)"
proof
  assume eq: "set xs = set ys"
  have d: "distinct (map fst (sort_key fst zs))" if "dict_ok zs" for zs :: "(string \<times> 'a) list"
    using that by (simp add: distinct_map)
  have "inj_on fst (set (sort_key fst xs) \<union> set (sort_key fst ys))"
    using assms(2) eq by (simp add: distinct_map)
  then show "sort_key fst xs = sort_key fst ys"
    by (rule map_sorted_distinct_set_unique) (simp_all add: d assms eq)
qed (rule sort_key_eq_set)

lemma env_doc_eq:
  fixes xs ys :: "(string \<times> string) list"
  assumes "dict_ok xs" "dict_ok ys"
  shows "(json_norm (JObj (map (\<lambda>(k, v). (k, JStr v)) xs)) = json_norm (JObj (map (\<lambda>(k, v). (k, JStr v)) ys))) =
    (set xs = set ys)"
proof -
  have n: "norm_pairs (map (\<lambda>(k, v). (k, JStr v)) zs) = map (\<lambda>p. (fst p, JStr (snd p))) zs" for zs :: "(string \<times> string) list"
    by (simp add: case_prod_beta')
  have i: "inj (\<lambda>p. (fst p, JStr (snd p)))" by (rule injI) (auto simp: prod_eq_iff)
  have d: "dict_ok (map (\<lambda>p. (fst p, JStr (snd p))) zs) = dict_ok zs" for zs :: "(string \<times> string) list"
    by (simp add: comp_def)
  show ?thesis
    unfolding json_norm_JObj n json.inject
    by (subst sorted_dict_eq) (simp_all add: d assms inj_image_eq_iff [OF i] comp_def)
qed

lemma runtime_doc_eq:
  assumes "dict_ok (rt_env r)" "dict_ok (rt_env q)"
  shows "(json_norm (runtime_doc r) = json_norm (runtime_doc q)) = same_runtime r q"
  by (simp add: runtime_doc_def norm_cases env_doc_eq [OF assms] same_runtime_def)

lemma behavioral_spec_eq:
  assumes "env_ok w" "env_ok v"
  shows "(json_norm (behavioral_spec w) = json_norm (behavioral_spec v)) = same_behavior w v"
  using assms
  by (simp add: behavioral_spec_def same_behavior_def Let_def norm_cases runtime_doc_eq env_ok_def
      model_doc_faithful [THEN faithful_eq] tools_doc_faithful [THEN faithful_eq] budget_doc_faithful [THEN faithful_eq]
      approvals_doc_faithful [THEN faithful_eq] faithful_option [OF output_shaping_doc_faithful docs_not_null(4)]
      faithful_option [OF sandbox_doc_faithful docs_not_null(5)])

definition collision :: "('sk, 'pk) crypto \<Rightarrow> string \<Rightarrow> string \<Rightarrow> bool" where
  "collision c x y = (x \<noteq> y \<and> cr_sha256 c x = cr_sha256 c y)"

definition manifest_input :: "('sk, 'pk) crypto \<Rightarrow> agent_workload \<Rightarrow> string" where
  "manifest_input c w = canonical_json c (behavioral_spec w)"

definition artifact_input :: "('sk, 'pk) crypto \<Rightarrow> artifact_binding \<Rightarrow> string" where
  "artifact_input c b = canonical_json c (JObj
     [(''manifest_hash'', JStr (ab_manifest_hash b)), (''toolset_hash'', JStr (ab_toolset_hash b)),
      (''model_binding'', JStr (ab_model_identity b)), (''policy_version'', JOptStr (ab_policy_version b))])"

lemma compute_binding_fields:
  "ab_manifest_hash (compute_binding c w pv) = cr_sha256 c (manifest_input c w)"
  "ab_artifact_hash (compute_binding c w pv) = cr_sha256 c (artifact_input c (compute_binding c w pv))"
  "ab_policy_version (compute_binding c w pv) = pv"
  by (simp_all add: compute_binding_def Let_def manifest_input_def artifact_input_def)

lemma same_behavior_binding:
  assumes "same_behavior w v" "env_ok w" "env_ok v"
  shows "compute_binding c w pv = compute_binding c v pv"
proof -
  have "json_norm (behavioral_spec w) = json_norm (behavioral_spec v)" using assms by (simp add: behavioral_spec_eq)
  then have "canonical_json c (behavioral_spec w) = canonical_json c (behavioral_spec v)"
    unfolding canonical_json_def json_dumps_render by simp
  moreover have "toolset w = toolset v" using assms(1) by (simp add: toolset_def same_behavior_def Let_def)
  ultimately show ?thesis using assms(1) by (simp add: compute_binding_def same_behavior_def Let_def)
qed

lemma artifact_hash_same:
  assumes "float_text (cr_float c)" "env_ok w" "env_ok v"
    and "ab_artifact_hash (compute_binding c w pv) = ab_artifact_hash (compute_binding c v qv)"
    and "\<not> collision c (manifest_input c w) (manifest_input c v)"
    and "\<not> collision c (artifact_input c (compute_binding c w pv)) (artifact_input c (compute_binding c v qv))"
  shows "same_behavior w v \<and> pv = qv"
proof -
  have "artifact_input c (compute_binding c w pv) = artifact_input c (compute_binding c v qv)"
    using assms(4,6) by (simp add: collision_def compute_binding_fields)
  note d = json_dumps_inj [OF assms(1) this [unfolded artifact_input_def canonical_json_def]]
  have eq: "cr_sha256 c (manifest_input c w) = cr_sha256 c (manifest_input c v)" "pv = qv"
    using d by (simp_all add: norm_cases compute_binding_fields)
  have "manifest_input c w = manifest_input c v" using eq(1) assms(5) by (simp add: collision_def)
  from json_dumps_inj [OF assms(1) this [unfolded manifest_input_def canonical_json_def]]
  have "same_behavior w v" using assms(2,3) by (simp add: behavioral_spec_eq)
  with eq(2) show ?thesis by simp
qed

section \<open>What signatures cover\<close>

lemma attestation_doc_eq:
  assumes "inj dt"
  shows "(json_norm (attestation_doc dt b) = json_norm (attestation_doc dt a)) =
    (b = a\<lparr>at_signer := (at_signer a)\<lparr>sg_signature := sg_signature (at_signer b)\<rparr>\<rparr>)"
proof -
  have "(json_norm (attestation_doc dt b) = json_norm (attestation_doc dt a)) =
    (at_attestation_id b = at_attestation_id a \<and> at_workload_id b = at_workload_id a \<and>
     at_manifest_version b = at_manifest_version a \<and> at_benchmark_version b = at_benchmark_version a \<and>
     at_benchmark_run_id b = at_benchmark_run_id a \<and> at_corpus_id b = at_corpus_id a \<and>
     at_corpus_version b = at_corpus_version a \<and> at_model_identity b = at_model_identity a \<and>
     at_status b = at_status a \<and> at_target_context b = at_target_context a \<and>
     at_eval_summary b = at_eval_summary a \<and> at_timestamp b = at_timestamp a \<and>
     at_environment b = at_environment a \<and>
     (sg_identity (at_signer b) = sg_identity (at_signer a) \<and> sg_key_id (at_signer b) = sg_key_id (at_signer a)) \<and>
     at_artifact_hash b = at_artifact_hash a \<and> at_binding b = at_binding a \<and>
     at_previous_attestation_id b = at_previous_attestation_id a \<and> at_profile b = at_profile a)"
    by (simp add: attestation_doc_def norm_cases eval_summary_doc_faithful [THEN faithful_eq] assms [THEN inj_eq]
        environment_doc_faithful [THEN faithful_eq] faithful_option [OF binding_doc_faithful docs_not_null(6)])
  also have "\<dots> = (b = a\<lparr>at_signer := (at_signer a)\<lparr>sg_signature := sg_signature (at_signer b)\<rparr>\<rparr>)"
    by (cases a; cases b; cases "at_signer a"; cases "at_signer b") auto
  finally show ?thesis .
qed

lemma canonical_payload_eq:
  assumes "float_text (cr_float c)" "inj (cr_datetime c)"
  shows "(canonical_payload c b = canonical_payload c a) =
    (b = a\<lparr>at_signer := (at_signer a)\<lparr>sg_signature := sg_signature (at_signer b)\<rparr>\<rparr>)"
proof -
  have "(canonical_payload c b = canonical_payload c a) =
    (json_norm (attestation_doc (cr_datetime c) b) = json_norm (attestation_doc (cr_datetime c) a))"
    using json_dumps_inj [OF assms(1)] unfolding canonical_payload_def by (metis json_dumps_render)
  then show ?thesis by (simp only: attestation_doc_eq [OF assms(2)])
qed

lemma payload_signature [simp]:
  "canonical_payload c (a\<lparr>at_signer := (at_signer a)\<lparr>sg_signature := x\<rparr>\<rparr>) = canonical_payload c a"
  by (simp add: canonical_payload_def attestation_doc_def)

lemma bundle_payload_signature [simp]:
  "canonical_bundle_payload c (b\<lparr>wb_signature := x\<rparr>) = canonical_bundle_payload c b"
  by (simp add: canonical_bundle_payload_def)

definition digest_input :: "('sk, 'pk) crypto \<Rightarrow> agent_workload \<Rightarrow> string option \<Rightarrow> string" where
  "digest_input c w source = canonical_json c (JObj
     [(''workload_id'', JStr (workload_name w)),
      (''adapter'', JStr (runtime_adapter_value (rt_adapter (ws_runtime (aw_spec w))))),
      (''entrypoint'', JStr (rt_entrypoint (ws_runtime (aw_spec w)))),
      (''entrypoint_digest'', JStr (entrypoint_digest c (rt_entrypoint (ws_runtime (aw_spec w))) source)),
      (''manifest_hash'', JStr (ab_manifest_hash (compute_binding c w None)))])"

lemma bundle_digest_input: "compute_bundle_digest c w source = cr_sha256 c (digest_input c w source)"
  by (simp add: compute_bundle_digest_def digest_input_def Let_def)

lemma bundle_digest_same:
  assumes "float_text (cr_float c)" "env_ok w" "env_ok v"
    and "compute_bundle_digest c w source = compute_bundle_digest c v source'"
    and "\<not> collision c (manifest_input c w) (manifest_input c v)"
    and "\<not> collision c (digest_input c w source) (digest_input c v source')"
  shows "workload_name w = workload_name v \<and> same_behavior w v"
proof -
  have "digest_input c w source = digest_input c v source'"
    using assms(4,6) by (simp add: collision_def bundle_digest_input)
  note d = json_dumps_inj [OF assms(1) this [unfolded digest_input_def canonical_json_def]]
  have eq: "workload_name w = workload_name v" "cr_sha256 c (manifest_input c w) = cr_sha256 c (manifest_input c v)"
    using d by (simp_all add: norm_cases compute_binding_fields)
  have "manifest_input c w = manifest_input c v" using eq(2) assms(5) by (simp add: collision_def)
  from json_dumps_inj [OF assms(1) this [unfolded manifest_input_def canonical_json_def]]
  show ?thesis using assms(2,3) eq(1) by (simp add: behavioral_spec_eq)
qed

lemma same_bundle_digest:
  assumes "workload_name w = workload_name v" "same_behavior w v" "env_ok w" "env_ok v"
  shows "compute_bundle_digest c w source = compute_bundle_digest c v source"
  using assms same_behavior_binding [OF assms(2-4), of c None]
  by (simp add: compute_bundle_digest_def same_behavior_def same_runtime_def Let_def)

lemma verify_signed_bundle:
  assumes "\<And>m. cr_verify c pk (cr_sign c sk m) m"
  shows "verify_bundle c (sign_bundle c w sk key wid t source) v pk source' =
    (compute_bundle_digest c w source = compute_bundle_digest c v source')"
  using assms by (simp add: verify_bundle_def sign_bundle_def Let_def b64decode_encode canonical_bundle_payload_def)

section \<open>Properties\<close>

definition sample_budget :: budget_spec where
  "sample_budget = \<lparr>bs_per_run_usd = 1, bs_per_day_usd = 2, bs_per_team_usd = None\<rparr>"

definition example_float :: "rat \<Rightarrow> string" where
  "example_float r = int_str (fst (quotient_of r)) @ ''.'' @ int_str (snd (quotient_of r))"

lemma int_str_no_dot: "CHR ''.'' \<notin> set (int_str i)"
proof -
  have "CHR ''.'' \<notin> set (nat_str n)" for n using nat_str_digits [of n] by (auto simp: list_all_iff is_digit_def)
  then show ?thesis by (simp add: int_str_def)
qed

lemma example_float_text: "float_text example_float"
proof -
  have "inj example_float"
  proof (rule injI)
    fix r q assume "example_float r = example_float q"
    then have "int_str (fst (quotient_of r)) = int_str (fst (quotient_of q)) \<and>
        int_str (snd (quotient_of r)) = int_str (snd (quotient_of q))"
      using append_Cons_eq_iff [OF int_str_no_dot int_str_no_dot] by (simp add: example_float_def int_str_no_dot)
    then have "quotient_of r = quotient_of q" by (simp add: int_str_eq prod_eq_iff)
    then show "r = q" by (simp add: quotient_of_inject)
  qed
  moreover have "example_float r \<noteq> int_str i" for r i
  proof
    assume "example_float r = int_str i"
    then have "CHR ''.'' \<in> set (int_str i)" by (metis example_float_def in_set_conv_decomp append_Cons append_Nil)
    then show False by (simp add: int_str_no_dot)
  qed
  ultimately show ?thesis
    using int_str_number by (simp add: float_text_def example_float_def number_char_def)
qed

definition example_crypto :: "(string, string) crypto" where
  "example_crypto = \<lparr>cr_sha256 = sha_example, cr_sign = (\<lambda>sk m. sk @ m),
     cr_verify = (\<lambda>pk s m. s = pk @ m), cr_float = example_float, cr_datetime = int_str\<rparr>"

lemma example_crypto_ok:
  "float_text (cr_float example_crypto)" "inj (cr_datetime example_crypto)"
  "\<And>m. cr_verify example_crypto k (cr_sign example_crypto k m) m"
  by (simp_all add: example_crypto_def example_float_text inj_def int_str_eq)

text \<open>
  C32: the artifact hash is exactly a fingerprint of the behaviour-affecting parts of the manifest and
  the policy version. Manifests that agree on them have the same hash, whatever their metadata,
  certification block or any other field; and equal hashes mean the manifests agree on all of them,
  unless one of the two hashed texts is a collision of SHA-256. The hypotheses are that the text of a
  float is a number that determines it and that environments have no duplicate key.
\<close>

theorem artifact_hash_binds:
  assumes "float_text (cr_float c)" "env_ok w" "env_ok v"
  shows "(same_behavior w v \<longrightarrow>
      ab_artifact_hash (compute_binding c w pv) = ab_artifact_hash (compute_binding c v pv)) \<and>
    (ab_artifact_hash (compute_binding c w pv) = ab_artifact_hash (compute_binding c v qv) \<longrightarrow>
      (same_behavior w v \<and> pv = qv) \<or> collision c (manifest_input c w) (manifest_input c v) \<or>
      collision c (artifact_input c (compute_binding c w pv)) (artifact_input c (compute_binding c v qv)))"
  using same_behavior_binding [OF _ assms(2,3)] artifact_hash_same [OF assms] by metis

lemma env_ok_sample [simp]: "env_ok (sample_workload name team budget)"
  by (simp add: env_ok_def sample_workload_def)

theorem artifact_hash_binds_witness:
  "ab_artifact_hash (compute_binding example_crypto (sample_workload ''a'' None sample_budget) None) =
   ab_artifact_hash (compute_binding example_crypto (sample_workload ''b'' (Some ''t'') sample_budget) None)"
  using artifact_hash_binds [OF example_crypto_ok(1) env_ok_sample [of "''a''" None sample_budget]
      env_ok_sample [of "''b''" "Some ''t''" sample_budget], of None]
  by (simp add: same_behavior_def same_runtime_def sample_workload_def Let_def)

text \<open>
  C33: an attestation signed with a key verifies with the matching public key, and the signed text
  determines every field of the attestation but the signature itself: another attestation has the
  same signed text exactly if it differs at most in the signature. Ed25519 is a parameter of which
  only its correctness is assumed.
\<close>

theorem attestation_signature_covers:
  assumes "\<And>m. cr_verify c pk (cr_sign c sk m) m" "float_text (cr_float c)" "inj (cr_datetime c)"
  shows "verify_attestation c (sign_attestation c a sk) pk \<and>
    (canonical_payload c b = canonical_payload c a \<longleftrightarrow>
       b = a\<lparr>at_signer := (at_signer a)\<lparr>sg_signature := sg_signature (at_signer b)\<rparr>\<rparr>)"
  using assms(1) canonical_payload_eq [OF assms(2,3)]
  by (simp add: verify_attestation_def sign_attestation_def Let_def b64decode_encode)

definition sample_attestation :: "string \<Rightarrow> string \<Rightarrow> certification_status \<Rightarrow> target_context \<Rightarrow> time \<Rightarrow> attestation" where
  "sample_attestation att workload status target t =
     \<lparr>at_attestation_id = att, at_workload_id = workload, at_manifest_version = 1, at_benchmark_version = ''1.0.0'',
      at_benchmark_run_id = ''br-1'', at_corpus_id = ''corpus'', at_corpus_version = 1, at_model_identity = ''a/b/c'',
      at_status = status, at_target_context = target,
      at_eval_summary = \<lparr>ev_pass_rate = 1, ev_critical_failures = 0, ev_p95_latency_ms = 1, ev_tasks_passed = 1, ev_tasks_failed = 0\<rparr>,
      at_timestamp = t,
      at_environment = \<lparr>en_sandbox_image = ''img'', en_runtime_adapter = ''raw-worker'', en_control_plane_version = ''1''\<rparr>,
      at_signer = \<lparr>sg_identity = ''svc'', sg_key_id = ''k1'', sg_signature = ''unsigned''\<rparr>,
      at_artifact_hash = Some ''h'', at_binding = None, at_previous_attestation_id = None, at_profile = ''full''\<rparr>"

theorem attestation_signature_covers_witness:
  "verify_attestation example_crypto (sign_attestation example_crypto (sample_attestation ''att-1'' ''w'' PROVISIONAL TARGET_STAGING 0) ''key'') ''key'' \<and>
   canonical_payload example_crypto (sample_attestation ''att-1'' ''w'' CERTIFIED TARGET_STAGING 0) \<noteq>
   canonical_payload example_crypto (sample_attestation ''att-1'' ''w'' PROVISIONAL TARGET_STAGING 0)"
  using attestation_signature_covers [OF example_crypto_ok(3) [of "''key''"] example_crypto_ok(1,2), of
      "sample_attestation ''att-1'' ''w'' PROVISIONAL TARGET_STAGING 0" "sample_attestation ''att-1'' ''w'' CERTIFIED TARGET_STAGING 0"]
  by (simp add: sample_attestation_def)

text \<open>
  C34: the bundle signed for a manifest verifies against that manifest, and against any manifest with
  the same name and the same behaviour; a bundle that verifies against another manifest shows that the
  two have the same name and behaviour, unless one of the two digests is a collision of SHA-256.
\<close>

theorem bundle_binds_manifest:
  assumes "\<And>m. cr_verify c pk (cr_sign c sk m) m" "float_text (cr_float c)" "env_ok w" "env_ok v"
  shows "verify_bundle c (sign_bundle c w sk key wid t source) w pk source \<and>
    (workload_name w = workload_name v \<and> same_behavior w v \<longrightarrow>
       verify_bundle c (sign_bundle c w sk key wid t source) v pk source) \<and>
    (verify_bundle c (sign_bundle c w sk key wid t source) v pk source' \<longrightarrow>
       (workload_name w = workload_name v \<and> same_behavior w v) \<or>
       collision c (manifest_input c w) (manifest_input c v) \<or>
       collision c (digest_input c w source) (digest_input c v source'))"
  using bundle_digest_same [OF assms(2-4)] same_bundle_digest [OF _ _ assms(3,4)]
  unfolding verify_signed_bundle [OF assms(1)] by blast

theorem bundle_binds_manifest_witness:
  "verify_bundle example_crypto
     (sign_bundle example_crypto (sample_workload ''a'' None sample_budget) ''key'' ''k1'' ''a'' 0 None)
     (sample_workload ''a'' (Some ''t'') sample_budget) ''key'' None"
  using bundle_binds_manifest [OF example_crypto_ok(3) [of "''key''"] example_crypto_ok(1) env_ok_sample [of "''a''" None sample_budget]
      env_ok_sample [of "''a''" "Some ''t''" sample_budget], of "''k1''" "''a''" 0 None]
  by (simp add: same_behavior_def same_runtime_def sample_workload_def Let_def workload_name_def)

end
