(* ===== verification/Registry.thy ===== *)
theory Registry
  imports Signing
begin

text \<open>
  The workload registry: the certification status machine (\<open>certification/models.py\<close>), the
  records and the in-memory store (\<open>registry/models.py\<close>, \<open>registry/store.py\<close>) and the registry
  service with its versioning, certification lifecycle, production admission, attestations, tools
  and triggers (\<open>registry/service.py\<close>). Clock readings are arguments; the metrics counters of
  attestation verification are not part of the state.
\<close>

section \<open>The certification lifecycle\<close>

datatype certification_event = STAGING_PASS | PRODUCTION_PASS | RECERT_FAIL | DRIFT | RECOVER

fun certification_event_value :: "certification_event \<Rightarrow> string" where
  "certification_event_value STAGING_PASS = ''staging_pass''"
| "certification_event_value PRODUCTION_PASS = ''production_pass''"
| "certification_event_value RECERT_FAIL = ''recert_fail''"
| "certification_event_value DRIFT = ''drift''"
| "certification_event_value RECOVER = ''recover''"

fun CERT_TRANSITIONS :: "certification_status \<Rightarrow> (certification_event, certification_status) dict" where
  "CERT_TRANSITIONS UNCERTIFIED = [(STAGING_PASS, PROVISIONAL)]"
| "CERT_TRANSITIONS PROVISIONAL = [(PRODUCTION_PASS, CERTIFIED), (RECERT_FAIL, QUARANTINED)]"
| "CERT_TRANSITIONS CERTIFIED = [(PRODUCTION_PASS, CERTIFIED), (RECERT_FAIL, QUARANTINED), (DRIFT, QUARANTINED)]"
| "CERT_TRANSITIONS QUARANTINED = [(RECOVER, PROVISIONAL)]"

definition advance_status :: "certification_status \<Rightarrow> certification_event \<Rightarrow> value_error + certification_status" where
  "advance_status current event = (case dict_get (CERT_TRANSITIONS current) event of
       None \<Rightarrow> Inl (ValueError (''invalid transition: '' @ certification_status_value current @
         '' cannot handle event '' @ certification_event_value event))
     | Some target \<Rightarrow> Inr target)"

section \<open>Records\<close>

datatype version_status = VERSION_ACTIVE | VERSION_PENDING | VERSION_SUPERSEDED

record workload_record =
  wl_name :: string
  wl_manifest :: agent_workload
  wl_current_version :: int
  wl_certification_status :: certification_status
  wl_owner :: string
  wl_team :: "string option"
  wl_runtime :: runtime_adapter
  wl_created_at :: time
  wl_updated_at :: time
  wl_needs_re_certification :: bool
  wl_artifact_hash :: "string option"
  wl_bundle :: "workload_bundle option"
  wl_production_runs_survived :: int
  wl_last_run_at :: "time option"
  wl_failure_count :: int
  wl_last_failure_at :: "time option"
  wl_tenant_id :: string

record workload_version =
  wv_workload :: string
  wv_version :: int
  wv_manifest :: agent_workload
  wv_status :: version_status
  wv_created_at :: time
  wv_re_certification_required :: bool
  wv_changed_fields :: "string list"

record tool_record =
  tl_tool_id :: string
  tl_name :: string
  tl_mcp_server :: string
  tl_trust_level :: tool_trust_level
  tl_description :: "string option"
  tl_parameters_schema :: "(string, json) dict"
  tl_registered_at :: time
  tl_registered_by :: string

record trigger_record =
  tz_trigger_id :: string
  tz_workload :: string
  tz_rule :: trigger_rule
  tz_created_at :: time

record enforcement_summary =
  es_valid :: bool
  es_name :: string
  es_owner :: string
  es_team :: "string option"
  es_runtime :: runtime_adapter
  es_certification_status :: certification_status
  es_production_admitted :: bool
  es_required_status_for_production :: certification_status
  es_tools_allowed :: "string list"
  es_tools_denied :: "string list"
  es_approvals_required_for :: "action_class list"
  es_budget_per_run_usd :: usd
  es_budget_per_day_usd :: usd
  es_sandbox_enabled :: bool
  es_output_shaping_enabled :: bool
  es_trigger_count :: nat
  es_fan_out_destinations :: nat
  es_warnings :: "string list"

record cert_admission_decision =
  cd_workload :: string
  cd_context :: admission_context
  cd_admitted :: bool
  cd_required_status :: "certification_status option"
  cd_actual_status :: certification_status
  cd_reason :: "string option"

record version_diff =
  vd_workload :: string
  vd_from_version :: int
  vd_to_version :: int
  vd_changed_fields :: "string list"
  vd_re_certification_required :: bool

datatype registry_error =
    WorkloadNotFoundError string
  | WorkloadAlreadyExistsError string
  | VersionNotFoundError string int
  | AdmissionRefusedError string string certification_status certification_status
  | ReCertificationRequiredError string "string list"
  | UnknownToolError string
  | ToolAlreadyExistsError string
  | DestructiveToolRequiresApprovalError string
  | AttestationNotFoundError string
  | AttestationVerificationError string
  | AttestationAlreadyExistsError string
  | RegistryScopeError tenancy_error
  | RegistryValueError value_error
  | RegistryValidationError

section \<open>The in-memory store\<close>

record registry_store =
  rs_workloads :: "(string, workload_record) dict"
  rs_versions :: "(string, (int, workload_version) dict) dict"
  rs_attestations :: "(string, attestation) dict"
  rs_attestation_tenants :: "(string, string) dict"
  rs_tools :: "(string, tool_record) dict"
  rs_tool_tenants :: "(string, string) dict"
  rs_triggers :: "(string, (string, trigger_record) dict) dict"

definition new_registry_store :: registry_store where
  "new_registry_store = \<lparr>rs_workloads = [], rs_versions = [], rs_attestations = [], rs_attestation_tenants = [],
     rs_tools = [], rs_tool_tenants = [], rs_triggers = []\<rparr>"

type_synonym 'a registry = "(registry_store, registry_error, 'a) exec"

definition requireR :: "tenant_context \<Rightarrow> string \<Rightarrow> unit registry" where
  "requireR ctx tenant_id = (case require ctx tenant_id of
       Inl e \<Rightarrow> raiseE (RegistryScopeError e)
     | Inr _ \<Rightarrow> returnE ())"

definition save_workload :: "workload_record \<Rightarrow> tenant_context \<Rightarrow> unit registry" where
  "save_workload r ctx =
     thenE (requireR ctx (wl_tenant_id r))
       (bindE (getE (\<lambda>st. dict_get (rs_workloads st) (wl_name r))) (\<lambda>existing.
          if (case existing of None \<Rightarrow> False | Some e \<Rightarrow> \<not> scopes ctx (wl_tenant_id e))
          then raiseE (WorkloadAlreadyExistsError (wl_name r))
          else modifyE (\<lambda>st. st\<lparr>rs_workloads := dict_put (wl_name r) r (rs_workloads st)\<rparr>)))"

definition get_workload :: "registry_store \<Rightarrow> tenant_context \<Rightarrow> string \<Rightarrow> workload_record option" where
  "get_workload st ctx name = (case dict_get (rs_workloads st) name of
       None \<Rightarrow> None
     | Some r \<Rightarrow> if \<not> scopes ctx (wl_tenant_id r) then None else Some r)"

definition store_list_workloads :: "registry_store \<Rightarrow> tenant_context \<Rightarrow> workload_record list" where
  "store_list_workloads st ctx = filter (\<lambda>r. scopes ctx (wl_tenant_id r)) (dict_values (rs_workloads st))"

text \<open>The in-memory store ignores \<open>cascade\<close>.\<close>

definition delete_workload :: "string \<Rightarrow> tenant_context \<Rightarrow> bool registry" where
  "delete_workload name ctx = bindE (getE (\<lambda>st. get_workload st ctx name)) (\<lambda>r.
     case r of
       None \<Rightarrow> returnE False
     | Some _ \<Rightarrow> thenE (modifyE (\<lambda>st. st\<lparr>rs_workloads := dict_pop name (rs_workloads st),
         rs_versions := dict_pop name (rs_versions st), rs_triggers := dict_pop name (rs_triggers st)\<rparr>))
         (returnE True))"

definition parent :: "string \<Rightarrow> tenant_context \<Rightarrow> workload_record registry" where
  "parent workload ctx = bindE (getE (\<lambda>st. dict_get (rs_workloads st) workload)) (\<lambda>r.
     case r of
       None \<Rightarrow> raiseE (WorkloadNotFoundError workload)
     | Some w \<Rightarrow> thenE (requireR ctx (wl_tenant_id w)) (returnE w))"

definition add_version :: "workload_version \<Rightarrow> tenant_context \<Rightarrow> unit registry" where
  "add_version v ctx = bindE (parent (wv_workload v) ctx) (\<lambda>_.
     modifyE (\<lambda>st. st\<lparr>rs_versions := dict_put (wv_workload v)
       (dict_put (wv_version v) v (dict_get_default (rs_versions st) (wv_workload v) [])) (rs_versions st)\<rparr>))"

definition list_versions :: "registry_store \<Rightarrow> tenant_context \<Rightarrow> string \<Rightarrow> workload_version list" where
  "list_versions st ctx workload = (case get_workload st ctx workload of
       None \<Rightarrow> []
     | Some _ \<Rightarrow> sort_key wv_version (dict_values (dict_get_default (rs_versions st) workload [])))"

definition store_get_version :: "registry_store \<Rightarrow> tenant_context \<Rightarrow> string \<Rightarrow> int \<Rightarrow> workload_version option" where
  "store_get_version st ctx workload version = (case get_workload st ctx workload of
       None \<Rightarrow> None
     | Some _ \<Rightarrow> dict_get (dict_get_default (rs_versions st) workload []) version)"

definition add_attestation :: "attestation \<Rightarrow> tenant_context \<Rightarrow> unit registry" where
  "add_attestation a ctx = bindE (parent (at_workload_id a) ctx) (\<lambda>p.
     modifyE (\<lambda>st. st\<lparr>rs_attestations := dict_put (at_attestation_id a) a (rs_attestations st),
       rs_attestation_tenants := dict_put (at_attestation_id a) (wl_tenant_id p) (rs_attestation_tenants st)\<rparr>))"

definition store_get_attestation :: "registry_store \<Rightarrow> tenant_context \<Rightarrow> string \<Rightarrow> attestation option" where
  "store_get_attestation st ctx attestation_id =
     (case (dict_get (rs_attestations st) attestation_id, dict_get (rs_attestation_tenants st) attestation_id) of
        (Some a, Some tenant) \<Rightarrow> if \<not> scopes ctx tenant then None else Some a
      | _ \<Rightarrow> None)"

definition store_list_attestations :: "registry_store \<Rightarrow> tenant_context \<Rightarrow> string \<Rightarrow> attestation list" where
  "store_list_attestations st ctx workload = (case get_workload st ctx workload of
       None \<Rightarrow> []
     | Some _ \<Rightarrow> sort_key at_timestamp (map snd (filter (\<lambda>(attestation_id, a).
         at_workload_id a = workload \<and> scopes ctx (dict_get_default (rs_attestation_tenants st) attestation_id []))
         (rs_attestations st))))"

definition save_tool :: "tool_record \<Rightarrow> tenant_context \<Rightarrow> unit registry" where
  "save_tool t ctx = modifyE (\<lambda>st. st\<lparr>rs_tools := dict_put (tl_tool_id t) t (rs_tools st),
     rs_tool_tenants := dict_put (tl_tool_id t) (tc_tenant_id ctx) (rs_tool_tenants st)\<rparr>)"

definition store_get_tool :: "registry_store \<Rightarrow> tenant_context \<Rightarrow> string \<Rightarrow> tool_record option" where
  "store_get_tool st ctx tool_id = dict_get (rs_tools st) tool_id"

definition store_list_tools :: "registry_store \<Rightarrow> tenant_context \<Rightarrow> tool_record list" where
  "store_list_tools st ctx = dict_values (rs_tools st)"

definition store_add_trigger :: "trigger_record \<Rightarrow> tenant_context \<Rightarrow> unit registry" where
  "store_add_trigger t ctx = bindE (parent (tz_workload t) ctx) (\<lambda>_.
     modifyE (\<lambda>st. st\<lparr>rs_triggers := dict_put (tz_workload t)
       (dict_put (tz_trigger_id t) t (dict_get_default (rs_triggers st) (tz_workload t) [])) (rs_triggers st)\<rparr>))"

definition store_list_triggers :: "registry_store \<Rightarrow> tenant_context \<Rightarrow> string \<Rightarrow> trigger_record list" where
  "store_list_triggers st ctx workload = (case get_workload st ctx workload of
       None \<Rightarrow> []
     | Some _ \<Rightarrow> sort_key tz_trigger_id (dict_values (dict_get_default (rs_triggers st) workload [])))"

definition store_delete_trigger :: "string \<Rightarrow> string \<Rightarrow> tenant_context \<Rightarrow> bool registry" where
  "store_delete_trigger workload trigger_id ctx = bindE (getE (\<lambda>st. get_workload st ctx workload)) (\<lambda>p.
     case p of
       None \<Rightarrow> returnE False
     | Some _ \<Rightarrow> bindE (getE (\<lambda>st. dict_get (dict_get_default (rs_triggers st) workload []) trigger_id)) (\<lambda>t.
         case t of
           None \<Rightarrow> returnE False
         | Some _ \<Rightarrow> thenE (modifyE (\<lambda>st. st\<lparr>rs_triggers := dict_put workload
             (dict_pop trigger_id (dict_get_default (rs_triggers st) workload [])) (rs_triggers st)\<rparr>)) (returnE True)))"

section \<open>Manifest changes\<close>

definition CERT_RELEVANT_FIELDS :: "string list" where
  "CERT_RELEVANT_FIELDS = [''spec.runtime'', ''spec.model'', ''spec.tools'', ''spec.certification.benchmark_corpus'']"

definition corpus_of :: "workload_spec \<Rightarrow> string option" where
  "corpus_of s = (case ws_certification s of None \<Rightarrow> None | Some c \<Rightarrow> cs_benchmark_corpus c)"

text \<open>
  Equality of two models compares their dictionaries without regard to order. Of the fields that
  \<open>changed_fields\<close> compares only \<open>runtime.env\<close> and \<open>metadata.labels\<close> are dictionaries.
\<close>

definition runtime_differs :: "runtime_spec \<Rightarrow> runtime_spec \<Rightarrow> bool" where
  "runtime_differs r q = (\<not> same_runtime r q)"

definition metadata_differs :: "workload_metadata \<Rightarrow> workload_metadata \<Rightarrow> bool" where
  "metadata_differs m n = (\<not> (md_name m = md_name n \<and> md_owner m = md_owner n \<and> md_team m = md_team n \<and>
     md_description m = md_description n \<and> set (md_labels m) = set (md_labels n)))"

definition changed_fields :: "agent_workload \<Rightarrow> agent_workload \<Rightarrow> string list" where
  "changed_fields old new =
     (let o' = aw_spec old; n = aw_spec new in
      (if runtime_differs (ws_runtime o') (ws_runtime n) then [''spec.runtime''] else []) @
      (if ws_model o' \<noteq> ws_model n then [''spec.model''] else []) @
      (if ws_tools o' \<noteq> ws_tools n then [''spec.tools''] else []) @
      (if corpus_of o' \<noteq> corpus_of n then [''spec.certification.benchmark_corpus''] else []) @
      (if ws_budget o' \<noteq> ws_budget n then [''spec.budget''] else []) @
      (if ws_approvals o' \<noteq> ws_approvals n then [''spec.approvals''] else []) @
      (if ws_triggers o' \<noteq> ws_triggers n then [''spec.triggers''] else []) @
      (if ws_fan_out o' \<noteq> ws_fan_out n then [''spec.fan_out''] else []) @
      (if ws_output_shaping o' \<noteq> ws_output_shaping n then [''spec.output_shaping''] else []) @
      (if ws_health o' \<noteq> ws_health n then [''spec.health''] else []) @
      (if ws_observability o' \<noteq> ws_observability n then [''spec.observability''] else []) @
      (if metadata_differs (aw_metadata old) (aw_metadata new) then [''metadata''] else []))"

definition requires_re_certification :: "string list \<Rightarrow> bool" where
  "requires_re_certification changes = list_ex (\<lambda>field. field \<in> set CERT_RELEVANT_FIELDS) changes"

definition survival_after_transition :: "int \<Rightarrow> certification_status \<Rightarrow> int" where
  "survival_after_transition current status = (if status \<in> {PROVISIONAL, QUARANTINED} then 0 else current)"

section \<open>The registry service\<close>

record ('sk, 'pk) registry_config =
  rg_crypto :: "('sk, 'pk) crypto"
  rg_public_key :: "'pk option"
  rg_bundle_signing_key :: "'sk option"
  rg_bundle_key_id :: string
  rg_key_resolver :: "(string \<Rightarrow> 'pk option) option"

definition resolve_key :: "('sk, 'pk) registry_config \<Rightarrow> string \<Rightarrow> 'pk option" where
  "resolve_key cfg key_id = (case rg_key_resolver cfg of
       Some resolver \<Rightarrow> resolver key_id
     | None \<Rightarrow> rg_public_key cfg)"

definition registry_get :: "string \<Rightarrow> tenant_context \<Rightarrow> workload_record registry" where
  "registry_get name ctx = bindE (getE (\<lambda>st. get_workload st ctx name)) (\<lambda>r.
     case r of None \<Rightarrow> raiseE (WorkloadNotFoundError name) | Some w \<Rightarrow> returnE w)"

definition registry_sign_bundle :: "('sk, 'pk) registry_config \<Rightarrow> time \<Rightarrow> agent_workload \<Rightarrow> workload_bundle option" where
  "registry_sign_bundle cfg signed_at m = (case rg_bundle_signing_key cfg of
       None \<Rightarrow> None
     | Some key \<Rightarrow> Some (sign_bundle (rg_crypto cfg) m key (rg_bundle_key_id cfg) (workload_name m) signed_at None))"

definition fresh_record ::
  "('sk, 'pk) registry_config \<Rightarrow> time \<Rightarrow> agent_workload \<Rightarrow> int \<Rightarrow> time \<Rightarrow> string \<Rightarrow> bool \<Rightarrow> workload_record" where
  "fresh_record cfg signed_at m version created_at tenant_id needs_re_certification =
     \<lparr>wl_name = workload_name m, wl_manifest = m, wl_current_version = version,
      wl_certification_status = workload_certification_status m, wl_owner = workload_owner m,
      wl_team = workload_team m, wl_runtime = rt_adapter (ws_runtime (aw_spec m)),
      wl_created_at = created_at, wl_updated_at = created_at,
      wl_needs_re_certification = needs_re_certification,
      wl_artifact_hash = Some (ab_artifact_hash (compute_binding (rg_crypto cfg) m None)),
      wl_bundle = registry_sign_bundle cfg signed_at m,
      wl_production_runs_survived = 0, wl_last_run_at = None, wl_failure_count = 0,
      wl_last_failure_at = None, wl_tenant_id = tenant_id\<rparr>"

text \<open>The field constraints of the record: the tenant id has between 1 and 64 characters.\<close>

definition build_record ::
  "('sk, 'pk) registry_config \<Rightarrow> time \<Rightarrow> agent_workload \<Rightarrow> int \<Rightarrow> time \<Rightarrow> string \<Rightarrow> bool \<Rightarrow> workload_record registry" where
  "build_record cfg signed_at m version created_at tenant_id needs_re_certification =
     (if version < 1 \<or> tenant_id = [] \<or> 64 < length tenant_id then raiseE RegistryValidationError
      else returnE (fresh_record cfg signed_at m version created_at tenant_id needs_re_certification))"

definition validate_tools :: "agent_workload \<Rightarrow> tenant_context \<Rightarrow> unit registry" where
  "validate_tools m ctx = forE (ts_allow (ws_tools (aw_spec m))) (\<lambda>entry.
     bindE (getE (\<lambda>st. store_get_tool st ctx (tr_tool_id entry))) (\<lambda>tool.
       if tool = None then raiseE (UnknownToolError (tr_tool_id entry))
       else if tr_trust_level entry = TRUST_DESTRUCTIVE \<and> \<not> tr_require_approval entry
       then raiseE (DestructiveToolRequiresApprovalError (tr_tool_id entry))
       else returnE ()))"

definition make_trigger :: "string \<Rightarrow> string \<Rightarrow> trigger_rule \<Rightarrow> time \<Rightarrow> trigger_record registry" where
  "make_trigger trigger_id workload rule created_at =
     (if trigger_id = [] \<or> workload = [] then raiseE RegistryValidationError
      else returnE \<lparr>tz_trigger_id = trigger_id, tz_workload = workload, tz_rule = rule, tz_created_at = created_at\<rparr>)"

text \<open>\<open>trigger_at i\<close> is the clock reading for the \<open>i\<close>-th rule.\<close>

definition sync_triggers :: "(nat \<Rightarrow> time) \<Rightarrow> agent_workload \<Rightarrow> tenant_context \<Rightarrow> unit registry" where
  "sync_triggers trigger_at m ctx =
     bindE (getE (\<lambda>st. store_list_triggers st ctx (workload_name m))) (\<lambda>old.
       thenE (forE old (\<lambda>r. bindE (store_delete_trigger (workload_name m) (tz_trigger_id r) ctx) (\<lambda>_. returnE ())))
         (forE (List.enumerate 1 (ws_triggers (aw_spec m))) (\<lambda>(index, rule).
            bindE (make_trigger (workload_name m @ ''-t'' @ nat_str index) (workload_name m) rule (trigger_at index))
              (\<lambda>t. store_add_trigger t ctx))))"

definition production_ready :: "time \<Rightarrow> agent_workload \<Rightarrow> bool" where
  "production_ready now m = (workload_certification_status m = CERTIFIED \<and>
     (case ws_certification (aw_spec m) of
        None \<Rightarrow> False
      | Some cert \<Rightarrow> truthy (cs_attestation_id cert) \<and>
          (case cs_expires_at cert of None \<Rightarrow> False | Some t \<Rightarrow> now < t)))"

definition enforcement_warnings :: "time \<Rightarrow> registry_store \<Rightarrow> tenant_context \<Rightarrow> agent_workload \<Rightarrow> string list" where
  "enforcement_warnings now st ctx m =
     (let spec = aw_spec m in
      (case ws_certification spec of
         None \<Rightarrow> [''no certification block; production admission is refused'']
       | Some _ \<Rightarrow>
           (if \<not> production_ready now m
            then [''certification status is '' @ certification_status_value (workload_certification_status m) @
              ''; production admission is refused'']
            else [])) @
      (if ts_allow (ws_tools spec) = [] \<and> ts_deny (ws_tools spec) = []
       then [''no tools declared; default is deny-all''] else []) @
      concat (map (\<lambda>entry. if store_get_tool st ctx (tr_tool_id entry) = None
        then [''tool '' @ py_repr (tr_tool_id entry) @ '' is not registered''] else []) (ts_allow (ws_tools spec))))"

definition registry_enforcement_summary ::
  "time \<Rightarrow> registry_store \<Rightarrow> tenant_context \<Rightarrow> agent_workload \<Rightarrow> enforcement_summary" where
  "registry_enforcement_summary now st ctx m =
     (let spec = aw_spec m in
      \<lparr>es_valid = True, es_name = workload_name m, es_owner = workload_owner m, es_team = workload_team m,
       es_runtime = rt_adapter (ws_runtime spec),
       es_certification_status = workload_certification_status m,
       es_production_admitted = production_ready now m,
       es_required_status_for_production = CERTIFIED,
       es_tools_allowed = map tr_tool_id (ts_allow (ws_tools spec)),
       es_tools_denied = ts_deny (ws_tools spec),
       es_approvals_required_for = as_required_for (ws_approvals spec),
       es_budget_per_run_usd = bs_per_run_usd (ws_budget spec),
       es_budget_per_day_usd = bs_per_day_usd (ws_budget spec),
       es_sandbox_enabled = (case ws_sandbox spec of None \<Rightarrow> False | Some s \<Rightarrow> sx_enabled s),
       es_output_shaping_enabled = (ws_output_shaping spec \<noteq> None),
       es_trigger_count = length (ws_triggers spec),
       es_fan_out_destinations = length (fo_on_completed (ws_fan_out spec)) +
         length (fo_on_failed (ws_fan_out spec)) + length (fo_on_escalation (ws_fan_out spec)),
       es_warnings = enforcement_warnings now st ctx m\<rparr>)"

definition registry_create ::
  "('sk, 'pk) registry_config \<Rightarrow> time \<Rightarrow> time \<Rightarrow> (nat \<Rightarrow> time) \<Rightarrow> agent_workload \<Rightarrow> bool \<Rightarrow> tenant_context \<Rightarrow>
   (workload_record + enforcement_summary) registry" where
  "registry_create cfg now signed_at trigger_at m dry_run ctx =
     (if dry_run then bindE (getE (\<lambda>st. registry_enforcement_summary now st ctx m)) (\<lambda>summary. returnE (Inr summary))
      else bindE (getE (\<lambda>st. get_workload st ctx (workload_name m))) (\<lambda>existing.
        if existing \<noteq> None then raiseE (WorkloadAlreadyExistsError (workload_name m))
        else thenE (validate_tools m ctx)
          (bindE (build_record cfg signed_at m 1 now (tc_tenant_id ctx) False) (\<lambda>r.
             thenE (save_workload r ctx)
             (thenE (add_version \<lparr>wv_workload = workload_name m, wv_version = 1, wv_manifest = m,
                wv_status = VERSION_ACTIVE, wv_created_at = now, wv_re_certification_required = False,
                wv_changed_fields = []\<rparr> ctx)
             (thenE (sync_triggers trigger_at m ctx) (returnE (Inl r))))))))"

definition with_status :: "agent_workload \<Rightarrow> certification_status \<Rightarrow> agent_workload" where
  "with_status m status = (case ws_certification (aw_spec m) of
       None \<Rightarrow> m
     | Some cert \<Rightarrow> m\<lparr>aw_spec := (aw_spec m)\<lparr>ws_certification := Some (cert\<lparr>cs_status := status\<rparr>)\<rparr>\<rparr>)"

definition artifact_changed :: "workload_record \<Rightarrow> workload_record \<Rightarrow> bool" where
  "artifact_changed existing updated =
     (wl_artifact_hash existing \<noteq> None \<and> wl_artifact_hash updated \<noteq> None \<and>
      wl_artifact_hash existing \<noteq> wl_artifact_hash updated)"

definition invalidate_for_production :: "workload_record \<Rightarrow> workload_record" where
  "invalidate_for_production r =
     (if wl_certification_status r \<notin> {CERTIFIED, PROVISIONAL} then r
      else r\<lparr>wl_certification_status := UNCERTIFIED,
        wl_manifest := with_status (wl_manifest r) UNCERTIFIED,
        wl_needs_re_certification := True\<rparr>)"

definition supersede :: "workload_version list \<Rightarrow> tenant_context \<Rightarrow> unit registry" where
  "supersede versions ctx = forE versions (\<lambda>v.
     whenE (wv_status v = VERSION_ACTIVE) (add_version (v\<lparr>wv_status := VERSION_SUPERSEDED\<rparr>) ctx))"

definition registry_update ::
  "('sk, 'pk) registry_config \<Rightarrow> time \<Rightarrow> time \<Rightarrow> (nat \<Rightarrow> time) \<Rightarrow> string \<Rightarrow> agent_workload \<Rightarrow> bool \<Rightarrow> tenant_context \<Rightarrow>
   (workload_record + enforcement_summary) registry" where
  "registry_update cfg now signed_at trigger_at name m dry_run ctx =
     bindE (registry_get name ctx) (\<lambda>existing.
       if dry_run then bindE (getE (\<lambda>st. registry_enforcement_summary now st ctx m)) (\<lambda>summary. returnE (Inr summary))
       else thenE (validate_tools m ctx)
         (let changes = changed_fields (wl_manifest existing) m;
              re_cert = requires_re_certification changes;
              new_version = wl_current_version existing + 1
          in bindE (getE (\<lambda>st. list_versions st ctx name)) (\<lambda>versions.
             thenE (supersede versions ctx)
             (thenE (add_version \<lparr>wv_workload = name, wv_version = new_version, wv_manifest = m,
                wv_status = VERSION_ACTIVE, wv_created_at = now, wv_re_certification_required = re_cert,
                wv_changed_fields = changes\<rparr> ctx)
             (bindE (build_record cfg signed_at m new_version (wl_created_at existing) (tc_tenant_id ctx) re_cert) (\<lambda>built.
                let r = built\<lparr>wl_updated_at := now\<rparr>;
                    r' = (if artifact_changed existing r then invalidate_for_production r else r)
                in thenE (save_workload r' ctx)
                   (thenE (sync_triggers trigger_at m ctx) (returnE (Inl r')))))))))"

subsection \<open>The fleet catalog\<close>

text \<open>Python slices \<open>xs[n:]\<close> and \<open>xs[:n]\<close>: a negative bound counts from the end.\<close>

definition slice_from :: "int \<Rightarrow> 'a list \<Rightarrow> 'a list" where
  "slice_from n xs = drop (nat (if n < 0 then int (length xs) + n else n)) xs"

definition slice_to :: "int \<Rightarrow> 'a list \<Rightarrow> 'a list" where
  "slice_to n xs = take (nat (if n < 0 then int (length xs) + n else n)) xs"

text \<open>\<open>list.sort(key, reverse)\<close>: stable in both directions.\<close>

definition py_sort :: "('a \<Rightarrow> 'k::linorder) \<Rightarrow> bool \<Rightarrow> 'a list \<Rightarrow> 'a list" where
  "py_sort key reverse xs = (if reverse then rev (sort_key key (rev xs)) else sort_key key xs)"

definition sort_records :: "string \<Rightarrow> bool \<Rightarrow> workload_record list \<Rightarrow> (registry_error + workload_record list)" where
  "sort_records field descending rs =
     (if field = ''name'' then Inr (py_sort wl_name descending rs)
      else if field = ''owner'' then Inr (py_sort wl_owner descending rs)
      else if field = ''team'' then Inr (py_sort (\<lambda>r. str_or (wl_team r) []) descending rs)
      else if field = ''certification_status''
        then Inr (py_sort (\<lambda>r. certification_status_value (wl_certification_status r)) descending rs)
      else if field = ''updated_at'' then Inr (py_sort wl_updated_at descending rs)
      else Inl (RegistryValueError (ValueError (''invalid sort field '' @ py_repr field @ ''; expected one of ['' @
        py_repr ''certification_status'' @ '', '' @ py_repr ''name'' @ '', '' @ py_repr ''owner'' @ '', '' @ py_repr ''team'' @ '', '' @
        py_repr ''updated_at'' @ '']''))))"

definition registry_list_workloads ::
  "string option \<Rightarrow> string option \<Rightarrow> runtime_adapter option \<Rightarrow> certification_status option \<Rightarrow> string \<Rightarrow> bool \<Rightarrow>
   int option \<Rightarrow> int \<Rightarrow> tenant_context \<Rightarrow> registry_store \<Rightarrow> registry_error + workload_record list" where
  "registry_list_workloads owner team runtime status field descending limit offset ctx st =
     (let rs = filter (\<lambda>r. (owner = None \<or> owner = Some (wl_owner r)) \<and> (team = None \<or> team = wl_team r) \<and>
            (runtime = None \<or> runtime = Some (wl_runtime r)) \<and>
            (status = None \<or> status = Some (wl_certification_status r))) (store_list_workloads st ctx)
      in case sort_records field descending rs of
           Inl e \<Rightarrow> Inl e
         | Inr ordered \<Rightarrow>
             (let page = (if offset \<noteq> 0 then slice_from offset ordered else ordered)
              in Inr (case limit of None \<Rightarrow> page | Some n \<Rightarrow> slice_to n page)))"

definition registry_delete :: "string \<Rightarrow> tenant_context \<Rightarrow> unit registry" where
  "registry_delete name ctx = bindE (delete_workload name ctx) (\<lambda>deleted.
     whenE (\<not> deleted) (raiseE (WorkloadNotFoundError name)))"

subsection \<open>Versions\<close>

definition registry_versions :: "string \<Rightarrow> tenant_context \<Rightarrow> workload_version list registry" where
  "registry_versions name ctx = bindE (registry_get name ctx) (\<lambda>_. getE (\<lambda>st. list_versions st ctx name))"

definition version_or_raise :: "string \<Rightarrow> int \<Rightarrow> tenant_context \<Rightarrow> workload_version registry" where
  "version_or_raise name version ctx = bindE (getE (\<lambda>st. store_get_version st ctx name version)) (\<lambda>v.
     case v of None \<Rightarrow> raiseE (VersionNotFoundError name version) | Some x \<Rightarrow> returnE x)"

definition registry_get_version :: "string \<Rightarrow> int \<Rightarrow> tenant_context \<Rightarrow> workload_version registry" where
  "registry_get_version name version ctx = bindE (registry_get name ctx) (\<lambda>_. version_or_raise name version ctx)"

definition registry_version_diff :: "string \<Rightarrow> int \<Rightarrow> int \<Rightarrow> tenant_context \<Rightarrow> version_diff registry" where
  "registry_version_diff name from_version to_version ctx =
     bindE (registry_get name ctx) (\<lambda>_.
     bindE (version_or_raise name from_version ctx) (\<lambda>before.
     bindE (version_or_raise name to_version ctx) (\<lambda>after.
       let changes = changed_fields (wv_manifest before) (wv_manifest after)
       in returnE \<lparr>vd_workload = name, vd_from_version = from_version, vd_to_version = to_version,
            vd_changed_fields = changes, vd_re_certification_required = requires_re_certification changes\<rparr>)))"

definition registry_promote :: "time \<Rightarrow> string \<Rightarrow> int \<Rightarrow> tenant_context \<Rightarrow> workload_record registry" where
  "registry_promote now name version ctx =
     bindE (registry_get name ctx) (\<lambda>r.
     bindE (version_or_raise name version ctx) (\<lambda>target.
       if wv_re_certification_required target \<and> wl_needs_re_certification r
       then raiseE (ReCertificationRequiredError name (wv_changed_fields target))
       else (let updated = r\<lparr>wl_needs_re_certification := False, wl_current_version := version, wl_updated_at := now\<rparr>
             in thenE (save_workload updated ctx) (returnE updated))))"

subsection \<open>Certification\<close>

text \<open>The record of a workload rewritten by \<open>f\<close> and saved: the common end of the lifecycle methods.\<close>

definition resave :: "workload_record \<Rightarrow> tenant_context \<Rightarrow> workload_record registry" where
  "resave r ctx = thenE (save_workload r ctx) (returnE r)"

definition record_certification_event :: "time \<Rightarrow> string \<Rightarrow> certification_event \<Rightarrow> tenant_context \<Rightarrow> workload_record registry" where
  "record_certification_event now name event ctx =
     bindE (registry_get name ctx) (\<lambda>r.
       case advance_status (wl_certification_status r) event of
         Inl e \<Rightarrow> raiseE (RegistryValueError e)
       | Inr status \<Rightarrow> resave (r\<lparr>wl_certification_status := status,
           wl_manifest := with_status (wl_manifest r) status,
           wl_needs_re_certification := (if status \<in> {PROVISIONAL, CERTIFIED} then False else wl_needs_re_certification r),
           wl_production_runs_survived := survival_after_transition (wl_production_runs_survived r) status,
           wl_updated_at := now\<rparr>) ctx)"

definition increment_production_runs :: "string \<Rightarrow> tenant_context \<Rightarrow> workload_record registry" where
  "increment_production_runs name ctx = bindE (registry_get name ctx) (\<lambda>r.
     resave (r\<lparr>wl_production_runs_survived := wl_production_runs_survived r + 1\<rparr>) ctx)"

definition request_re_certification :: "time \<Rightarrow> string \<Rightarrow> tenant_context \<Rightarrow> workload_record registry" where
  "request_re_certification now name ctx = bindE (registry_get name ctx) (\<lambda>r.
     resave (r\<lparr>wl_needs_re_certification := True, wl_updated_at := now\<rparr>) ctx)"

definition registry_quarantine :: "time \<Rightarrow> string \<Rightarrow> tenant_context \<Rightarrow> workload_record registry" where
  "registry_quarantine now name ctx = bindE (registry_get name ctx) (\<lambda>r.
     resave (r\<lparr>wl_certification_status := QUARANTINED, wl_manifest := with_status (wl_manifest r) QUARANTINED,
       wl_updated_at := now\<rparr>) ctx)"

definition registry_artifact_hash :: "('sk, 'pk) registry_config \<Rightarrow> string \<Rightarrow> tenant_context \<Rightarrow> string registry" where
  "registry_artifact_hash cfg name ctx = bindE (registry_get name ctx) (\<lambda>r.
     returnE (case wl_artifact_hash r of
         Some h \<Rightarrow> h
       | None \<Rightarrow> ab_artifact_hash (compute_binding (rg_crypto cfg) (wl_manifest r) None)))"

definition mark_uncertified_for_production :: "time \<Rightarrow> string \<Rightarrow> tenant_context \<Rightarrow> workload_record registry" where
  "mark_uncertified_for_production now name ctx = bindE (registry_get name ctx) (\<lambda>r.
     if wl_certification_status r = UNCERTIFIED then returnE r
     else resave (r\<lparr>wl_certification_status := UNCERTIFIED, wl_manifest := with_status (wl_manifest r) UNCERTIFIED,
       wl_needs_re_certification := True, wl_updated_at := now\<rparr>) ctx)"

definition apply_attestation ::
  "time \<Rightarrow> attestation \<Rightarrow> certification_event option \<Rightarrow> certification_status option \<Rightarrow> time option \<Rightarrow> tenant_context \<Rightarrow>
   workload_record registry" where
  "apply_attestation now a event status expires_at ctx =
     bindE (registry_get (at_workload_id a) ctx) (\<lambda>r.
     bindE (case status of
          Some s \<Rightarrow> returnE s
        | None \<Rightarrow> (case event of
            None \<Rightarrow> raiseE (RegistryValueError (ValueError ''apply_attestation requires an event or a status''))
          | Some ev \<Rightarrow> (case advance_status (wl_certification_status r) ev of
              Inl e \<Rightarrow> raiseE (RegistryValueError e)
            | Inr s \<Rightarrow> returnE s))) (\<lambda>new_status.
       case ws_certification (aw_spec (wl_manifest r)) of
         None \<Rightarrow> raiseE (RegistryValueError (ValueError (''workload '' @ py_repr (at_workload_id a) @ '' has no certification block'')))
       | Some cert \<Rightarrow>
           (let cert' = cert\<lparr>cs_status := new_status, cs_attestation_id := Some (at_attestation_id a),
                  cs_certified_at := Some (at_timestamp a), cs_certified_by := Some (sg_identity (at_signer a)),
                  cs_expires_at := expires_at\<rparr>;
                m = (wl_manifest r)\<lparr>aw_spec := (aw_spec (wl_manifest r))\<lparr>ws_certification := Some cert'\<rparr>\<rparr>;
                survival = (if new_status = wl_certification_status r then wl_production_runs_survived r
                  else survival_after_transition (wl_production_runs_survived r) new_status)
            in resave (r\<lparr>wl_certification_status := new_status, wl_manifest := m,
                 wl_needs_re_certification := (if new_status \<in> {PROVISIONAL, CERTIFIED} then False else wl_needs_re_certification r),
                 wl_production_runs_survived := survival, wl_updated_at := now\<rparr>) ctx)))"

subsection \<open>Admission\<close>

definition has_valid_bundle :: "('sk, 'pk) registry_config \<Rightarrow> workload_record \<Rightarrow> bool" where
  "has_valid_bundle cfg r = (case rg_bundle_signing_key cfg of
       None \<Rightarrow> True
     | Some _ \<Rightarrow> (case wl_bundle r of
         None \<Rightarrow> False
       | Some b \<Rightarrow> (case resolve_key cfg (wb_key_id b) of
           None \<Rightarrow> False
         | Some key \<Rightarrow> verify_bundle (rg_crypto cfg) b (wl_manifest r) key None)))"

text \<open>The attestation is read in the default tenant's context.\<close>

definition has_valid_attestation ::
  "('sk, 'pk) registry_config \<Rightarrow> time \<Rightarrow> registry_store \<Rightarrow> workload_record \<Rightarrow> target_context option \<Rightarrow> bool" where
  "has_valid_attestation cfg now st r target = (case ws_certification (aw_spec (wl_manifest r)) of
       None \<Rightarrow> False
     | Some cert \<Rightarrow> (case cs_expires_at cert of
         None \<Rightarrow> False
       | Some t \<Rightarrow>
           if t \<le> now then False
           else if (rg_public_key cfg = None \<and> rg_key_resolver cfg = None) \<or> \<not> truthy (cs_attestation_id cert) then False
           else (case store_get_attestation st DEFAULT_CONTEXT (the (cs_attestation_id cert)) of
               None \<Rightarrow> False
             | Some a \<Rightarrow>
                 if at_workload_id a \<noteq> wl_name r then False
                 else if target \<noteq> None \<and> target \<noteq> Some (at_target_context a) then False
                 else (case resolve_key cfg (sg_key_id (at_signer a)) of
                     None \<Rightarrow> False
                   | Some key \<Rightarrow> verify_attestation (rg_crypto cfg) a key))))"

definition admission_verdict ::
  "('sk, 'pk) registry_config \<Rightarrow> time \<Rightarrow> registry_store \<Rightarrow> workload_record \<Rightarrow> admission_context \<Rightarrow> bool" where
  "admission_verdict cfg now st r context = (case context of
       SANDBOX \<Rightarrow> True
     | STAGING \<Rightarrow> wl_certification_status r \<in> {PROVISIONAL, CERTIFIED}
     | PRODUCTION \<Rightarrow>
         (if wl_certification_status r = CERTIFIED
          then \<not> wl_needs_re_certification r \<and> has_valid_attestation cfg now st r None \<and> has_valid_bundle cfg r
          else if wl_certification_status r = PROVISIONAL
          then \<not> wl_needs_re_certification r \<and> has_valid_attestation cfg now st r (Some TARGET_PRODUCTION) \<and>
            has_valid_bundle cfg r
          else False))"

definition check_admission ::
  "('sk, 'pk) registry_config \<Rightarrow> time \<Rightarrow> string \<Rightarrow> admission_context \<Rightarrow> tenant_context \<Rightarrow> cert_admission_decision registry" where
  "check_admission cfg now name context ctx =
     bindE (registry_get name ctx) (\<lambda>r.
     bindE (getE (\<lambda>st. admission_verdict cfg now st r context)) (\<lambda>admitted.
       let status = wl_certification_status r;
           required = (if context = STAGING then PROVISIONAL else CERTIFIED)
       in if context = SANDBOX
          then returnE \<lparr>cd_workload = name, cd_context = context, cd_admitted = True, cd_required_status = None,
            cd_actual_status = status, cd_reason = None\<rparr>
          else returnE \<lparr>cd_workload = name, cd_context = context, cd_admitted = admitted,
            cd_required_status = Some required, cd_actual_status = status,
            cd_reason = (if admitted then None
              else Some (''certification status '' @ py_repr (certification_status_value status) @ '' is insufficient for '' @
                admission_context_value context @ ''; requires '' @ py_repr (certification_status_value required)))\<rparr>))"

definition require_admission ::
  "('sk, 'pk) registry_config \<Rightarrow> time \<Rightarrow> string \<Rightarrow> admission_context \<Rightarrow> tenant_context \<Rightarrow> cert_admission_decision registry" where
  "require_admission cfg now name context ctx = bindE (check_admission cfg now name context ctx) (\<lambda>d.
     if \<not> cd_admitted d
     then raiseE (AdmissionRefusedError name (admission_context_value context)
       (case cd_required_status d of None \<Rightarrow> CERTIFIED | Some s \<Rightarrow> s) (cd_actual_status d))
     else returnE d)"

subsection \<open>Attestations\<close>

definition verifies :: "('sk, 'pk) registry_config \<Rightarrow> attestation \<Rightarrow> bool" where
  "verifies cfg a = (case resolve_key cfg (sg_key_id (at_signer a)) of
       None \<Rightarrow> False
     | Some key \<Rightarrow> verify_attestation (rg_crypto cfg) a key)"

definition store_attestation :: "attestation \<Rightarrow> tenant_context \<Rightarrow> attestation registry" where
  "store_attestation a ctx = bindE (getE (\<lambda>st. store_get_attestation st ctx (at_attestation_id a))) (\<lambda>existing.
     if existing \<noteq> None then raiseE (AttestationAlreadyExistsError (at_attestation_id a))
     else thenE (add_attestation a ctx) (returnE a))"

definition registry_get_attestation :: "('sk, 'pk) registry_config \<Rightarrow> string \<Rightarrow> tenant_context \<Rightarrow> attestation registry" where
  "registry_get_attestation cfg attestation_id ctx =
     bindE (getE (\<lambda>st. store_get_attestation st ctx attestation_id)) (\<lambda>a.
       case a of
         None \<Rightarrow> raiseE (AttestationNotFoundError attestation_id)
       | Some x \<Rightarrow> if \<not> verifies cfg x then raiseE (AttestationVerificationError attestation_id) else returnE x)"

definition find_attestation :: "registry_store \<Rightarrow> tenant_context \<Rightarrow> string \<Rightarrow> attestation option" where
  "find_attestation st ctx attestation_id = store_get_attestation st ctx attestation_id"

definition registry_list_attestations :: "('sk, 'pk) registry_config \<Rightarrow> string \<Rightarrow> tenant_context \<Rightarrow> attestation list registry" where
  "registry_list_attestations cfg name ctx = bindE (registry_get name ctx) (\<lambda>_.
     bindE (getE (\<lambda>st. store_list_attestations st ctx name)) (\<lambda>as.
       thenE (forE as (\<lambda>a. whenE (\<not> verifies cfg a) (raiseE (AttestationVerificationError (at_attestation_id a)))))
         (returnE as)))"

subsection \<open>Tools and triggers\<close>

definition register_tool :: "tool_record \<Rightarrow> tenant_context \<Rightarrow> tool_record registry" where
  "register_tool t ctx = bindE (getE (\<lambda>st. store_get_tool st ctx (tl_tool_id t))) (\<lambda>existing.
     if existing \<noteq> None then raiseE (ToolAlreadyExistsError (tl_tool_id t))
     else thenE (save_tool t ctx) (returnE t))"

definition registry_get_tool :: "string \<Rightarrow> tenant_context \<Rightarrow> tool_record registry" where
  "registry_get_tool tool_id ctx = bindE (getE (\<lambda>st. store_get_tool st ctx tool_id)) (\<lambda>t.
     case t of None \<Rightarrow> raiseE (UnknownToolError tool_id) | Some x \<Rightarrow> returnE x)"

definition registry_list_tools ::
  "registry_store \<Rightarrow> tool_trust_level option \<Rightarrow> string option \<Rightarrow> tenant_context \<Rightarrow> tool_record list" where
  "registry_list_tools st trust_level mcp ctx = filter (\<lambda>t. (trust_level = None \<or> trust_level = Some (tl_trust_level t)) \<and>
     (mcp = None \<or> mcp = Some (tl_mcp_server t))) (store_list_tools st ctx)"

definition registry_list_triggers :: "string \<Rightarrow> tenant_context \<Rightarrow> trigger_record list registry" where
  "registry_list_triggers name ctx = bindE (registry_get name ctx) (\<lambda>_. getE (\<lambda>st. store_list_triggers st ctx name))"

definition next_trigger_id :: "registry_store \<Rightarrow> string \<Rightarrow> tenant_context \<Rightarrow> string" where
  "next_trigger_id st name ctx = name @ ''-t'' @ nat_str (length (store_list_triggers st ctx name) + 1)"

definition registry_add_trigger :: "time \<Rightarrow> string \<Rightarrow> trigger_rule \<Rightarrow> tenant_context \<Rightarrow> trigger_record registry" where
  "registry_add_trigger now name rule ctx =
     bindE (registry_get name ctx) (\<lambda>_.
     bindE (getE (\<lambda>st. next_trigger_id st name ctx)) (\<lambda>trigger_id.
     bindE (make_trigger trigger_id name rule now) (\<lambda>t.
       thenE (store_add_trigger t ctx) (returnE t))))"

definition registry_delete_trigger :: "string \<Rightarrow> string \<Rightarrow> tenant_context \<Rightarrow> unit registry" where
  "registry_delete_trigger name trigger_id ctx =
     bindE (registry_get name ctx) (\<lambda>_.
     bindE (store_delete_trigger name trigger_id ctx) (\<lambda>deleted.
       whenE (\<not> deleted) (raiseE (WorkloadNotFoundError (name @ ''/triggers/'' @ trigger_id)))))"

section \<open>Weakest preconditions of the store operations\<close>

lemma requireR_wp [wps]:
  "wp (requireR ctx t) Q E st =
     (if scopes ctx t then Q () st
      else E (RegistryScopeError (TenantScopeError (tc_tenant_id ctx) (''cannot access tenant '' @ py_repr t))) st)"
  by (simp add: requireR_def require_def wps)

lemma parent_wp [wps]:
  "wp (parent w ctx) Q E st = (case dict_get (rs_workloads st) w of
       None \<Rightarrow> E (WorkloadNotFoundError w) st
     | Some r \<Rightarrow> if scopes ctx (wl_tenant_id r) then Q r st
         else E (RegistryScopeError (TenantScopeError (tc_tenant_id ctx) (''cannot access tenant '' @ py_repr (wl_tenant_id r)))) st)"
  by (simp add: parent_def wps split: option.splits)

lemma registry_get_wp [wps]:
  "wp (registry_get name ctx) Q E st = (case get_workload st ctx name of
       None \<Rightarrow> E (WorkloadNotFoundError name) st
     | Some r \<Rightarrow> Q r st)"
  by (simp add: registry_get_def wps split: option.splits)

lemma version_or_raise_wp [wps]:
  "wp (version_or_raise name v ctx) Q E st = (case store_get_version st ctx name v of
       None \<Rightarrow> E (VersionNotFoundError name v) st
     | Some x \<Rightarrow> Q x st)"
  by (simp add: version_or_raise_def wps split: option.splits)

lemma get_workload_Some:
  "get_workload st ctx name = Some r \<longleftrightarrow> dict_get (rs_workloads st) name = Some r \<and> scopes ctx (wl_tenant_id r)"
  by (auto simp: get_workload_def split: option.splits)

definition put_record :: "workload_record \<Rightarrow> registry_store \<Rightarrow> registry_store" where
  "put_record r st = st\<lparr>rs_workloads := dict_put (wl_name r) r (rs_workloads st)\<rparr>"

definition put_version :: "workload_version \<Rightarrow> registry_store \<Rightarrow> registry_store" where
  "put_version v st = st\<lparr>rs_versions := dict_put (wv_workload v)
     (dict_put (wv_version v) v (dict_get_default (rs_versions st) (wv_workload v) [])) (rs_versions st)\<rparr>"

definition put_trigger :: "trigger_record \<Rightarrow> registry_store \<Rightarrow> registry_store" where
  "put_trigger t st = st\<lparr>rs_triggers := dict_put (tz_workload t)
     (dict_put (tz_trigger_id t) t (dict_get_default (rs_triggers st) (tz_workload t) [])) (rs_triggers st)\<rparr>"

definition pop_trigger :: "string \<Rightarrow> string \<Rightarrow> registry_store \<Rightarrow> registry_store" where
  "pop_trigger w i st = st\<lparr>rs_triggers := dict_put w (dict_pop i (dict_get_default (rs_triggers st) w [])) (rs_triggers st)\<rparr>"

definition save_allowed :: "workload_record \<Rightarrow> tenant_context \<Rightarrow> registry_store \<Rightarrow> bool" where
  "save_allowed r ctx st = (scopes ctx (wl_tenant_id r) \<and>
     (case dict_get (rs_workloads st) (wl_name r) of None \<Rightarrow> True | Some e \<Rightarrow> scopes ctx (wl_tenant_id e)))"

lemma save_workload_wp:
  assumes "save_allowed r ctx st \<Longrightarrow> Q () (put_record r st)" "\<And>e. E e st"
  shows "wp (save_workload r ctx) Q E st"
  using assms by (auto simp: save_workload_def wps save_allowed_def put_record_def split: option.splits)

lemma add_version_wp:
  assumes "\<And>r. get_workload st ctx (wv_workload v) = Some r \<Longrightarrow> Q () (put_version v st)" "\<And>e. E e st"
  shows "wp (add_version v ctx) Q E st"
  using assms by (auto simp: add_version_def wps put_version_def get_workload_Some split: option.splits)

lemma store_add_trigger_wp:
  assumes "\<And>r. get_workload st ctx (tz_workload t) = Some r \<Longrightarrow> Q () (put_trigger t st)" "\<And>e. E e st"
  shows "wp (store_add_trigger t ctx) Q E st"
  using assms by (auto simp: store_add_trigger_def wps put_trigger_def get_workload_Some split: option.splits)

lemma store_delete_trigger_wp:
  assumes "\<And>r t. get_workload st ctx w = Some r \<Longrightarrow> Q True (pop_trigger w i st)" "Q False st"
  shows "wp (store_delete_trigger w i ctx) Q E st"
  using assms by (auto simp: store_delete_trigger_def wps pop_trigger_def split: option.splits)

section \<open>Tenants do not see each other's writes\<close>

text \<open>Everything stored under a workload outside the acting context's scope is left as it was.\<close>

definition foreign_kept :: "tenant_context \<Rightarrow> registry_store \<Rightarrow> registry_store \<Rightarrow> bool" where
  "foreign_kept ctx st st' = (\<forall>name r. dict_get (rs_workloads st) name = Some r \<and> \<not> scopes ctx (wl_tenant_id r) \<longrightarrow>
     dict_get (rs_workloads st') name = Some r \<and> dict_get (rs_versions st') name = dict_get (rs_versions st) name \<and>
     dict_get (rs_triggers st') name = dict_get (rs_triggers st) name)"

lemma foreign_refl [simp]: "reflp (foreign_kept ctx)"
  by (simp add: reflp_def foreign_kept_def)

lemma foreign_trans [simp]: "transp (foreign_kept ctx)"
proof (rule transpI)
  fix x y z
  assume a: "foreign_kept ctx x y" and b: "foreign_kept ctx y z"
  show "foreign_kept ctx x z"
    unfolding foreign_kept_def
  proof (intro allI impI)
    fix name r
    assume r: "dict_get (rs_workloads x) name = Some r \<and> \<not> scopes ctx (wl_tenant_id r)"
    note y = a [unfolded foreign_kept_def, rule_format, OF r]
    with r have "dict_get (rs_workloads y) name = Some r \<and> \<not> scopes ctx (wl_tenant_id r)" by blast
    note z = b [unfolded foreign_kept_def, rule_format, OF this]
    show "dict_get (rs_workloads z) name = Some r \<and> dict_get (rs_versions z) name = dict_get (rs_versions x) name \<and>
        dict_get (rs_triggers z) name = dict_get (rs_triggers x) name"
      using y z by simp
  qed
qed

lemmas foreign_rules = steps_bind [OF foreign_trans] steps_then [OF foreign_trans] steps_when [OF foreign_refl]
  steps_for [OF foreign_refl foreign_trans] steps_return [OF foreign_refl] steps_raise [OF foreign_refl]
  steps_get [OF foreign_refl] steps_if steps_option

lemma foreign_save: "steps (foreign_kept ctx) (save_workload r ctx)"
  by (rule steps_wpI, rule save_workload_wp)
    (auto simp: foreign_kept_def put_record_def save_allowed_def split: option.splits)

lemma foreign_add_version: "steps (foreign_kept ctx) (add_version v ctx)"
  by (rule steps_wpI, rule add_version_wp) (auto simp: foreign_kept_def put_version_def get_workload_Some)

lemma foreign_add_trigger: "steps (foreign_kept ctx) (store_add_trigger t ctx)"
  by (rule steps_wpI, rule store_add_trigger_wp) (auto simp: foreign_kept_def put_trigger_def get_workload_Some)

lemma foreign_delete_trigger: "steps (foreign_kept ctx) (store_delete_trigger w i ctx)"
  by (rule steps_wpI, rule store_delete_trigger_wp) (auto simp: foreign_kept_def pop_trigger_def get_workload_Some)

lemma foreign_delete: "steps (foreign_kept ctx) (delete_workload name ctx)"
  by (rule steps_wpI) (auto simp: delete_workload_def wps foreign_kept_def get_workload_Some split: option.splits)

lemma foreign_get: "steps (foreign_kept ctx) (registry_get name ctx)"
  by (rule steps_wpI) (auto simp: wps foreign_kept_def split: option.splits)

lemma foreign_version: "steps (foreign_kept ctx) (version_or_raise name v ctx)"
  by (rule steps_wpI) (auto simp: wps foreign_kept_def split: option.splits)

lemma foreign_add_attestation: "steps (foreign_kept ctx) (add_attestation a ctx)"
  by (rule steps_wpI) (auto simp: add_attestation_def wps foreign_kept_def split: option.splits)

lemma foreign_save_tool: "steps (foreign_kept ctx) (save_tool t ctx)"
  by (rule steps_wpI) (auto simp: save_tool_def wps foreign_kept_def)

lemmas foreign_calls = foreign_save foreign_add_version foreign_add_trigger foreign_delete_trigger foreign_delete
  foreign_get foreign_version foreign_add_attestation foreign_save_tool

lemma foreign_validate: "steps (foreign_kept ctx) (validate_tools m ctx)"
  unfolding validate_tools_def by (intro foreign_rules)

lemma foreign_sync: "steps (foreign_kept ctx) (sync_triggers ta m ctx)"
  unfolding sync_triggers_def make_trigger_def case_prod_beta by (intro foreign_rules foreign_calls)

lemma foreign_create: "steps (foreign_kept ctx) (registry_create cfg now sa ta m dry ctx)"
  unfolding registry_create_def build_record_def by (intro foreign_rules foreign_calls foreign_validate foreign_sync)

lemma foreign_update: "steps (foreign_kept ctx) (registry_update cfg now sa ta name m dry ctx)"
  unfolding registry_update_def build_record_def supersede_def Let_def
  by (intro foreign_rules foreign_calls foreign_validate foreign_sync)

lemma foreign_registry_delete: "steps (foreign_kept ctx) (registry_delete name ctx)"
  unfolding registry_delete_def by (intro foreign_rules foreign_calls)

lemma foreign_promote: "steps (foreign_kept ctx) (registry_promote now name v ctx)"
  unfolding registry_promote_def Let_def by (intro foreign_rules foreign_calls)

lemma foreign_resave: "steps (foreign_kept ctx) (resave r ctx)"
  unfolding resave_def by (intro foreign_rules foreign_calls)

lemma foreign_lifecycle:
  "steps (foreign_kept ctx) (record_certification_event now name ev ctx)"
  "steps (foreign_kept ctx) (increment_production_runs name ctx)"
  "steps (foreign_kept ctx) (request_re_certification now name ctx)"
  "steps (foreign_kept ctx) (registry_quarantine now name ctx)"
  "steps (foreign_kept ctx) (mark_uncertified_for_production now name ctx)"
  "steps (foreign_kept ctx) (apply_attestation now a evo sto ex ctx)"
  unfolding record_certification_event_def increment_production_runs_def request_re_certification_def
    registry_quarantine_def mark_uncertified_for_production_def apply_attestation_def Let_def
  by (intro foreign_rules foreign_calls foreign_resave steps_sum)+

lemma foreign_store_attestation: "steps (foreign_kept ctx) (store_attestation a ctx)"
  unfolding store_attestation_def by (intro foreign_rules foreign_calls)

lemma foreign_register_tool: "steps (foreign_kept ctx) (register_tool t ctx)"
  unfolding register_tool_def by (intro foreign_rules foreign_calls)

lemma foreign_triggers:
  "steps (foreign_kept ctx) (registry_add_trigger now name rule ctx)"
  "steps (foreign_kept ctx) (registry_delete_trigger name i ctx)"
  unfolding registry_add_trigger_def registry_delete_trigger_def make_trigger_def
  by (intro foreign_rules foreign_calls)+

text \<open>One call of a state-changing method of the service, whether it returns or raises.\<close>

inductive registry_step :: "('sk, 'pk) registry_config \<Rightarrow> tenant_context \<Rightarrow> registry_store \<Rightarrow> registry_store \<Rightarrow> bool" for cfg where
  create: "registry_create cfg now sa ta m dry ctx st = (x, st') \<Longrightarrow> registry_step cfg ctx st st'"
| update: "registry_update cfg now sa ta name m dry ctx st = (x, st') \<Longrightarrow> registry_step cfg ctx st st'"
| delete: "registry_delete name ctx st = (u, st') \<Longrightarrow> registry_step cfg ctx st st'"
| promote: "registry_promote now name v ctx st = (y, st') \<Longrightarrow> registry_step cfg ctx st st'"
| event: "record_certification_event now name ev ctx st = (y, st') \<Longrightarrow> registry_step cfg ctx st st'"
| survived: "increment_production_runs name ctx st = (y, st') \<Longrightarrow> registry_step cfg ctx st st'"
| recertify: "request_re_certification now name ctx st = (y, st') \<Longrightarrow> registry_step cfg ctx st st'"
| quarantine: "registry_quarantine now name ctx st = (y, st') \<Longrightarrow> registry_step cfg ctx st st'"
| uncertify: "mark_uncertified_for_production now name ctx st = (y, st') \<Longrightarrow> registry_step cfg ctx st st'"
| attest: "apply_attestation now a evo sto ex ctx st = (y, st') \<Longrightarrow> registry_step cfg ctx st st'"
| store: "store_attestation a ctx st = (z, st') \<Longrightarrow> registry_step cfg ctx st st'"
| tool: "register_tool t ctx st = (w, st') \<Longrightarrow> registry_step cfg ctx st st'"
| trigger: "registry_add_trigger now name rule ctx st = (q, st') \<Longrightarrow> registry_step cfg ctx st st'"
| untrigger: "registry_delete_trigger name i ctx st = (u, st') \<Longrightarrow> registry_step cfg ctx st st'"

lemma registry_step_foreign: "registry_step cfg ctx st st' \<Longrightarrow> foreign_kept ctx st st'"
  by (cases rule: registry_step.cases, assumption)
    (erule stepsD [rotated], rule foreign_create foreign_update foreign_registry_delete foreign_promote
       foreign_lifecycle foreign_store_attestation foreign_register_tool foreign_triggers)+

inductive registry_history :: "('sk, 'pk) registry_config \<Rightarrow> tenant_context list \<Rightarrow> registry_store \<Rightarrow> registry_store \<Rightarrow> bool" for cfg where
  none: "registry_history cfg [] st st"
| call: "registry_history cfg ctxs st st' \<Longrightarrow> registry_step cfg ctx st' st'' \<Longrightarrow> registry_history cfg (ctxs @ [ctx]) st st''"

lemma foreign_kept_lookup:
  assumes "foreign_kept ctx st st'" "dict_get (rs_workloads st) name = Some r" "\<not> scopes ctx (wl_tenant_id r)"
  shows "dict_get (rs_workloads st') name = Some r" "dict_get (rs_versions st') name = dict_get (rs_versions st) name"
    "dict_get (rs_triggers st') name = dict_get (rs_triggers st) name"
  using assms(1) [unfolded foreign_kept_def, rule_format, OF conjI [OF assms(2,3)]] by simp_all

lemma history_foreign:
  assumes "registry_history cfg ctxs st st'" "dict_get (rs_workloads st) name = Some r"
    and "\<forall>ctx \<in> set ctxs. \<not> scopes ctx (wl_tenant_id r)"
  shows "dict_get (rs_workloads st') name = Some r \<and> dict_get (rs_versions st') name = dict_get (rs_versions st) name \<and>
    dict_get (rs_triggers st') name = dict_get (rs_triggers st) name"
  using assms
proof (induction rule: registry_history.induct)
  case (none st)
  then show ?case by simp
next
  case (call ctxs st st' ctx st'')
  have ih: "dict_get (rs_workloads st') name = Some r" "dict_get (rs_versions st') name = dict_get (rs_versions st) name"
    "dict_get (rs_triggers st') name = dict_get (rs_triggers st) name"
    using call.IH call.prems by simp_all
  have "\<not> scopes ctx (wl_tenant_id r)" using call.prems by simp
  note k = foreign_kept_lookup [OF registry_step_foreign [OF call.hyps(2)] ih(1) this]
  show ?case by (simp only: k ih)
qed

section \<open>Well-formed stores\<close>

definition record_typed :: "workload_record \<Rightarrow> bool" where
  "record_typed r = (1 \<le> wl_current_version r \<and> 0 \<le> wl_production_runs_survived r \<and> 0 \<le> wl_failure_count r \<and>
     wl_tenant_id r \<noteq> [] \<and> length (wl_tenant_id r) \<le> 64)"

definition versions_typed :: "string \<Rightarrow> (int, workload_version) dict \<Rightarrow> bool" where
  "versions_typed w vs = (dict_ok vs \<and> dict_all (\<lambda>n v. wv_workload v = w \<and> wv_version v = n \<and> 1 \<le> n) vs)"

definition triggers_typed :: "string \<Rightarrow> (string, trigger_record) dict \<Rightarrow> bool" where
  "triggers_typed w ts = (dict_ok ts \<and> dict_all (\<lambda>i t. tz_workload t = w \<and> tz_trigger_id t = i \<and> i \<noteq> []) ts)"

definition workloads_typed :: "(string, workload_record) dict \<Rightarrow> bool" where
  "workloads_typed ws = (dict_ok ws \<and> dict_all (\<lambda>name r. wl_name r = name \<and> record_typed r) ws)"

definition children_typed :: "(string, workload_record) dict \<Rightarrow> (string \<Rightarrow> 'c \<Rightarrow> bool) \<Rightarrow> (string, 'c) dict \<Rightarrow> bool" where
  "children_typed ws typed cs = (dict_ok cs \<and> dict_all (\<lambda>name c. dict_get ws name \<noteq> None \<and> typed name c) cs)"

definition attestations_typed :: "(string, attestation) dict \<Rightarrow> (string, string) dict \<Rightarrow> bool" where
  "attestations_typed as ts = (dict_ok as \<and> dict_ok ts \<and> set (dict_keys as) = set (dict_keys ts) \<and>
     dict_all (\<lambda>i a. at_attestation_id a = i) as)"

definition tools_typed :: "(string, tool_record) dict \<Rightarrow> bool" where
  "tools_typed ts = (dict_ok ts \<and> dict_all (\<lambda>i t. tl_tool_id t = i) ts)"

definition registry_typed :: "registry_store \<Rightarrow> bool" where
  "registry_typed st = (workloads_typed (rs_workloads st) \<and>
     children_typed (rs_workloads st) versions_typed (rs_versions st) \<and>
     children_typed (rs_workloads st) triggers_typed (rs_triggers st) \<and>
     attestations_typed (rs_attestations st) (rs_attestation_tenants st) \<and> tools_typed (rs_tools st))"

lemma registry_typed_new: "registry_typed new_registry_store"
  by (simp add: registry_typed_def new_registry_store_def workloads_typed_def children_typed_def
      attestations_typed_def tools_typed_def)

lemma typed_record:
  assumes "registry_typed st" "get_workload st ctx name = Some r"
  shows "wl_name r = name \<and> record_typed r"
proof -
  have "dict_all (\<lambda>name r. wl_name r = name \<and> record_typed r) (rs_workloads st)"
    using assms(1) by (simp add: registry_typed_def workloads_typed_def)
  from dict_allD [OF this, of name r] show ?thesis using assms(2) by (simp add: get_workload_Some)
qed

lemma workloads_typed_put: "workloads_typed ws \<Longrightarrow> record_typed r \<Longrightarrow> workloads_typed (dict_put (wl_name r) r ws)"
  by (simp add: workloads_typed_def)

lemma children_typed_put_record:
  assumes "children_typed ws typed cs"
  shows "children_typed (dict_put n r ws) typed cs"
proof -
  have "dict_all (\<lambda>name c. dict_get ws name \<noteq> None \<and> typed name c) cs" using assms by (simp add: children_typed_def)
  then have "dict_all (\<lambda>name c. dict_get (dict_put n r ws) name \<noteq> None \<and> typed name c) cs"
    by (rule dict_all_mono) simp
  then show ?thesis using assms by (simp add: children_typed_def)
qed

lemma typed_put_record: "registry_typed st \<Longrightarrow> record_typed r \<Longrightarrow> registry_typed (put_record r st)"
  by (simp add: registry_typed_def put_record_def workloads_typed_put children_typed_put_record)

lemma children_typed_put:
  "children_typed ws typed cs \<Longrightarrow> dict_get ws name \<noteq> None \<Longrightarrow> typed name c \<Longrightarrow> children_typed ws typed (dict_put name c cs)"
  by (simp add: children_typed_def)

lemma children_typed_default:
  assumes "children_typed ws typed cs" "typed name []"
  shows "typed name (dict_get_default cs name [])"
proof (cases "dict_get cs name")
  case None
  then show ?thesis using assms(2) by (simp add: dict_get_default_def)
next
  case (Some c)
  have "dict_all (\<lambda>name c. dict_get ws name \<noteq> None \<and> typed name c) cs" using assms(1) by (simp add: children_typed_def)
  from dict_allD [OF this Some] show ?thesis using Some by (simp add: dict_get_default_def)
qed

lemma typed_put_version:
  assumes "registry_typed st" "get_workload st ctx (wv_workload v) = Some r" "1 \<le> wv_version v"
  shows "registry_typed (put_version v st)"
proof -
  have c: "children_typed (rs_workloads st) versions_typed (rs_versions st)" using assms(1) by (simp add: registry_typed_def)
  have "versions_typed (wv_workload v) (dict_put (wv_version v) v (dict_get_default (rs_versions st) (wv_workload v) []))"
    using children_typed_default [OF c, of "wv_workload v"] assms(3) by (simp add: versions_typed_def)
  then show ?thesis
    using assms(1,2) by (simp add: registry_typed_def put_version_def children_typed_put get_workload_Some)
qed

lemma typed_put_trigger:
  assumes "registry_typed st" "get_workload st ctx (tz_workload t) = Some r" "tz_trigger_id t \<noteq> []"
  shows "registry_typed (put_trigger t st)"
proof -
  have c: "children_typed (rs_workloads st) triggers_typed (rs_triggers st)" using assms(1) by (simp add: registry_typed_def)
  have "triggers_typed (tz_workload t) (dict_put (tz_trigger_id t) t (dict_get_default (rs_triggers st) (tz_workload t) []))"
    using children_typed_default [OF c, of "tz_workload t"] assms(3) by (simp add: triggers_typed_def)
  then show ?thesis
    using assms(1,2) by (simp add: registry_typed_def put_trigger_def children_typed_put get_workload_Some)
qed

lemma typed_pop_trigger:
  assumes "registry_typed st" "get_workload st ctx w = Some r"
  shows "registry_typed (pop_trigger w i st)"
proof -
  have c: "children_typed (rs_workloads st) triggers_typed (rs_triggers st)" using assms(1) by (simp add: registry_typed_def)
  have "triggers_typed w (dict_pop i (dict_get_default (rs_triggers st) w []))"
    using children_typed_default [OF c, of w] by (simp add: triggers_typed_def)
  then show ?thesis
    using assms by (simp add: registry_typed_def pop_trigger_def children_typed_put get_workload_Some)
qed

abbreviation keeps_typed :: "'a registry \<Rightarrow> bool" where
  "keeps_typed m \<equiv> steps (\<lambda>st st'. registry_typed st \<longrightarrow> registry_typed st') m"

lemmas typed_rules = steps_bind [OF transp_preserves] steps_then [OF transp_preserves] steps_when [OF reflp_preserves]
  steps_for [OF reflp_preserves transp_preserves] steps_return [OF reflp_preserves] steps_raise [OF reflp_preserves]
  steps_get [OF reflp_preserves] steps_if steps_option steps_sum

lemma typed_save: "record_typed r \<Longrightarrow> keeps_typed (save_workload r ctx)"
  by (rule steps_wpI, rule save_workload_wp) (auto intro: typed_put_record)

lemma typed_add_version: "1 \<le> wv_version v \<Longrightarrow> keeps_typed (add_version v ctx)"
  by (rule steps_wpI, rule add_version_wp) (auto intro: typed_put_version)

lemma typed_add_trigger: "tz_trigger_id t \<noteq> [] \<Longrightarrow> keeps_typed (store_add_trigger t ctx)"
  by (rule steps_wpI, rule store_add_trigger_wp) (auto intro: typed_put_trigger)

lemma typed_delete_trigger: "keeps_typed (store_delete_trigger w i ctx)"
  by (rule steps_wpI, rule store_delete_trigger_wp) (auto intro: typed_pop_trigger)

lemma children_typed_pop:
  assumes "children_typed ws typed cs"
  shows "children_typed (dict_pop n ws) typed (dict_pop n cs)"
proof -
  have "dict_all (\<lambda>name c. dict_get ws name \<noteq> None \<and> typed name c) (dict_pop n cs)"
    using assms by (simp add: children_typed_def)
  then have "dict_all (\<lambda>name c. dict_get (dict_pop n ws) name \<noteq> None \<and> typed name c) (dict_pop n cs)"
    by (rule dict_all_mono) (auto split: if_splits)
  then show ?thesis using assms by (simp add: children_typed_def)
qed

lemma typed_delete: "keeps_typed (delete_workload name ctx)"
proof (rule steps_wpI)
  fix st
  have "registry_typed st \<Longrightarrow> registry_typed (st\<lparr>rs_workloads := dict_pop name (rs_workloads st),
      rs_versions := dict_pop name (rs_versions st), rs_triggers := dict_pop name (rs_triggers st)\<rparr>)"
    by (simp add: registry_typed_def children_typed_pop workloads_typed_def)
  then show "wp (delete_workload name ctx) (\<lambda>_ st'. registry_typed st \<longrightarrow> registry_typed st')
      (\<lambda>_ st'. registry_typed st \<longrightarrow> registry_typed st') st"
    by (auto simp: delete_workload_def wps split: option.splits)
qed

lemma typed_add_attestation: "keeps_typed (add_attestation a ctx)"
proof (rule steps_wpI)
  fix st
  have "registry_typed st \<Longrightarrow> registry_typed (st\<lparr>rs_attestations := dict_put (at_attestation_id a) a (rs_attestations st),
      rs_attestation_tenants := dict_put (at_attestation_id a) t (rs_attestation_tenants st)\<rparr>)" for t
    by (simp add: registry_typed_def attestations_typed_def dict_keys_put [simplified])
  then show "wp (add_attestation a ctx) (\<lambda>_ st'. registry_typed st \<longrightarrow> registry_typed st')
      (\<lambda>_ st'. registry_typed st \<longrightarrow> registry_typed st') st"
    by (auto simp: add_attestation_def wps split: option.splits)
qed

lemma typed_save_tool: "keeps_typed (save_tool t ctx)"
  by (rule steps_wpI) (simp add: save_tool_def wps registry_typed_def tools_typed_def)

lemma typed_get: "keeps_typed (registry_get name ctx)"
  by (rule steps_wpI) (auto simp: wps split: option.splits)

lemma typed_version: "keeps_typed (version_or_raise name v ctx)"
  by (rule steps_wpI) (auto simp: wps split: option.splits)

text \<open>What a computation returns when it starts from a state with the invariant.\<close>

definition yields :: "('s \<Rightarrow> bool) \<Rightarrow> ('a \<Rightarrow> bool) \<Rightarrow> ('s, 'e, 'a) exec \<Rightarrow> bool" where
  "yields I P m = (\<forall>s. I s \<longrightarrow> wp m (\<lambda>x _. P x) (\<lambda>_ _. True) s)"

lemma preserves_bind_yields:
  assumes "preserves I m" "yields I P m" "\<And>x. P x \<Longrightarrow> preserves I (k x)"
  shows "preserves I (bindE m k)"
  unfolding steps_def
proof (intro allI impI)
  fix s assume i: "I s"
  obtain r t where m: "m s = (r, t)" by (cases "m s")
  have t: "I t" using stepsD [OF assms(1) m] i by simp
  show "I (snd (bindE m k s))"
  proof (cases r)
    case (Inl e)
    then show ?thesis using m t by (simp add: bindE_def)
  next
    case (Inr x)
    have "wp m (\<lambda>x _. P x) (\<lambda>_ _. True) s" using assms(2) i by (simp add: yields_def)
    then have "P x" using m Inr by (simp add: wp_def)
    from assms(3) [OF this] t have "I (snd (k x t))" by (simp add: steps_def)
    then show ?thesis using m Inr by (simp add: bindE_def)
  qed
qed

lemma typed_validate: "keeps_typed (validate_tools m ctx)"
  unfolding validate_tools_def by (intro typed_rules)

lemma yields_get: "yields registry_typed (\<lambda>r. wl_name r = name \<and> record_typed r) (registry_get name ctx)"
  unfolding yields_def by (auto simp: wps typed_record split: option.splits)

lemma yields_build: "yields I record_typed (build_record cfg sa m v t tenant n)"
  by (auto simp: yields_def build_record_def fresh_record_def wps record_typed_def)

lemma yields_make_trigger: "yields I (\<lambda>t. tz_trigger_id t \<noteq> []) (make_trigger i w rule t)"
  by (auto simp: yields_def make_trigger_def wps)

lemma typed_pure:
  "keeps_typed (build_record cfg sa m v t tenant n)" "keeps_typed (make_trigger i w rule t)"
  unfolding build_record_def make_trigger_def by (intro typed_rules)+

lemmas typed_get_then = preserves_bind_yields [OF typed_get yields_get]
lemmas typed_build_then = preserves_bind_yields [OF typed_pure(1) yields_build]
lemmas typed_trigger_then = preserves_bind_yields [OF typed_pure(2) yields_make_trigger]

lemma typed_sync: "keeps_typed (sync_triggers ta m ctx)"
  unfolding sync_triggers_def case_prod_beta
  by (intro typed_trigger_then typed_add_trigger typed_rules typed_delete_trigger)

lemma typed_create: "keeps_typed (registry_create cfg now sa ta m dry ctx)"
  unfolding registry_create_def
  by (intro typed_build_then typed_rules typed_save typed_add_version typed_sync typed_validate) simp_all

lemma versions_positive:
  "yields registry_typed (\<lambda>vs. \<forall>v \<in> set vs. 1 \<le> wv_version v) (getE (\<lambda>st. list_versions st ctx name))"
proof -
  have "1 \<le> wv_version v" if "registry_typed st" "v \<in> set (list_versions st ctx name)" for st v
  proof -
    let ?vs = "dict_get_default (rs_versions st) name []"
    have "versions_typed name ?vs"
      using children_typed_default [of "rs_workloads st" versions_typed "rs_versions st" name] that(1)
      by (simp add: registry_typed_def versions_typed_def)
    then have ok: "dict_ok ?vs" "dict_all (\<lambda>n v. wv_workload v = name \<and> wv_version v = n \<and> 1 \<le> n) ?vs"
      by (simp_all add: versions_typed_def)
    from that(2) obtain n where "(n, v) \<in> set ?vs"
      by (auto simp: list_versions_def split: option.splits)
    then have "dict_get ?vs n = Some v" using dict_get_in_set [OF ok(1)] by blast
    from dict_allD [OF ok(2) this] show ?thesis by simp
  qed
  then show ?thesis by (simp add: yields_def wps)
qed

lemma typed_update: "keeps_typed (registry_update cfg now sa ta name m dry ctx)"
proof -
  have inval: "record_typed (if artifact_changed e (r\<lparr>wl_updated_at := now\<rparr>)
      then invalidate_for_production (r\<lparr>wl_updated_at := now\<rparr>) else r\<lparr>wl_updated_at := now\<rparr>)"
    if "record_typed r" for e r
    using that by (simp add: invalidate_for_production_def record_typed_def)
  note versions = preserves_bind_yields [OF _ versions_positive]
  show ?thesis
    unfolding registry_update_def supersede_def Let_def
    by (intro typed_get_then typed_build_then versions typed_rules typed_save typed_add_version typed_sync typed_validate inval)
      (auto simp: record_typed_def)
qed

lemma typed_registry_delete: "keeps_typed (registry_delete name ctx)"
  unfolding registry_delete_def by (intro typed_rules typed_delete)

lemma typed_promote: "keeps_typed (registry_promote now name v ctx)"
proof -
  have "yields registry_typed (\<lambda>x. 1 \<le> wv_version x \<and> wv_version x = v) (version_or_raise name v ctx)"
  proof -
    have "1 \<le> wv_version x \<and> wv_version x = v" if "registry_typed st" "store_get_version st ctx name v = Some x" for st x
    proof -
      have "versions_typed name (dict_get_default (rs_versions st) name [])"
        using children_typed_default [of "rs_workloads st" versions_typed "rs_versions st" name] that(1)
        by (simp add: registry_typed_def versions_typed_def)
      then have "dict_all (\<lambda>n v. wv_workload v = name \<and> wv_version v = n \<and> 1 \<le> n) (dict_get_default (rs_versions st) name [])"
        by (simp add: versions_typed_def)
      from dict_allD [OF this, of v x] that(2) show ?thesis by (auto simp: store_get_version_def split: option.splits)
    qed
    then show ?thesis by (auto simp: yields_def wps split: option.splits)
  qed
  note version = preserves_bind_yields [OF typed_version this]
  show ?thesis
    unfolding registry_promote_def Let_def
    by (intro typed_get_then version typed_rules typed_save) (auto simp: record_typed_def)
qed

lemma typed_resave: "record_typed r \<Longrightarrow> keeps_typed (resave r ctx)"
  unfolding resave_def by (intro typed_rules typed_save)

lemma survival_nonneg: "0 \<le> n \<Longrightarrow> 0 \<le> survival_after_transition n s"
  by (simp add: survival_after_transition_def)

lemma typed_lifecycle:
  "keeps_typed (record_certification_event now name ev ctx)"
  "keeps_typed (increment_production_runs name ctx)"
  "keeps_typed (request_re_certification now name ctx)"
  "keeps_typed (registry_quarantine now name ctx)"
  "keeps_typed (mark_uncertified_for_production now name ctx)"
  unfolding record_certification_event_def increment_production_runs_def request_re_certification_def
    registry_quarantine_def mark_uncertified_for_production_def
  by (intro typed_get_then typed_rules typed_resave; simp add: record_typed_def survival_nonneg)+

lemma typed_apply: "keeps_typed (apply_attestation now a evo sto ex ctx)"
  unfolding apply_attestation_def Let_def
  by (intro typed_get_then typed_rules typed_resave) (simp add: record_typed_def survival_nonneg)

lemma typed_store_attestation: "keeps_typed (store_attestation a ctx)"
  unfolding store_attestation_def by (intro typed_rules typed_add_attestation)

lemma typed_register_tool: "keeps_typed (register_tool t ctx)"
  unfolding register_tool_def by (intro typed_rules typed_save_tool)

lemma typed_registry_add_trigger: "keeps_typed (registry_add_trigger now name rule ctx)"
  unfolding registry_add_trigger_def
  by (intro typed_trigger_then typed_add_trigger typed_rules typed_get)

lemma typed_registry_delete_trigger: "keeps_typed (registry_delete_trigger name i ctx)"
  unfolding registry_delete_trigger_def by (intro typed_rules typed_delete_trigger typed_get)

lemma preservesD: "preserves I m \<Longrightarrow> m s = (r, t) \<Longrightarrow> I s \<Longrightarrow> I t"
  using stepsD [of _ m s r t] by blast

lemma registry_step_typed: "registry_step cfg ctx st st' \<Longrightarrow> registry_typed st \<Longrightarrow> registry_typed st'"
  by (cases rule: registry_step.cases, assumption)
    (rule preservesD [rotated], assumption, assumption, rule typed_create typed_update typed_registry_delete typed_promote
       typed_lifecycle typed_apply typed_store_attestation typed_register_tool typed_registry_add_trigger
       typed_registry_delete_trigger)+

lemma history_typed: "registry_history cfg ctxs st st' \<Longrightarrow> registry_typed st \<Longrightarrow> registry_typed st'"
  by (induction rule: registry_history.induct) (auto intro: registry_step_typed)

section \<open>What an update does\<close>

definition tool_entry_ok :: "registry_store \<Rightarrow> tool_ref \<Rightarrow> bool" where
  "tool_entry_ok st entry = (dict_get (rs_tools st) (tr_tool_id entry) \<noteq> None \<and>
     (tr_trust_level entry = TRUST_DESTRUCTIVE \<longrightarrow> tr_require_approval entry))"

definition tools_ok :: "registry_store \<Rightarrow> agent_workload \<Rightarrow> bool" where
  "tools_ok st m = list_all (tool_entry_ok st) (ts_allow (ws_tools (aw_spec m)))"

lemma validate_tools_pass:
  assumes "tools_ok st m"
  shows "validate_tools m ctx st = (Inr (), st)"
proof -
  let ?body = "\<lambda>entry. bindE (getE (\<lambda>st. store_get_tool st ctx (tr_tool_id entry))) (\<lambda>tool.
       if tool = None then raiseE (UnknownToolError (tr_tool_id entry))
       else if tr_trust_level entry = TRUST_DESTRUCTIVE \<and> \<not> tr_require_approval entry
       then raiseE (DestructiveToolRequiresApprovalError (tr_tool_id entry))
       else returnE () :: unit registry)"
  have b: "?body entry st = (Inr (), st)" if "tool_entry_ok st entry" for entry
    using that by (auto simp: bindE_def getE_def returnE_def store_get_tool_def tool_entry_ok_def)
  have "list_all (tool_entry_ok st) es \<Longrightarrow> forE es ?body st = (Inr (), st)" for es
  proof (induction es)
    case Nil
    show ?case by (simp add: returnE_def)
  next
    case (Cons e es)
    then have "?body e st = (Inr (), st)" using b [of e] by simp
    then show ?case using Cons unfolding forE.simps thenE_def bindE_def [of "?body e"] by simp
  qed
  then show ?thesis using assms by (simp add: validate_tools_def tools_ok_def)
qed

abbreviation versions_of :: "registry_store \<Rightarrow> string \<Rightarrow> (int, workload_version) dict" where
  "versions_of st name \<equiv> dict_get_default (rs_versions st) name []"

definition superseded :: "workload_version list \<Rightarrow> registry_store \<Rightarrow> registry_store" where
  "superseded vs st = fold (\<lambda>v st. if wv_status v = VERSION_ACTIVE then put_version (v\<lparr>wv_status := VERSION_SUPERSEDED\<rparr>) st else st) vs st"

lemma put_version_frame [simp]:
  "rs_workloads (put_version v st) = rs_workloads st" "rs_triggers (put_version v st) = rs_triggers st"
  "rs_attestations (put_version v st) = rs_attestations st" "rs_tools (put_version v st) = rs_tools st"
  "rs_attestation_tenants (put_version v st) = rs_attestation_tenants st"
  by (simp_all add: put_version_def)

lemma superseded_frame: "rs_workloads (superseded vs st) = rs_workloads st"
  by (induction vs arbitrary: st) (simp_all add: superseded_def)

lemma add_version_pass:
  "get_workload st ctx (wv_workload v) = Some r \<Longrightarrow> add_version v ctx st = (Inr (), put_version v st)"
  by (simp add: get_workload_Some add_version_def parent_def bindE_def getE_def requireR_def require_def thenE_def
      returnE_def modifyE_def put_version_def)

lemma supersede_pass:
  assumes "\<forall>v \<in> set vs. wv_workload v = name" "get_workload st ctx name = Some r"
  shows "supersede vs ctx st = (Inr (), superseded vs st)"
  using assms
proof (induction vs arbitrary: st)
  case Nil
  show ?case by (simp add: supersede_def superseded_def returnE_def)
next
  case (Cons v vs)
  let ?st = "if wv_status v = VERSION_ACTIVE then put_version (v\<lparr>wv_status := VERSION_SUPERSEDED\<rparr>) st else st"
  have "whenE (wv_status v = VERSION_ACTIVE) (add_version (v\<lparr>wv_status := VERSION_SUPERSEDED\<rparr>) ctx) st = (Inr (), ?st)"
    using Cons.prems add_version_pass [of st ctx "v\<lparr>wv_status := VERSION_SUPERSEDED\<rparr>" r]
    by (simp add: whenE_def returnE_def)
  moreover have "get_workload ?st ctx name = Some r" using Cons.prems(2) by (simp add: get_workload_def)
  ultimately show ?case
    using Cons.IH [of ?st] Cons.prems(1) unfolding supersede_def forE.simps thenE_def superseded_def by (simp add: bindE_def)
qed

lemma versions_put_version:
  "versions_of (put_version v st) (wv_workload v) = dict_put (wv_version v) v (versions_of st (wv_workload v))"
  by (simp add: put_version_def dict_get_default_def)

lemma superseded_versions:
  assumes "\<forall>v \<in> set vs. wv_workload v = name" "distinct (map wv_version vs)"
    and "\<forall>v \<in> set vs. dict_get (versions_of st name) (wv_version v) = Some v"
    and "dict_all (\<lambda>n v. wv_version v = n) (versions_of st name)"
  shows "dict_get (versions_of (superseded vs st) name) n =
    map_option (\<lambda>v. if v \<in> set vs \<and> wv_status v = VERSION_ACTIVE then v\<lparr>wv_status := VERSION_SUPERSEDED\<rparr> else v)
      (dict_get (versions_of st name) n)"
  using assms
proof (induction vs arbitrary: st)
  case Nil
  then show ?case by (simp add: superseded_def option.map_ident)
next
  case (Cons v vs)
  let ?w = "v\<lparr>wv_status := VERSION_SUPERSEDED\<rparr>"
  let ?st = "if wv_status v = VERSION_ACTIVE then put_version ?w st else st"
  have name: "wv_workload v = name" using Cons.prems(1) by simp
  have vst: "versions_of ?st name = (if wv_status v = VERSION_ACTIVE then dict_put (wv_version v) ?w (versions_of st name) else versions_of st name)"
    using versions_put_version [of ?w st] name by simp
  have other: "wv_version u \<noteq> wv_version v" if "u \<in> set vs" for u
    using Cons.prems(2) that by (metis distinct.simps(2) image_eqI list.set_map list.simps(9))
  have "dict_get (versions_of ?st name) (wv_version u) = Some u" if "u \<in> set vs" for u
    using Cons.prems(3) other [OF that] that unfolding vst by simp
  then have ih: "dict_get (versions_of (superseded vs ?st) name) n =
    map_option (\<lambda>v. if v \<in> set vs \<and> wv_status v = VERSION_ACTIVE then v\<lparr>wv_status := VERSION_SUPERSEDED\<rparr> else v)
      (dict_get (versions_of ?st name) n)"
    using Cons.IH [of ?st] Cons.prems(1,2,4) vst by simp
  have fold: "superseded (v # vs) st = superseded vs ?st" by (simp add: superseded_def)
  show ?case
  proof (cases "n = wv_version v")
    case True
    have "dict_get (versions_of st name) n = Some v" using Cons.prems(3) True by simp
    moreover have "v \<notin> set vs" "?w \<notin> set vs" using other [of v] other [of ?w] by auto
    ultimately show ?thesis unfolding fold ih vst by (simp add: True)
  next
    case False
    have "u \<noteq> v" if "dict_get (versions_of st name) n = Some u" for u
      using dict_allD [OF Cons.prems(4) that] False by auto
    then show ?thesis unfolding fold ih vst using False by (cases "dict_get (versions_of st name) n") auto
  qed
qed

lemma wp_forE_inv:
  assumes "\<And>x s. x \<in> set xs \<Longrightarrow> I s \<Longrightarrow> wp (f x) (\<lambda>_. I) E s" "I s"
  shows "wp (forE xs f) (\<lambda>_. I) E s"
  using assms
proof (induction xs arbitrary: s)
  case Nil
  then show ?case by (simp add: wps)
next
  case (Cons x xs)
  have "wp (f x) (\<lambda>_. I) E s" using Cons.prems by simp
  then show ?case
    unfolding forE.simps wp_then by (rule wp_conseq) (use Cons.IH Cons.prems(1) in auto)
qed

lemma wp_returns: "wp m Q (\<lambda>_ _. False) s \<Longrightarrow> \<exists>x t. m s = (Inr x, t) \<and> Q x t"
  by (auto simp: wp_def split: prod.splits sum.splits)

lemma sync_triggers_pass:
  assumes "get_workload st ctx (workload_name m) = Some r" "workload_name m \<noteq> []"
  shows "wp (sync_triggers ta m ctx) (\<lambda>_ st'. rs_workloads st' = rs_workloads st \<and> rs_versions st' = rs_versions st)
    (\<lambda>_ _. False) st"
proof -
  let ?I = "\<lambda>st'. rs_workloads st' = rs_workloads st \<and> rs_versions st' = rs_versions st"
  have g: "get_workload st' ctx (workload_name m) = Some r" if "?I st'" for st'
    using assms(1) that by (simp add: get_workload_def)
  have del: "wp (bindE (store_delete_trigger (workload_name m) i ctx) (\<lambda>_. returnE ())) (\<lambda>_. ?I) (\<lambda>_ _. False) st'"
    if "?I st'" for st' i
    unfolding wp_bind by (rule store_delete_trigger_wp) (use that in \<open>simp_all add: wps pop_trigger_def\<close>)
  have add: "wp (bindE (make_trigger (workload_name m @ ''-t'' @ nat_str i) (workload_name m) rule (ta i))
      (\<lambda>t. store_add_trigger t ctx)) (\<lambda>_. ?I) (\<lambda>_ _. False) st'" if "?I st'" for st' i rule
    using g [OF that] that assms(2)
    by (simp add: make_trigger_def wps store_add_trigger_def get_workload_Some)
  show ?thesis
    unfolding sync_triggers_def wp_bind wp_get wp_then case_prod_beta
  proof (rule wp_conseq [OF wp_forE_inv [where I = ?I]])
    fix x and t :: registry_store assume "?I t"
    then show "wp (forE (List.enumerate 1 (ws_triggers (aw_spec m))) (\<lambda>p. bindE (make_trigger (workload_name m @ ''-t'' @ nat_str (fst p))
        (workload_name m) (snd p) (ta (fst p))) (\<lambda>t. store_add_trigger t ctx))) (\<lambda>_. ?I) (\<lambda>_ _. False) t"
      by (rule wp_forE_inv [rotated]) (rule add)
  qed (use del in auto)
qed

lemma save_pass: "save_allowed r ctx st \<Longrightarrow> save_workload r ctx st = (Inr (), put_record r st)"
  by (auto simp: save_workload_def save_allowed_def put_record_def requireR_def require_def thenE_def bindE_def getE_def
      returnE_def modifyE_def split: option.splits)

definition revised ::
  "('sk, 'pk) registry_config \<Rightarrow> time \<Rightarrow> time \<Rightarrow> agent_workload \<Rightarrow> string \<Rightarrow> workload_record \<Rightarrow> workload_record" where
  "revised cfg now sa m tenant e =
     (let r = (fresh_record cfg sa m (wl_current_version e + 1) (wl_created_at e) tenant
            (requires_re_certification (changed_fields (wl_manifest e) m)))\<lparr>wl_updated_at := now\<rparr>
      in if artifact_changed e r then invalidate_for_production r else r)"

definition new_version :: "time \<Rightarrow> string \<Rightarrow> agent_workload \<Rightarrow> workload_record \<Rightarrow> workload_version" where
  "new_version now name m e = \<lparr>wv_workload = name, wv_version = wl_current_version e + 1, wv_manifest = m,
     wv_status = VERSION_ACTIVE, wv_created_at = now,
     wv_re_certification_required = requires_re_certification (changed_fields (wl_manifest e) m),
     wv_changed_fields = changed_fields (wl_manifest e) m\<rparr>"

lemma revised_simps [simp]:
  "wl_name (revised cfg now sa m tenant e) = workload_name m" "wl_tenant_id (revised cfg now sa m tenant e) = tenant"
  "wl_current_version (revised cfg now sa m tenant e) = wl_current_version e + 1"
  by (simp_all add: revised_def fresh_record_def invalidate_for_production_def Let_def)

lemma update_pass:
  assumes "registry_typed st" "get_workload st ctx name = Some e" "tools_ok st m" "workload_name m = name" "name \<noteq> []"
    and "tc_tenant_id ctx \<noteq> []" "length (tc_tenant_id ctx) \<le> 64"
  shows "wp (registry_update cfg now sa ta name m False ctx)
    (\<lambda>x st'. x = Inl (revised cfg now sa m (tc_tenant_id ctx) e) \<and>
       rs_workloads st' = dict_put name (revised cfg now sa m (tc_tenant_id ctx) e) (rs_workloads st) \<and>
       rs_versions st' = rs_versions (put_version (new_version now name m e) (superseded (list_versions st ctx name) st)))
    (\<lambda>_ _. False) st"
proof -
  let ?vs = "list_versions st ctx name"
  let ?st1 = "superseded ?vs st"
  let ?st2 = "put_version (new_version now name m e) ?st1"
  let ?r = "revised cfg now sa m (tc_tenant_id ctx) e"
  have vt: "versions_typed name (versions_of st name)"
    using children_typed_default [of "rs_workloads st" versions_typed "rs_versions st" name] assms(1)
    by (simp add: registry_typed_def versions_typed_def)
  have vsw: "\<forall>v \<in> set ?vs. wv_workload v = name"
  proof
    fix v assume "v \<in> set ?vs"
    then obtain n where "(n, v) \<in> set (versions_of st name)" by (auto simp: list_versions_def split: option.splits)
    then have "dict_get (versions_of st name) n = Some v" using vt dict_get_in_set by (fastforce simp: versions_typed_def)
    moreover have "dict_all (\<lambda>n v. wv_workload v = name \<and> wv_version v = n \<and> 1 \<le> n) (versions_of st name)"
      using vt by (simp add: versions_typed_def)
    ultimately show "wv_workload v = name" by (blast dest: dict_allD)
  qed
  have g1: "get_workload ?st1 ctx name = Some e" using assms(2) by (simp add: get_workload_def superseded_frame)
  have g2: "get_workload ?st2 ctx name = Some e" using g1 by (simp add: get_workload_def)
  have cur: "1 \<le> wl_current_version e" using typed_record [OF assms(1,2)] by (simp add: record_typed_def)
  have own: "scopes ctx (tc_tenant_id ctx)" by (simp add: scopes_def)
  have sv: "save_allowed ?r ctx ?st2"
    using g2 own assms(4) by (simp add: save_allowed_def get_workload_Some)
  let ?st3 = "put_record ?r ?st2"
  have g3: "get_workload ?st3 ctx (workload_name m) = Some ?r"
    using own by (simp add: get_workload_Some put_record_def)
  have "wp (sync_triggers ta m ctx) (\<lambda>_ st'. rs_workloads st' = rs_workloads ?st3 \<and> rs_versions st' = rs_versions ?st3)
      (\<lambda>_ _. False) ?st3"
    by (rule sync_triggers_pass [OF g3]) (use assms(4,5) in simp)
  then have last: "wp (sync_triggers ta m ctx) (\<lambda>_ st'. rs_workloads st' = dict_put name ?r (rs_workloads st) \<and>
      rs_versions st' = rs_versions ?st2) (\<lambda>_ _. False) ?st3"
    by (rule wp_conseq) (simp_all add: put_record_def superseded_frame assms(4))
  have v: "wp (validate_tools m ctx) Q E st = Q () st" for Q E
    by (rule wp_value) (rule validate_tools_pass [OF assms(3)])
  have su: "wp (supersede ?vs ctx) Q E st = Q () ?st1" for Q E
    by (rule wp_value) (rule supersede_pass [OF vsw assms(2)])
  have av: "wp (add_version (new_version now name m e) ctx) Q E ?st1 = Q () ?st2" for Q E
    by (rule wp_value, rule add_version_pass [where r = e]) (simp add: new_version_def g1)
  have sa': "wp (save_workload ?r ctx) Q E ?st2 = Q () ?st3" for Q E
    by (rule wp_value) (rule save_pass [OF sv])
  have b: "wp (build_record cfg sa m (wl_current_version e + 1) t (tc_tenant_id ctx) n) Q E st' =
      Q (fresh_record cfg sa m (wl_current_version e + 1) t (tc_tenant_id ctx) n) st'" for t n Q E st'
    using cur assms(6,7) by (simp add: build_record_def wps)
  show ?thesis
    unfolding registry_update_def wp_bind registry_get_wp assms(2) option.case Let_def if_False wp_then v wp_get su
      new_version_def [symmetric] av b revised_def [unfolded Let_def, symmetric] sa'
    using last by (rule wp_conseq) (simp_all add: wps)
qed

lemma listed_versions:
  assumes "registry_typed st" "get_workload st ctx name = Some e"
  shows "\<forall>v \<in> set (list_versions st ctx name). wv_workload v = name" "distinct (map wv_version (list_versions st ctx name))"
    "\<forall>v \<in> set (list_versions st ctx name). dict_get (versions_of st name) (wv_version v) = Some v"
    "dict_all (\<lambda>n v. wv_version v = n) (versions_of st name)"
    "\<And>n v. dict_get (versions_of st name) n = Some v \<Longrightarrow> v \<in> set (list_versions st ctx name)"
proof -
  let ?vs = "versions_of st name"
  have "versions_typed name ?vs"
    using children_typed_default [of "rs_workloads st" versions_typed "rs_versions st" name] assms(1)
    by (simp add: registry_typed_def versions_typed_def)
  then have ok: "dict_ok ?vs" and all: "dict_all (\<lambda>n v. wv_workload v = name \<and> wv_version v = n \<and> 1 \<le> n) ?vs"
    by (simp_all add: versions_typed_def)
  have set: "set (list_versions st ctx name) = snd ` set ?vs" using assms(2) by (simp add: list_versions_def)
  have each: "wv_workload v = name \<and> wv_version v = n \<and> dict_get ?vs n = Some v" if "(n, v) \<in> set ?vs" for n v
  proof -
    have "dict_get ?vs n = Some v" using dict_get_in_set [OF ok] that by blast
    with dict_allD [OF all this] show ?thesis by simp
  qed
  show "\<forall>v \<in> set (list_versions st ctx name). wv_workload v = name"
    "\<forall>v \<in> set (list_versions st ctx name). dict_get ?vs (wv_version v) = Some v"
    unfolding set using each by force+
  show "dict_all (\<lambda>n v. wv_version v = n) ?vs" by (rule dict_all_mono [OF all]) simp
  show "v \<in> set (list_versions st ctx name)" if "dict_get ?vs n = Some v" for n v
    unfolding set using map_of_SomeD [OF that] by force
  have "map wv_version (map snd ?vs) = map fst ?vs" using each by (auto simp: case_prod_beta)
  with ok have "distinct (map wv_version (map snd ?vs))" by (simp only:)
  then have "distinct (map snd ?vs)" "inj_on wv_version (set (map snd ?vs))"
    using distinct_map [of wv_version "map snd ?vs"] by blast+
  then show "distinct (map wv_version (list_versions st ctx name))"
    using assms(2) by (simp add: list_versions_def distinct_map [of wv_version])
qed

lemma revised_status:
  "wl_certification_status (revised cfg now sa m tenant e) =
     (if wl_artifact_hash e \<notin> {None, Some (ab_artifact_hash (compute_binding (rg_crypto cfg) m None))} \<and>
         workload_certification_status m \<in> {CERTIFIED, PROVISIONAL}
      then UNCERTIFIED else workload_certification_status m)"
  "wl_needs_re_certification (revised cfg now sa m tenant e) =
     (requires_re_certification (changed_fields (wl_manifest e) m) \<or>
      wl_artifact_hash e \<notin> {None, Some (ab_artifact_hash (compute_binding (rg_crypto cfg) m None))} \<and>
      workload_certification_status m \<in> {CERTIFIED, PROVISIONAL})"
  by (auto simp: revised_def fresh_record_def artifact_changed_def invalidate_for_production_def Let_def)

lemma update_result:
  assumes "registry_typed st" "get_workload st ctx name = Some e" "tools_ok st m" "workload_name m = name" "name \<noteq> []"
    and "tc_tenant_id ctx \<noteq> []" "length (tc_tenant_id ctx) \<le> 64"
  obtains st' where "registry_update cfg now sa ta name m False ctx st = (Inr (Inl (revised cfg now sa m (tc_tenant_id ctx) e)), st')"
    "get_workload st' ctx name = Some (revised cfg now sa m (tc_tenant_id ctx) e)"
    "\<And>n. dict_get (versions_of st' name) n =
       (if n = wl_current_version e + 1 then Some (new_version now name m e)
        else map_option (\<lambda>v. if wv_status v = VERSION_ACTIVE then v\<lparr>wv_status := VERSION_SUPERSEDED\<rparr> else v)
          (dict_get (versions_of st name) n))"
proof -
  let ?r = "revised cfg now sa m (tc_tenant_id ctx) e"
  let ?vs = "list_versions st ctx name"
  obtain st' where st': "registry_update cfg now sa ta name m False ctx st = (Inr (Inl ?r), st')"
    "rs_workloads st' = dict_put name ?r (rs_workloads st)"
    "rs_versions st' = rs_versions (put_version (new_version now name m e) (superseded ?vs st))"
    using wp_returns [OF update_pass [OF assms, of cfg now sa ta]] by blast
  have get: "get_workload st' ctx name = Some ?r" using st'(2) by (simp add: get_workload_Some scopes_def)
  have vers: "dict_get (versions_of st' name) n =
       (if n = wl_current_version e + 1 then Some (new_version now name m e)
        else map_option (\<lambda>v. if wv_status v = VERSION_ACTIVE then v\<lparr>wv_status := VERSION_SUPERSEDED\<rparr> else v)
          (dict_get (versions_of st name) n))" for n
  proof -
    have "versions_of st' name = dict_put (wl_current_version e + 1) (new_version now name m e) (versions_of (superseded ?vs st) name)"
      using versions_put_version [of "new_version now name m e" "superseded ?vs st"]
      by (simp add: st'(3) new_version_def)
    then show ?thesis
      using superseded_versions [OF listed_versions(1-4) [OF assms(1,2)], of n] listed_versions(5) [OF assms(1,2), of n]
      by (cases "dict_get (versions_of st name) n") auto
  qed
  show thesis by (rule that [OF st'(1) get vers])
qed

section \<open>Properties\<close>

text \<open>
  C36: registering a new manifest of the same name (as the API checks before the call) for an existing
  workload succeeds whenever its tools are registered and its destructive tools ask for approval. The stored record is then the new one: its version is
  one higher, it is certified as the manifest says unless the artifact hash changed, in which case a
  certified or provisional workload becomes uncertified and must be re-certified; re-certification is
  also required when a certification-relevant field changed. Of the versions, the new one is stored
  as active, every version that was active is superseded, and no other version changes.
\<close>

theorem registry_update_exact:
  assumes "registry_typed st" "get_workload st ctx name = Some e" "tools_ok st m" "workload_name m = name" "name \<noteq> []"
    and "tc_tenant_id ctx \<noteq> []" "length (tc_tenant_id ctx) \<le> 64"
  shows "\<exists>r st'. registry_update cfg now sa ta name m False ctx st = (Inr (Inl r), st') \<and>
    get_workload st' ctx name = Some r \<and> wl_manifest r = (if wl_certification_status r = workload_certification_status m then m else with_status m UNCERTIFIED) \<and>
    wl_current_version r = wl_current_version e + 1 \<and>
    (let changed = wl_artifact_hash e \<noteq> None \<and>
           wl_artifact_hash e \<noteq> Some (ab_artifact_hash (compute_binding (rg_crypto cfg) m None)) \<and>
           workload_certification_status m \<in> {CERTIFIED, PROVISIONAL}
     in wl_certification_status r = (if changed then UNCERTIFIED else workload_certification_status m) \<and>
        wl_needs_re_certification r = (changed \<or> requires_re_certification (changed_fields (wl_manifest e) m))) \<and>
    (\<forall>n. dict_get (versions_of st' name) n =
       (if n = wl_current_version e + 1 then Some (new_version now name m e)
        else map_option (\<lambda>v. if wv_status v = VERSION_ACTIVE then v\<lparr>wv_status := VERSION_SUPERSEDED\<rparr> else v)
          (dict_get (versions_of st name) n)))"
proof -
  let ?r = "revised cfg now sa m (tc_tenant_id ctx) e"
  obtain st' where st': "registry_update cfg now sa ta name m False ctx st = (Inr (Inl ?r), st')" "get_workload st' ctx name = Some ?r"
    "\<And>n. dict_get (versions_of st' name) n =
       (if n = wl_current_version e + 1 then Some (new_version now name m e)
        else map_option (\<lambda>v. if wv_status v = VERSION_ACTIVE then v\<lparr>wv_status := VERSION_SUPERSEDED\<rparr> else v)
          (dict_get (versions_of st name) n))"
    using update_result [OF assms, of cfg now sa ta] by blast
  have man: "wl_manifest ?r = (if wl_certification_status ?r = workload_certification_status m then m else with_status m UNCERTIFIED)"
    by (auto simp: revised_def fresh_record_def artifact_changed_def invalidate_for_production_def Let_def)
  show ?thesis
    using st' man unfolding Let_def by (intro exI [of _ ?r] exI [of _ st']) (auto simp: revised_status)
qed

definition sample_certified :: "string \<Rightarrow> certification_status \<Rightarrow> agent_workload" where
  "sample_certified name status = (let w = sample_workload name None sample_budget in
     w\<lparr>aw_spec := (aw_spec w)\<lparr>ws_certification := Some \<lparr>cs_benchmark_corpus = Some ''corpus'', cs_staging_threshold = 8 / 10,
       cs_production_threshold = 9 / 10, cs_no_critical_failures = True, cs_latency_budget_ms = 30000,
       cs_re_cert_interval = 1209600, cs_status = status, cs_attestation_id = Some ''att-1'', cs_certified_at = Some 0,
       cs_certified_by = Some ''svc'', cs_expires_at = Some 100\<rparr>\<rparr>\<rparr>)"

definition sample_registry_config :: "(string, string) registry_config" where
  "sample_registry_config = \<lparr>rg_crypto = example_crypto, rg_public_key = Some ''key'', rg_bundle_signing_key = None,
     rg_bundle_key_id = ''k1'', rg_key_resolver = None\<rparr>"

definition sample_registry :: "string \<Rightarrow> certification_status \<Rightarrow> registry_store" where
  "sample_registry tenant status = (let m = sample_certified ''w'' status in
     \<lparr>rs_workloads = [(''w'', fresh_record sample_registry_config 0 m 1 0 tenant False)],
      rs_versions = [(''w'', [(1, \<lparr>wv_workload = ''w'', wv_version = 1, wv_manifest = m, wv_status = VERSION_ACTIVE,
        wv_created_at = 0, wv_re_certification_required = False, wv_changed_fields = []\<rparr>)])],
      rs_attestations = [(''att-1'', sign_attestation example_crypto (sample_attestation ''att-1'' ''w'' status TARGET_PRODUCTION 0) ''key'')],
      rs_attestation_tenants = [(''att-1'', tenant)], rs_tools = [], rs_tool_tenants = [], rs_triggers = []\<rparr>)"

lemma sample_certified_fields [simp]:
  "workload_name (sample_certified name status) = name" "workload_certification_status (sample_certified name status) = status"
  "ts_allow (ws_tools (aw_spec (sample_certified name status))) = []"
  by (simp_all add: sample_certified_def sample_workload_def workload_name_def workload_certification_status_def Let_def)

lemma dict_all_single [simp]: "dict_all P [(k, v)] = P k v"
  by (simp add: dict_all_def)

lemma sample_registry_typed: "tenant \<noteq> [] \<Longrightarrow> length tenant \<le> 64 \<Longrightarrow> registry_typed (sample_registry tenant status)"
  by (simp add: sample_registry_def Let_def registry_typed_def workloads_typed_def children_typed_def versions_typed_def
      record_typed_def fresh_record_def attestations_typed_def tools_typed_def sign_attestation_def sample_attestation_def)

lemma sample_registry_workload:
  "get_workload (sample_registry tenant status) (context_for_run tenant None None) ''w'' =
     Some (fresh_record sample_registry_config 0 (sample_certified ''w'' status) 1 0 tenant False)"
  by (simp add: sample_registry_def Let_def get_workload_Some fresh_record_def)

theorem registry_update_exact_witness:
  "\<exists>r st'. registry_update sample_registry_config 1 1 (\<lambda>_. 1) ''w'' (sample_certified ''w'' CERTIFIED) False
      (context_for_run ''acme'' None None) (sample_registry ''acme'' QUARANTINED) = (Inr (Inl r), st') \<and>
    wl_current_version r = 2"
  using registry_update_exact [OF sample_registry_typed sample_registry_workload, of "''acme''" QUARANTINED
      "sample_certified ''w'' CERTIFIED" sample_registry_config 1 1 "\<lambda>_. 1"]
  by (auto simp: tools_ok_def fresh_record_def)

text \<open>
  C37: whatever sequence of registry calls the contexts of other tenants make, whether they return or
  raise, a tenant's workload, its manifest versions and its triggers read the same afterwards.
\<close>

theorem registry_isolated:
  assumes "registry_history cfg ctxs st st'" "dict_get (rs_workloads st) name = Some r"
    and "\<forall>ctx \<in> set ctxs. \<not> scopes ctx (wl_tenant_id r)"
  shows "get_workload st' rctx name = get_workload st rctx name \<and> list_versions st' rctx name = list_versions st rctx name \<and>
    store_list_triggers st' rctx name = store_list_triggers st rctx name"
  using history_foreign [OF assms] assms(2)
  by (simp add: get_workload_def list_versions_def store_list_triggers_def dict_get_default_def)

theorem registry_isolated_witness:
  "get_workload (snd (registry_delete ''w'' (context_for_run ''evil'' None None) (sample_registry ''acme'' CERTIFIED)))
     (context_for_run ''acme'' None None) ''w'' \<noteq> None"
proof -
  have "registry_history sample_registry_config ([] @ [context_for_run ''evil'' None None]) (sample_registry ''acme'' CERTIFIED)
      (snd (registry_delete ''w'' (context_for_run ''evil'' None None) (sample_registry ''acme'' CERTIFIED)))"
    by (rule registry_history.call [OF registry_history.none registry_step.delete [OF prod.collapse [symmetric]]])
  from registry_isolated [OF this, of "''w''" "fresh_record sample_registry_config 0 (sample_certified ''w'' CERTIFIED) 1 0 ''acme'' False"
      "context_for_run ''acme'' None None"]
  show ?thesis
    using sample_registry_workload [of "''acme''" CERTIFIED] by (simp add: get_workload_Some fresh_record_def)
qed

text \<open>
  C38: every store reachable from an empty registry by calls of the service, under any contexts and
  whether they return or raise, is well formed: every record is filed under its name, counts from
  version 1 and carries a valid tenant; every version and trigger is filed under its own id below a
  registered workload; attestations have an owner and tools are filed under their id.
\<close>

theorem registry_store_typed:
  assumes "registry_history cfg ctxs new_registry_store st"
  shows "registry_typed st"
  using history_typed [OF assms registry_typed_new] .

theorem registry_store_typed_witness:
  "registry_typed (snd (registry_create sample_registry_config 0 0 (\<lambda>_. 0) (sample_certified ''w'' CERTIFIED) False
     DEFAULT_CONTEXT new_registry_store))"
proof -
  have "registry_history sample_registry_config ([] @ [DEFAULT_CONTEXT]) new_registry_store
      (snd (registry_create sample_registry_config 0 0 (\<lambda>_. 0) (sample_certified ''w'' CERTIFIED) False DEFAULT_CONTEXT new_registry_store))"
    by (rule registry_history.call [OF registry_history.none registry_step.create [OF prod.collapse [symmetric]]])
  then show ?thesis by (rule registry_store_typed)
qed

definition attested ::
  "('sk, 'pk) registry_config \<Rightarrow> time \<Rightarrow> registry_store \<Rightarrow> workload_record \<Rightarrow> string \<Rightarrow> attestation \<Rightarrow> 'pk \<Rightarrow> bool" where
  "attested cfg now st r i a key = (\<exists>cert t. ws_certification (aw_spec (wl_manifest r)) = Some cert \<and> cs_expires_at cert = Some t \<and> now < t \<and>
     cs_attestation_id cert = Some i \<and> i \<noteq> [] \<and> store_get_attestation st DEFAULT_CONTEXT i = Some a \<and>
     at_workload_id a = wl_name r \<and> resolve_key cfg (sg_key_id (at_signer a)) = Some key \<and> verify_attestation (rg_crypto cfg) a key)"

lemma has_valid_attestation_iff:
  "has_valid_attestation cfg now st r target \<longleftrightarrow>
     (\<exists>i a key. attested cfg now st r i a key \<and> (target = None \<or> target = Some (at_target_context a)))"
proof (cases "ws_certification (aw_spec (wl_manifest r))")
  case (Some cert)
  note c = Some
  show ?thesis
  proof (cases "cs_expires_at cert")
    case (Some t)
    note e = Some
    show ?thesis
    proof (cases "cs_attestation_id cert")
      case (Some i)
      have key: "rg_public_key cfg = None \<and> rg_key_resolver cfg = None \<Longrightarrow> resolve_key cfg k = None" for k
        by (simp add: resolve_key_def)
      show ?thesis
        by (cases "store_get_attestation st DEFAULT_CONTEXT i")
          (auto simp: has_valid_attestation_def attested_def c e Some truthy_def key split: option.splits)
    qed (simp add: has_valid_attestation_def attested_def c e truthy_def)
  qed (simp add: has_valid_attestation_def attested_def c)
qed (simp add: has_valid_attestation_def attested_def)

lemma has_valid_bundle_iff:
  "has_valid_bundle cfg r \<longleftrightarrow> rg_bundle_signing_key cfg = None \<or>
     (\<exists>b key. wl_bundle r = Some b \<and> resolve_key cfg (wb_key_id b) = Some key \<and>
        verify_bundle (rg_crypto cfg) b (wl_manifest r) key None)"
  by (auto simp: has_valid_bundle_def split: option.splits)

lemma check_admission_result:
  assumes "get_workload st ctx name = Some r"
  shows "\<exists>d. check_admission cfg now name context ctx st = (Inr d, st) \<and> cd_admitted d = admission_verdict cfg now st r context"
  using assms
  by (cases "context") (simp_all add: check_admission_def registry_get_def bindE_def getE_def returnE_def Let_def admission_verdict_def)

lemma attested_default:
  "(\<exists>i a key. attested cfg now st r i a key \<and> P a) \<longleftrightarrow>
     (\<exists>cert t i a key. ws_certification (aw_spec (wl_manifest r)) = Some cert \<and> cs_expires_at cert = Some t \<and> now < t \<and>
        cs_attestation_id cert = Some i \<and> i \<noteq> [] \<and>
        dict_get (rs_attestations st) i = Some a \<and> dict_get (rs_attestation_tenants st) i = Some DEFAULT_TENANT_ID \<and>
        at_workload_id a = wl_name r \<and> resolve_key cfg (sg_key_id (at_signer a)) = Some key \<and>
        verify_attestation (rg_crypto cfg) a key \<and> P a)"
proof -
  have "store_get_attestation st DEFAULT_CONTEXT i = Some a \<longleftrightarrow>
      dict_get (rs_attestations st) i = Some a \<and> dict_get (rs_attestation_tenants st) i = Some DEFAULT_TENANT_ID" for i a
    by (auto simp: store_get_attestation_def DEFAULT_CONTEXT_def scopes_def split: option.splits if_splits)
  then show ?thesis unfolding attested_def by blast
qed

text \<open>
  C35: a registered workload is admitted to production exactly if it is certified, or provisional with
  an attestation for production; is not waiting for re-certification; carries an unexpired
  certification whose attestation is for this workload, is stored under the default tenant
  whichever tenant the workload belongs to, and verifies under the key its signer names; and, when bundles are signed,
  its bundle verifies against the registered manifest. Checking never changes the registry.
\<close>

theorem production_admission_iff:
  assumes "get_workload st ctx name = Some r"
  shows "\<exists>d. check_admission cfg now name PRODUCTION ctx st = (Inr d, st) \<and>
    (cd_admitted d \<longleftrightarrow>
      wl_certification_status r \<in> {CERTIFIED, PROVISIONAL} \<and> \<not> wl_needs_re_certification r \<and>
      (\<exists>cert t i a key. ws_certification (aw_spec (wl_manifest r)) = Some cert \<and> cs_expires_at cert = Some t \<and> now < t \<and>
         cs_attestation_id cert = Some i \<and> i \<noteq> [] \<and>
         dict_get (rs_attestations st) i = Some a \<and> dict_get (rs_attestation_tenants st) i = Some DEFAULT_TENANT_ID \<and>
         at_workload_id a = wl_name r \<and> resolve_key cfg (sg_key_id (at_signer a)) = Some key \<and>
         verify_attestation (rg_crypto cfg) a key \<and>
         (wl_certification_status r = PROVISIONAL \<longrightarrow> at_target_context a = TARGET_PRODUCTION)) \<and>
      (rg_bundle_signing_key cfg = None \<or>
        (\<exists>b key. wl_bundle r = Some b \<and> resolve_key cfg (wb_key_id b) = Some key \<and>
           verify_bundle (rg_crypto cfg) b (wl_manifest r) key None)))"
proof -
  obtain d where d: "check_admission cfg now name PRODUCTION ctx st = (Inr d, st)"
    "cd_admitted d = admission_verdict cfg now st r PRODUCTION"
    using check_admission_result [OF assms] by blast
  show ?thesis
    unfolding attested_default [symmetric]
    by (rule exI [of _ d])
      (cases "wl_certification_status r"; simp add: d admission_verdict_def has_valid_attestation_iff has_valid_bundle_iff
        eq_commute [of TARGET_PRODUCTION])
qed

lemma sample_attestation_verifies:
  "verify_attestation example_crypto (sign_attestation example_crypto a k) k"
  by (simp add: verify_attestation_def sign_attestation_def Let_def b64decode_encode example_crypto_def)

theorem production_admission_iff_witness:
  "\<exists>d. check_admission sample_registry_config 1 ''w'' PRODUCTION DEFAULT_CONTEXT (sample_registry ''default'' CERTIFIED) =
      (Inr d, sample_registry ''default'' CERTIFIED) \<and> cd_admitted d"
proof -
  let ?st = "sample_registry ''default'' CERTIFIED"
  let ?a = "sign_attestation example_crypto (sample_attestation ''att-1'' ''w'' CERTIFIED TARGET_PRODUCTION 0) ''key''"
  let ?r = "fresh_record sample_registry_config 0 (sample_certified ''w'' CERTIFIED) 1 0 ''default'' False"
  have g: "get_workload ?st DEFAULT_CONTEXT ''w'' = Some ?r"
    by (simp add: sample_registry_def Let_def get_workload_Some fresh_record_def DEFAULT_CONTEXT_def DEFAULT_TENANT_ID_def scopes_def)
  have "store_get_attestation ?st DEFAULT_CONTEXT ''att-1'' = Some ?a"
    by (simp add: store_get_attestation_def sample_registry_def Let_def DEFAULT_CONTEXT_def DEFAULT_TENANT_ID_def scopes_def)
  moreover have "ws_certification (aw_spec (wl_manifest ?r)) = ws_certification (aw_spec (sample_certified ''w'' CERTIFIED))"
    by (simp add: fresh_record_def)
  moreover have "at_workload_id ?a = ''w''" by (simp add: sign_attestation_def sample_attestation_def Let_def)
  ultimately have "attested sample_registry_config 1 ?st ?r ''att-1'' ?a ''key''"
    by (simp add: attested_def sample_certified_def Let_def sample_registry_config_def resolve_key_def
        sample_attestation_verifies fresh_record_def) (simp add: sample_workload_def workload_name_def)
  then show ?thesis
    using production_admission_iff [OF g, of sample_registry_config 1, folded attested_default]
    by (auto simp: fresh_record_def sample_registry_config_def)
qed

section \<open>Where the registry trusts the manifest\<close>

text \<open>
  The certification status of an updated workload is the one its manifest declares, as long as the
  artifact hash stays the same. A quarantined workload is therefore admitted to staging again by an
  update whose manifest calls itself provisional or certified.
\<close>

lemma update_lifts_quarantine:
  assumes "registry_typed st" "get_workload st ctx name = Some e" "tools_ok st m" "workload_name m = name" "name \<noteq> []"
    and "tc_tenant_id ctx \<noteq> []" "length (tc_tenant_id ctx) \<le> 64"
    and "wl_certification_status e = QUARANTINED" "workload_certification_status m \<in> {CERTIFIED, PROVISIONAL}"
    and "wl_artifact_hash e = Some (ab_artifact_hash (compute_binding (rg_crypto cfg) m None))"
  shows "\<exists>d st'. snd (registry_update cfg now sa ta name m False ctx st) = st' \<and>
    check_admission cfg now' name STAGING ctx st' = (Inr d, st') \<and> cd_admitted d"
proof -
  let ?r = "revised cfg now sa m (tc_tenant_id ctx) e"
  obtain st' where u: "registry_update cfg now sa ta name m False ctx st = (Inr (Inl ?r), st')" "get_workload st' ctx name = Some ?r"
    using update_result [OF assms(1-7), of cfg now sa ta] by blast
  have "wl_certification_status ?r = workload_certification_status m" using assms(10) by (simp add: revised_status)
  with check_admission_result [OF u(2), of cfg now' STAGING] assms(9)
  show ?thesis by (auto simp: u(1) admission_verdict_def)
qed

text \<open>
  Applying the same manifest a second time forgets that the first application invalidated the
  certification: the second update sees no change, so the record is certified as the manifest
  declares and needs no re-certification.
\<close>

lemma changed_fields_status:
  assumes "ws_certification (aw_spec m) = Some cert"
  shows "changed_fields (with_status m status) m = []"
proof -
  have "changed_fields (m\<lparr>aw_spec := (aw_spec m)\<lparr>ws_certification := Some (cert\<lparr>cs_status := status\<rparr>)\<rparr>\<rparr>) m = []"
    unfolding changed_fields_def Let_def
    by (simp add: corpus_of_def runtime_differs_def same_runtime_def metadata_differs_def assms)
  then show ?thesis by (simp only: with_status_def assms option.case)
qed

lemma changed_fields_same: "changed_fields m m = []"
  by (simp add: changed_fields_def Let_def runtime_differs_def same_runtime_def metadata_differs_def)

lemma update_twice_forgets:
  assumes "r = revised cfg now sa m tenant e" "ws_certification (aw_spec m) = Some cert" "cs_status cert = CERTIFIED"
  shows "wl_certification_status (revised cfg now' sa' m tenant r) = CERTIFIED \<and>
    \<not> wl_needs_re_certification (revised cfg now' sa' m tenant r)"
proof -
  have "wl_artifact_hash r = Some (ab_artifact_hash (compute_binding (rg_crypto cfg) m None))"
    by (simp add: assms(1) revised_def fresh_record_def invalidate_for_production_def Let_def)
  moreover have "workload_certification_status m = CERTIFIED" using assms(2,3) by (simp add: workload_certification_status_def)
  moreover have "changed_fields (wl_manifest r) m = []"
  proof -
    have "wl_manifest r = m \<or> wl_manifest r = with_status m UNCERTIFIED"
      by (simp add: assms(1) revised_def fresh_record_def invalidate_for_production_def Let_def)
    then show ?thesis using changed_fields_same changed_fields_status [OF assms(2)] by (elim disjE) (simp_all only:)
  qed
  ultimately show ?thesis by (simp add: revised_status requires_re_certification_def)
qed

text \<open>
  A workload of another tenant than the default one whose attestations are stored under its own
  tenant is never admitted to production: the attestation is looked up as the default tenant.
\<close>

lemma other_tenants_never_in_production:
  assumes "get_workload st ctx name = Some r" "wl_tenant_id r \<noteq> DEFAULT_TENANT_ID" "wl_name r = name"
    and "\<And>i a. dict_get (rs_attestations st) i = Some a \<Longrightarrow> at_workload_id a = name \<Longrightarrow>
      dict_get (rs_attestation_tenants st) i = Some (wl_tenant_id r)"
  shows "\<exists>d. check_admission cfg now name PRODUCTION ctx st = (Inr d, st) \<and> \<not> cd_admitted d"
proof -
  have "\<not> attested cfg now st r i a key" for i a key
  proof
    assume "attested cfg now st r i a key"
    then have a: "store_get_attestation st DEFAULT_CONTEXT i = Some a" "at_workload_id a = name"
      using assms(3) by (auto simp: attested_def)
    have "dict_get (rs_attestations st) i = Some a"
      using a(1) by (auto simp: store_get_attestation_def split: option.splits if_splits)
    from assms(4) [OF this a(2)] a(1) assms(2) show False
      by (auto simp: store_get_attestation_def DEFAULT_CONTEXT_def scopes_def split: option.splits if_splits)
  qed
  then have "\<not> has_valid_attestation cfg now st r target" for target by (simp add: has_valid_attestation_iff)
  then have "\<not> admission_verdict cfg now st r PRODUCTION" by (simp add: admission_verdict_def)
  with check_admission_result [OF assms(1), of cfg now PRODUCTION] show ?thesis by auto
qed

text \<open>
  A change of the sandbox, the guards, the time windows, the secrets or the I/O schema is not listed
  among the changed fields.
\<close>

lemma changed_fields_blind:
  "changed_fields m (m\<lparr>aw_spec := (aw_spec m)\<lparr>ws_sandbox := sandbox, ws_guards := guards, ws_time_windows := windows,
     ws_secrets := secrets, ws_io := io\<rparr>\<rparr>) = []"
  unfolding changed_fields_def Let_def
  by (simp add: corpus_of_def runtime_differs_def same_runtime_def metadata_differs_def)

text \<open>
  Promotion sets the current version without looking at later ones, and an update files its manifest
  under the number after the current one: after promoting an older version, the next update
  overwrites a stored version.
\<close>

lemma update_overwrites_version:
  assumes "registry_typed st" "get_workload st ctx name = Some e" "tools_ok st m" "workload_name m = name" "name \<noteq> []"
    and "tc_tenant_id ctx \<noteq> []" "length (tc_tenant_id ctx) \<le> 64"
    and "dict_get (versions_of st name) (wl_current_version e + 1) = Some old" "wv_manifest old \<noteq> m"
  shows "\<exists>v. dict_get (versions_of (snd (registry_update cfg now sa ta name m False ctx st)) name) (wl_current_version e + 1) = Some v \<and>
    wv_manifest v = m"
proof -
  show ?thesis
    by (rule update_result [OF assms(1-7), of cfg now sa ta]) (simp add: new_version_def)
qed

text \<open>
  Storing an attestation checks for its id in the scope of the acting tenant only, so an attestation
  of another tenant with the same id is replaced.
\<close>

lemma attestation_overwritten:
  assumes "get_workload st ctx (at_workload_id a) = Some w" "dict_get (rs_attestations st) (at_attestation_id a) = Some b"
    and "dict_get (rs_attestation_tenants st) (at_attestation_id a) = Some t" "\<not> scopes ctx t"
  shows "\<exists>st'. store_attestation a ctx st = (Inr a, st') \<and> dict_get (rs_attestations st') (at_attestation_id a) = Some a"
  using assms
  by (auto simp: store_attestation_def store_get_attestation_def add_attestation_def parent_def requireR_def require_def
      get_workload_Some bindE_def thenE_def getE_def modifyE_def returnE_def)

text \<open>
  The id of a new trigger counts the triggers present: when the first of two triggers was deleted,
  the next one takes the id of the second and replaces it.
\<close>

lemma trigger_overwritten:
  assumes "get_workload st ctx name = Some r" "name \<noteq> []"
    and "dict_get (rs_triggers st) name = Some [(name @ ''-t2'', t)]"
  shows "\<exists>u st'. registry_add_trigger now name rule ctx st = (Inr u, st') \<and> tz_rule u = rule \<and>
    dict_get (rs_triggers st') name = Some [(name @ ''-t2'', u)]"
proof -
  have "char_of (50::nat) = CHR ''2''" by code_simp
  then have two: "nat_str 2 = ''2''" by (subst nat_str.simps) (simp add: digit_char_def)
  have "next_trigger_id st name ctx = name @ ''-t2''"
    using assms by (simp add: next_trigger_id_def store_list_triggers_def dict_get_default_def two numeral_2_eq_2 [symmetric])
  then have "wp (registry_add_trigger now name rule ctx) (\<lambda>u st'. tz_rule u = rule \<and>
      dict_get (rs_triggers st') name = Some [(name @ ''-t2'', u)]) (\<lambda>_ _. False) st"
    using assms
    by (simp add: registry_add_trigger_def make_trigger_def store_add_trigger_def wps) (simp add: get_workload_Some dict_get_default_def wps)
  from wp_returns [OF this] show ?thesis by blast
qed

end
