(* ===== verification/Progressive.thy ===== *)
theory Progressive
  imports Registry Run_Store
begin

text \<open>
  Progressive delivery: the models of \<open>progressive/models.py\<close>, the in-memory store of
  \<open>progressive/store.py\<close> and the canary, shadow and experiment services of \<open>canary.py\<close>,
  \<open>shadow.py\<close> and \<open>experiments.py\<close>. A store entry is kept with its tenant, which is the
  record's own. The SHA-256 bucket of a run id (\<open>learning/sampling.py\<close>), the runner of a shadow
  and the decimal text of a score are parameters.
\<close>

section \<open>Models\<close>

datatype canary_state = CANARY_PROPOSED | CANARY_ACTIVE | CANARY_PROMOTED | CANARY_ROLLED_BACK

datatype canary_arm = ARM_BASELINE | ARM_CANDIDATE

fun canary_arm_value :: "canary_arm \<Rightarrow> string" where
  "canary_arm_value ARM_BASELINE = ''baseline''"
| "canary_arm_value ARM_CANDIDATE = ''candidate''"

definition canary_arm_of :: "string \<Rightarrow> canary_arm option" where
  "canary_arm_of v = (if v = ''baseline'' then Some ARM_BASELINE else if v = ''candidate'' then Some ARM_CANDIDATE else None)"

record canary_rollout =
  co_rollout_id :: string
  co_workload_id :: string
  co_baseline_version :: int
  co_candidate_version :: int
  co_traffic_pct :: int
  co_eligible_rule :: "(string, json) dict"
  co_window_seconds :: int
  co_min_sample :: int
  co_blast_radius_cap :: "int option"
  co_state :: canary_state
  co_window_start :: time
  co_window_end :: time
  co_candidate_quarantined :: bool
  co_created_at :: time
  co_tenant_id :: string

record canary_sample =
  cm_sample_id :: string
  cm_rollout_id :: string
  cm_run_id :: string
  cm_arm :: canary_arm
  cm_metrics :: "(string, json) dict"
  cm_judge_score :: "rat option"
  cm_sampled_at :: time
  cm_tenant_id :: string

record canary_evaluation =
  cv_rollout_id :: string
  cv_state :: canary_state
  cv_baseline_samples :: nat
  cv_candidate_samples :: nat
  cv_baseline_error_rate :: rat
  cv_candidate_error_rate :: rat
  cv_baseline_judge_mean :: "rat option"
  cv_candidate_judge_mean :: "rat option"
  cv_sample_reached :: bool
  cv_blast_radius_exceeded :: bool
  cv_regression :: bool
  cv_ready :: bool
  cv_reason :: string

record canary_decision =
  cx_rollout_id :: string
  cx_action :: string
  cx_actor :: string
  cx_reason :: string

datatype shadow_status = SHADOW_COMPLETED | SHADOW_FAILED

record shadow_outcome =
  so_status :: shadow_status
  so_result :: "json option"
  so_cost_usd :: usd
  so_latency_ms :: int
  so_tool_calls :: "json list"
  so_policy_decisions :: "json list"
  so_failure_reason :: "string option"

record shadow_run =
  sh_shadow_run_id :: string
  sh_candidate_workload_id :: string
  sh_production_run_id :: string
  sh_input_ref :: string
  sh_candidate_version :: "int option"
  sh_outcome :: shadow_outcome
  sh_budget_id :: string
  sh_created_at :: time
  sh_tenant_id :: string

datatype experiment_state = EXPERIMENT_RUNNING | EXPERIMENT_COMPLETED

record experiment_campaign =
  xc_campaign_id :: string
  xc_workload_id :: string
  xc_state :: experiment_state
  xc_winner_arm_id :: "string option"
  xc_rationale :: "string option"
  xc_created_at :: time
  xc_tenant_id :: string

record experiment_arm =
  xa_arm_id :: string
  xa_campaign_id :: string
  xa_model_identity :: string
  xa_benchmark_run_id :: "string option"
  xa_score :: "rat option"
  xa_metrics :: "(string, json) dict"
  xa_created_at :: time
  xa_tenant_id :: string

section \<open>State\<close>

record 'l progressive =
  pg_shadow_runs :: "(string, shadow_run) dict"
  pg_rollouts :: "(string, canary_rollout) dict"
  pg_samples :: "canary_sample list"
  pg_campaigns :: "(string, experiment_campaign) dict"
  pg_arms :: "experiment_arm list"
  pg_registry :: registry_store
  pg_audit :: "'l option"

datatype progressive_error =
    ShadowNotFoundError string
  | ShadowBudgetExceededError string
  | CanaryNotFoundError string
  | CanaryNotAllowedError
  | ExperimentNotFoundError string
  | ProgressiveValidationError
  | ProgressiveArmError string
  | ProgressiveScopeError tenancy_error
  | ProgressiveRegistryError registry_error
  | ProgressiveAuditError audit_error
  | ShadowRunnerError

type_synonym ('l, 'a) progresses = "('l progressive, progressive_error, 'a) exec"

definition requireP :: "tenant_context \<Rightarrow> string \<Rightarrow> ('l, unit) progresses" where
  "requireP ctx tenant_id = (case require ctx tenant_id of
       Inl e \<Rightarrow> raiseE (ProgressiveScopeError e)
     | Inr _ \<Rightarrow> returnE ())"

definition tenant_ok :: "string \<Rightarrow> bool" where
  "tenant_ok t = (t \<noteq> [] \<and> length t \<le> 64)"

definition on_registry :: "'a registry \<Rightarrow> ('l, 'a) progresses" where
  "on_registry m = zoomE pg_registry (\<lambda>r s. s\<lparr>pg_registry := r\<rparr>) ProgressiveRegistryError m"

section \<open>The store\<close>

definition add_shadow_run :: "shadow_run \<Rightarrow> tenant_context \<Rightarrow> ('l, unit) progresses" where
  "add_shadow_run r ctx = thenE (requireP ctx (sh_tenant_id r))
     (modifyE (\<lambda>s. s\<lparr>pg_shadow_runs := dict_put (sh_shadow_run_id r) r (pg_shadow_runs s)\<rparr>))"

definition get_shadow_run :: "'l progressive \<Rightarrow> tenant_context \<Rightarrow> string \<Rightarrow> shadow_run option" where
  "get_shadow_run s ctx k = (case dict_get (pg_shadow_runs s) k of
       None \<Rightarrow> None | Some r \<Rightarrow> if scopes ctx (sh_tenant_id r) then Some r else None)"

definition list_shadow_runs ::
  "'l progressive \<Rightarrow> tenant_context \<Rightarrow> string option \<Rightarrow> string option \<Rightarrow> shadow_run list" where
  "list_shadow_runs s ctx workload budget_id =
     sort_key (\<lambda>r. (sh_created_at r, sh_shadow_run_id r))
       (filter (\<lambda>r. scopes ctx (sh_tenant_id r) \<and> (workload = None \<or> Some (sh_candidate_workload_id r) = workload) \<and>
          (budget_id = None \<or> Some (sh_budget_id r) = budget_id)) (dict_values (pg_shadow_runs s)))"

definition add_canary_rollout :: "canary_rollout \<Rightarrow> tenant_context \<Rightarrow> ('l, unit) progresses" where
  "add_canary_rollout r ctx = thenE (requireP ctx (co_tenant_id r))
     (modifyE (\<lambda>s. s\<lparr>pg_rollouts := dict_put (co_rollout_id r) r (pg_rollouts s)\<rparr>))"

definition get_canary_rollout :: "'l progressive \<Rightarrow> tenant_context \<Rightarrow> string \<Rightarrow> canary_rollout option" where
  "get_canary_rollout s ctx k = (case dict_get (pg_rollouts s) k of
       None \<Rightarrow> None | Some r \<Rightarrow> if scopes ctx (co_tenant_id r) then Some r else None)"

definition list_canary_rollouts :: "'l progressive \<Rightarrow> tenant_context \<Rightarrow> string option \<Rightarrow> canary_rollout list" where
  "list_canary_rollouts s ctx workload =
     sort_key (\<lambda>r. (co_created_at r, co_rollout_id r))
       (filter (\<lambda>r. scopes ctx (co_tenant_id r) \<and> (workload = None \<or> Some (co_workload_id r) = workload))
          (dict_values (pg_rollouts s)))"

definition add_canary_sample :: "canary_sample \<Rightarrow> tenant_context \<Rightarrow> ('l, unit) progresses" where
  "add_canary_sample r ctx = thenE (requireP ctx (cm_tenant_id r))
     (modifyE (\<lambda>s. s\<lparr>pg_samples := pg_samples s @ [r]\<rparr>))"

definition list_canary_samples :: "'l progressive \<Rightarrow> tenant_context \<Rightarrow> string \<Rightarrow> canary_sample list" where
  "list_canary_samples s ctx rollout_id =
     sort_key (\<lambda>r. (cm_sampled_at r, cm_sample_id r))
       (filter (\<lambda>r. scopes ctx (cm_tenant_id r) \<and> cm_rollout_id r = rollout_id) (pg_samples s))"

definition add_campaign :: "experiment_campaign \<Rightarrow> tenant_context \<Rightarrow> ('l, unit) progresses" where
  "add_campaign r ctx = thenE (requireP ctx (xc_tenant_id r))
     (modifyE (\<lambda>s. s\<lparr>pg_campaigns := dict_put (xc_campaign_id r) r (pg_campaigns s)\<rparr>))"

definition get_campaign :: "'l progressive \<Rightarrow> tenant_context \<Rightarrow> string \<Rightarrow> experiment_campaign option" where
  "get_campaign s ctx k = (case dict_get (pg_campaigns s) k of
       None \<Rightarrow> None | Some r \<Rightarrow> if scopes ctx (xc_tenant_id r) then Some r else None)"

text \<open>The first arm with the id is replaced in place, a new one goes to the end.\<close>

fun put_arm :: "experiment_arm \<Rightarrow> experiment_arm list \<Rightarrow> experiment_arm list" where
  "put_arm a [] = [a]"
| "put_arm a (b # bs) = (if xa_arm_id b = xa_arm_id a then a # bs else b # put_arm a bs)"

definition add_arm :: "experiment_arm \<Rightarrow> tenant_context \<Rightarrow> ('l, unit) progresses" where
  "add_arm r ctx = thenE (requireP ctx (xa_tenant_id r)) (modifyE (\<lambda>s. s\<lparr>pg_arms := put_arm r (pg_arms s)\<rparr>))"

definition get_arm :: "'l progressive \<Rightarrow> tenant_context \<Rightarrow> string \<Rightarrow> experiment_arm option" where
  "get_arm s ctx arm_id = List.find (\<lambda>a. xa_arm_id a = arm_id \<and> scopes ctx (xa_tenant_id a)) (pg_arms s)"

definition list_arms :: "'l progressive \<Rightarrow> tenant_context \<Rightarrow> string \<Rightarrow> experiment_arm list" where
  "list_arms s ctx campaign_id =
     sort_key (\<lambda>a. (xa_created_at a, xa_arm_id a))
       (filter (\<lambda>a. scopes ctx (xa_tenant_id a) \<and> xa_campaign_id a = campaign_id) (pg_arms s))"

section \<open>Canary rollouts\<close>

definition AUTOMATION_ACTOR :: string where
  "AUTOMATION_ACTOR = ''progressive-delivery''"

definition JUDGE_REGRESSION_MARGIN :: rat where
  "JUDGE_REGRESSION_MARGIN = 2 / 10"

text \<open>
  Equality of JSON values as Python compares them: booleans are numbers, numbers compare by
  value and dictionaries without regard to order.
\<close>

fun json_num :: "json \<Rightarrow> rat option" where
  "json_num (JBool b) = Some (if b then 1 else 0)"
| "json_num (JInt i) = Some (of_int i)"
| "json_num (JFloat r) = Some r"
| "json_num _ = None"

lemma size_json_list: "x \<in> set xs \<Longrightarrow> size x < Suc (size_list size xs)" for x :: json
  by (metis size_list_estimation' less_Suc_eq_le order_refl)

lemma size_json_obj: "(k, v) \<in> set d \<Longrightarrow> size v < Suc (size_list (size_prod (\<lambda>x. 0) size) d)" for v :: json
  using size_list_estimation' [of "(k, v)" d "size v" "size_prod (\<lambda>x. 0) size"] by simp

lemma size_json_zip: "(a, b) \<in> set (zip xs ys) \<Longrightarrow> size a < Suc (size_list size xs)" for a :: json
  by (meson set_zip_leftD size_json_list)

function json_eq :: "json \<Rightarrow> json \<Rightarrow> bool" where
  "json_eq a b = (case (json_num a, json_num b) of
       (Some x, Some y) \<Rightarrow> x = y
     | (None, None) \<Rightarrow>
         (case (a, b) of
            (JNull, JNull) \<Rightarrow> True
          | (JStr s, JStr t) \<Rightarrow> s = t
          | (JList xs, JList ys) \<Rightarrow> length xs = length ys \<and> list_all (\<lambda>(x, y). json_eq x y) (zip xs ys)
          | (JObj d, JObj e) \<Rightarrow> length d = length e \<and> list_all (\<lambda>(k, v). case dict_get e k of None \<Rightarrow> False | Some w \<Rightarrow> json_eq v w) d
          | _ \<Rightarrow> False)
     | _ \<Rightarrow> False)"
  by auto
termination
  by (relation "measure (size \<circ> fst)") (auto dest: size_json_obj size_json_zip)

definition is_eligible :: "canary_rollout \<Rightarrow> (string, json) dict \<Rightarrow> bool" where
  "is_eligible r attributes = list_all (\<lambda>(key, value).
     json_eq (case dict_get attributes key of None \<Rightarrow> JNull | Some v \<Rightarrow> v) value) (co_eligible_rule r)"

definition canary_get :: "string \<Rightarrow> tenant_context \<Rightarrow> ('l, canary_rollout) progresses" where
  "canary_get rollout_id ctx = bindE (getE (\<lambda>s. get_canary_rollout s ctx rollout_id)) (\<lambda>r. case r of
       None \<Rightarrow> raiseE (CanaryNotFoundError rollout_id)
     | Some x \<Rightarrow> returnE x)"

definition canary_audit ::
  "(time \<Rightarrow> string \<Rightarrow> string \<Rightarrow> string \<Rightarrow> string option \<Rightarrow> tenant_context \<Rightarrow> 'l \<Rightarrow> audit_error + (audit_record \<times> 'l)) \<Rightarrow>
   time \<Rightarrow> string \<Rightarrow> canary_rollout \<Rightarrow> string option \<Rightarrow> tenant_context \<Rightarrow> string \<Rightarrow> ('l, unit) progresses" where
  "canary_audit append_entry now action r reason ctx actor =
     bindE (getE pg_audit) (\<lambda>audit. case audit of
         None \<Rightarrow> returnE ()
       | Some l \<Rightarrow>
           (case append_entry now actor action (co_rollout_id r)
                (Some (co_workload_id r @ '' v'' @ int_str (co_candidate_version r) @ '': '' @ str_or reason [])) ctx l of
              Inl e \<Rightarrow> raiseE (ProgressiveAuditError e)
            | Inr (_, l') \<Rightarrow> modifyE (\<lambda>s. s\<lparr>pg_audit := Some l'\<rparr>)))"

definition rollout_valid :: "canary_rollout \<Rightarrow> bool" where
  "rollout_valid r = (co_rollout_id r \<noteq> [] \<and> co_workload_id r \<noteq> [] \<and> 1 \<le> co_baseline_version r \<and>
     1 \<le> co_candidate_version r \<and> 0 \<le> co_traffic_pct r \<and> co_traffic_pct r \<le> 100 \<and> 0 \<le> co_window_seconds r \<and>
     0 \<le> co_min_sample r \<and> (case co_blast_radius_cap r of None \<Rightarrow> True | Some c \<Rightarrow> 0 \<le> c) \<and> tenant_ok (co_tenant_id r))"

type_synonym 'l appender =
  "time \<Rightarrow> string \<Rightarrow> string \<Rightarrow> string \<Rightarrow> string option \<Rightarrow> tenant_context \<Rightarrow> 'l \<Rightarrow> audit_error + (audit_record \<times> 'l)"

definition canary_start ::
  "'l appender \<Rightarrow> string \<Rightarrow> time \<Rightarrow> time \<Rightarrow> string \<Rightarrow> int \<Rightarrow> int \<Rightarrow> int \<Rightarrow> int \<Rightarrow> int option \<Rightarrow> (string, json) dict \<Rightarrow>
   tenant_context \<Rightarrow> ('l, canary_rollout) progresses" where
  "canary_start append_entry new_id now audit_now workload candidate_version traffic_pct window_seconds min_sample cap rule ctx =
     bindE (on_registry (registry_get workload ctx)) (\<lambda>w.
       let r = \<lparr>co_rollout_id = new_id, co_workload_id = workload, co_baseline_version = wl_current_version w,
             co_candidate_version = candidate_version, co_traffic_pct = traffic_pct, co_eligible_rule = rule,
             co_window_seconds = window_seconds, co_min_sample = min_sample, co_blast_radius_cap = cap,
             co_state = CANARY_ACTIVE, co_window_start = now, co_window_end = now + microseconds window_seconds,
             co_candidate_quarantined = False, co_created_at = now, co_tenant_id = wl_tenant_id w\<rparr>
       in if \<not> rollout_valid r then raiseE ProgressiveValidationError
          else thenE (add_canary_rollout r ctx)
            (thenE (canary_audit append_entry audit_now ''canary.started'' r (Some ''started'') ctx AUTOMATION_ACTOR) (returnE r)))"

definition active_canary :: "'l progressive \<Rightarrow> tenant_context \<Rightarrow> string \<Rightarrow> canary_rollout option" where
  "active_canary s ctx workload =
     List.find (\<lambda>r. co_state r = CANARY_ACTIVE) (list_canary_rollouts s ctx (Some workload))"

text \<open>\<open>bucket\<close> is \<open>sample_bucket\<close>, a number below a hundred for a run id.\<close>

definition select_arm :: "(string \<Rightarrow> int) \<Rightarrow> string \<Rightarrow> string \<Rightarrow> bool \<Rightarrow> tenant_context \<Rightarrow> ('l, canary_arm) progresses" where
  "select_arm bucket rollout_id run_id eligible ctx =
     bindE (canary_get rollout_id ctx) (\<lambda>r.
     bindE (getE (\<lambda>s. list_canary_samples s ctx rollout_id)) (\<lambda>samples.
       if co_state r \<noteq> CANARY_ACTIVE \<or> \<not> eligible then returnE ARM_BASELINE
       else if (case co_blast_radius_cap r of
           None \<Rightarrow> False
         | Some cap \<Rightarrow> cap \<le> int (length (filter (\<lambda>x. cm_arm x = ARM_CANDIDATE) samples)))
       then returnE ARM_BASELINE
       else returnE (if bucket run_id < co_traffic_pct r then ARM_CANDIDATE else ARM_BASELINE)))"

definition canary_route :: "(string \<Rightarrow> int) \<Rightarrow> run \<Rightarrow> ('l, canary_assignment option) progresses" where
  "canary_route bucket r =
     (let ctx = context_for_run (r_tenant_id r) (r_team_id r) (r_attribution_key r) in
      bindE (getE (\<lambda>s. active_canary s ctx (r_workload_id r))) (\<lambda>rollout. case rollout of
          None \<Rightarrow> returnE None
        | Some ro \<Rightarrow>
            bindE (select_arm bucket (co_rollout_id ro) (r_id r) (is_eligible ro (r_task r)) ctx) (\<lambda>arm.
              returnE (Some \<lparr>ca_rollout_id = co_rollout_id ro, ca_arm = canary_arm_value arm,
                ca_candidate_version = Some (co_candidate_version ro)\<rparr>))))"

definition sample_valid :: "canary_sample \<Rightarrow> bool" where
  "sample_valid m = (cm_sample_id m \<noteq> [] \<and> cm_rollout_id m \<noteq> [] \<and> cm_run_id m \<noteq> [] \<and>
     (case cm_judge_score m of None \<Rightarrow> True | Some j \<Rightarrow> 0 \<le> j \<and> j \<le> 1) \<and> tenant_ok (cm_tenant_id m))"

definition record_sample ::
  "string \<Rightarrow> time \<Rightarrow> string \<Rightarrow> string \<Rightarrow> canary_arm \<Rightarrow> (string, json) dict \<Rightarrow> rat option \<Rightarrow> tenant_context \<Rightarrow>
   ('l, canary_sample) progresses" where
  "record_sample new_id now rollout_id run_id arm metrics judge ctx =
     bindE (canary_get rollout_id ctx) (\<lambda>r.
       let m = \<lparr>cm_sample_id = new_id, cm_rollout_id = rollout_id, cm_run_id = run_id, cm_arm = arm, cm_metrics = metrics,
             cm_judge_score = judge, cm_sampled_at = now, cm_tenant_id = co_tenant_id r\<rparr>
       in if \<not> sample_valid m then raiseE ProgressiveValidationError
          else thenE (add_canary_sample m ctx) (returnE m))"

fun json_truthy :: "json \<Rightarrow> bool" where
  "json_truthy JNull = False"
| "json_truthy (JBool b) = b"
| "json_truthy (JInt i) = (i \<noteq> 0)"
| "json_truthy (JFloat r) = (r \<noteq> 0)"
| "json_truthy (JStr s) = (s \<noteq> [])"
| "json_truthy (JList xs) = (xs \<noteq> [])"
| "json_truthy (JObj d) = (d \<noteq> [])"

definition sample_failed :: "canary_sample \<Rightarrow> bool" where
  "sample_failed m = (case dict_get (cm_metrics m) ''error'' of None \<Rightarrow> False | Some j \<Rightarrow> json_truthy j)"

definition error_rate :: "canary_sample list \<Rightarrow> rat" where
  "error_rate samples = (if samples = [] then 0 else of_nat (length (filter sample_failed samples)) / of_nat (length samples))"

definition judge_mean :: "canary_sample list \<Rightarrow> rat option" where
  "judge_mean samples =
     (let scored = List.map_filter cm_judge_score samples
      in if scored = [] then None else Some (sum_list scored / of_nat (length scored)))"

definition evaluation_reason :: "bool \<Rightarrow> bool \<Rightarrow> bool \<Rightarrow> nat \<Rightarrow> int \<Rightarrow> string" where
  "evaluation_reason sample_reached blast_radius_exceeded regression candidate_samples min_sample =
     (if regression then ''candidate regressed against baseline''
      else if blast_radius_exceeded then ''blast-radius cap exceeded''
      else if \<not> sample_reached then ''insufficient samples ('' @ nat_str candidate_samples @ ''/'' @ int_str min_sample @ '')''
      else ''clean window'')"

definition evaluate_samples :: "canary_rollout \<Rightarrow> canary_sample list \<Rightarrow> canary_evaluation" where
  "evaluate_samples r samples =
     (let baseline = filter (\<lambda>m. cm_arm m = ARM_BASELINE) samples;
          candidate = filter (\<lambda>m. cm_arm m = ARM_CANDIDATE) samples;
          sample_reached = (co_min_sample r \<le> int (length candidate) \<and> co_min_sample r \<le> int (length baseline));
          exceeded = (case co_blast_radius_cap r of None \<Rightarrow> False | Some cap \<Rightarrow> cap < int (length candidate));
          regression = (error_rate baseline + 1 / 10 ^ 9 < error_rate candidate \<or>
            (case (judge_mean baseline, judge_mean candidate) of
               (Some b, Some c) \<Rightarrow> c < b - JUDGE_REGRESSION_MARGIN
             | _ \<Rightarrow> False))
      in \<lparr>cv_rollout_id = co_rollout_id r, cv_state = co_state r, cv_baseline_samples = length baseline,
          cv_candidate_samples = length candidate, cv_baseline_error_rate = error_rate baseline,
          cv_candidate_error_rate = error_rate candidate, cv_baseline_judge_mean = judge_mean baseline,
          cv_candidate_judge_mean = judge_mean candidate, cv_sample_reached = sample_reached,
          cv_blast_radius_exceeded = exceeded, cv_regression = regression,
          cv_ready = (sample_reached \<and> \<not> regression \<and> \<not> exceeded),
          cv_reason = evaluation_reason sample_reached exceeded regression (length candidate) (co_min_sample r)\<rparr>)"

definition canary_evaluate :: "string \<Rightarrow> tenant_context \<Rightarrow> ('l, canary_evaluation) progresses" where
  "canary_evaluate rollout_id ctx =
     bindE (canary_get rollout_id ctx) (\<lambda>r.
     bindE (getE (\<lambda>s. list_canary_samples s ctx rollout_id)) (\<lambda>samples. returnE (evaluate_samples r samples)))"

definition canary_promote ::
  "'l appender \<Rightarrow> time \<Rightarrow> time \<Rightarrow> string \<Rightarrow> string \<Rightarrow> string option \<Rightarrow> tenant_context \<Rightarrow> ('l, canary_rollout) progresses" where
  "canary_promote append_entry now audit_now rollout_id operator reason ctx =
     bindE (canary_get rollout_id ctx) (\<lambda>r.
     bindE (on_registry (registry_promote now (co_workload_id r) (co_candidate_version r) ctx)) (\<lambda>_.
       let updated = r\<lparr>co_state := CANARY_PROMOTED\<rparr> in
       thenE (add_canary_rollout updated ctx)
         (thenE (canary_audit append_entry audit_now ''canary.promoted'' updated reason ctx operator) (returnE updated))))"

definition canary_abort ::
  "'l appender \<Rightarrow> time \<Rightarrow> time \<Rightarrow> string \<Rightarrow> string \<Rightarrow> string option \<Rightarrow> tenant_context \<Rightarrow> ('l, canary_rollout) progresses" where
  "canary_abort append_entry now audit_now rollout_id operator reason ctx =
     bindE (canary_get rollout_id ctx) (\<lambda>r.
     bindE (on_registry (registry_promote now (co_workload_id r) (co_baseline_version r) ctx)) (\<lambda>_.
       let updated = r\<lparr>co_state := CANARY_ROLLED_BACK, co_candidate_quarantined := True\<rparr> in
       thenE (add_canary_rollout updated ctx)
         (thenE (canary_audit append_entry audit_now ''canary.aborted'' updated reason ctx operator) (returnE updated))))"

definition auto_decide ::
  "'l appender \<Rightarrow> time \<Rightarrow> time \<Rightarrow> string \<Rightarrow> tenant_context \<Rightarrow> ('l, canary_decision) progresses" where
  "auto_decide append_entry now audit_now rollout_id ctx =
     bindE (canary_evaluate rollout_id ctx) (\<lambda>ev.
       let decision = (\<lambda>action. \<lparr>cx_rollout_id = rollout_id, cx_action = action, cx_actor = AUTOMATION_ACTOR, cx_reason = cv_reason ev\<rparr>)
       in if cv_regression ev
          then bindE (canary_abort append_entry now audit_now rollout_id AUTOMATION_ACTOR (Some (cv_reason ev)) ctx) (\<lambda>_. returnE (decision ''abort''))
          else if cv_ready ev
          then bindE (canary_promote append_entry now audit_now rollout_id AUTOMATION_ACTOR (Some (cv_reason ev)) ctx) (\<lambda>_. returnE (decision ''promote''))
          else returnE (decision ''none''))"

fun decide_rollouts ::
  "'l appender \<Rightarrow> time \<Rightarrow> (nat \<Rightarrow> time) \<Rightarrow> canary_rollout list \<Rightarrow> tenant_context \<Rightarrow> ('l, canary_decision list) progresses" where
  "decide_rollouts append_entry now clocks [] ctx = returnE []"
| "decide_rollouts append_entry now clocks (r # rs) ctx =
     (if co_state r = CANARY_ACTIVE \<and> co_window_end r \<le> now
      then bindE (auto_decide append_entry (clocks (2 * length rs)) (clocks (2 * length rs + 1)) (co_rollout_id r) ctx) (\<lambda>d.
             bindE (decide_rollouts append_entry now clocks rs ctx) (\<lambda>ds. returnE (d # ds)))
      else decide_rollouts append_entry now clocks rs ctx)"

definition decide_due ::
  "'l appender \<Rightarrow> time \<Rightarrow> (nat \<Rightarrow> time) \<Rightarrow> tenant_context \<Rightarrow> ('l, canary_decision list) progresses" where
  "decide_due append_entry now clocks ctx =
     bindE (getE (\<lambda>s. list_canary_rollouts s ctx None)) (\<lambda>rs. decide_rollouts append_entry now clocks rs ctx)"

definition canary_record ::
  "'l appender \<Rightarrow> string \<Rightarrow> (nat \<Rightarrow> time) \<Rightarrow> run \<Rightarrow> ('l, unit) progresses" where
  "canary_record append_entry new_id clocks r =
     (case (r_canary_rollout_id r, r_canary_arm r) of
        (Some rollout_id, Some arm) \<Rightarrow>
          (let ctx = context_for_run (r_tenant_id r) (r_team_id r) (r_attribution_key r) in
           case canary_arm_of arm of
             None \<Rightarrow> raiseE (ProgressiveArmError arm)
           | Some a \<Rightarrow>
               bindE (record_sample new_id (clocks 0) rollout_id (r_id r) a
                   [(''error'', JBool (r_state r = FAILED)), (''cost_usd'', JFloat (r_cost_usd r))] None ctx) (\<lambda>_.
               bindE (canary_get rollout_id ctx) (\<lambda>ro.
                 if co_state ro = CANARY_ACTIVE \<and> co_window_end ro \<le> clocks 1
                 then bindE (auto_decide append_entry (clocks 2) (clocks 3) rollout_id ctx) (\<lambda>_. returnE ())
                 else returnE ())))
      | _ \<Rightarrow> returnE ())"

section \<open>Shadow runs\<close>

definition latency_ms :: "run \<Rightarrow> int" where
  "latency_ms r = (case (r_started_at r, r_finished_at r) of
       (Some a, Some b) \<Rightarrow> max 0 ((b - a) div 1000)
     | _ \<Rightarrow> 0)"

record outcome_diff =
  od_output_changed :: bool
  od_cost_delta_usd :: usd
  od_latency_delta_ms :: int
  od_tool_calls_added :: "json list"
  od_tool_calls_removed :: "json list"
  od_policy_decisions_added :: "json list"
  od_policy_decisions_removed :: "json list"

definition json_in :: "json \<Rightarrow> json list \<Rightarrow> bool" where
  "json_in j js = list_ex (json_eq j) js"

definition opt_json_eq :: "json option \<Rightarrow> json option \<Rightarrow> bool" where
  "opt_json_eq a b = json_eq (case a of None \<Rightarrow> JNull | Some x \<Rightarrow> x) (case b of None \<Rightarrow> JNull | Some x \<Rightarrow> x)"

definition diff_shadow :: "run \<Rightarrow> shadow_run \<Rightarrow> int option \<Rightarrow> json list \<Rightarrow> json list \<Rightarrow> outcome_diff" where
  "diff_shadow production shadow latency tools policy =
     (let sh = sh_outcome shadow;
          ms = (case latency of None \<Rightarrow> latency_ms production | Some n \<Rightarrow> n)
      in \<lparr>od_output_changed = (\<not> opt_json_eq (r_result production) (so_result sh)),
          od_cost_delta_usd = so_cost_usd sh - r_cost_usd production,
          od_latency_delta_ms = so_latency_ms sh - ms,
          od_tool_calls_added = filter (\<lambda>c. \<not> json_in c tools) (so_tool_calls sh),
          od_tool_calls_removed = filter (\<lambda>c. \<not> json_in c (so_tool_calls sh)) tools,
          od_policy_decisions_added = filter (\<lambda>c. \<not> json_in c policy) (so_policy_decisions sh),
          od_policy_decisions_removed = filter (\<lambda>c. \<not> json_in c (so_policy_decisions sh)) policy\<rparr>)"

text \<open>\<open>runner\<close> gives the outcome of the mirrored run, or nothing when it raises.\<close>

definition shadow_start ::
  "(run \<Rightarrow> string \<Rightarrow> int option \<Rightarrow> string \<Rightarrow> shadow_outcome option) \<Rightarrow> usd option \<Rightarrow> string \<Rightarrow> time \<Rightarrow> run \<Rightarrow> string \<Rightarrow> int option \<Rightarrow>
   string \<Rightarrow> tenant_context \<Rightarrow> ('l, shadow_run) progresses" where
  "shadow_start runner cap new_id now production workload version budget_id ctx =
     bindE (getE (\<lambda>s. sum_list (map (so_cost_usd \<circ> sh_outcome) (list_shadow_runs s ctx None (Some budget_id))))) (\<lambda>spent.
       if (case cap of None \<Rightarrow> False | Some c \<Rightarrow> c \<le> spent) then raiseE (ShadowBudgetExceededError budget_id)
       else (case runner production workload version budget_id of
           None \<Rightarrow> raiseE ShadowRunnerError
         | Some outcome \<Rightarrow>
             (let r = \<lparr>sh_shadow_run_id = new_id, sh_candidate_workload_id = workload, sh_production_run_id = r_id production,
                    sh_input_ref = ''run:'' @ r_id production, sh_candidate_version = version, sh_outcome = outcome,
                    sh_budget_id = budget_id, sh_created_at = now, sh_tenant_id = r_tenant_id production\<rparr>
              in if new_id = [] \<or> workload = [] \<or> r_id production = [] \<or> budget_id = [] \<or>
                    (case version of None \<Rightarrow> False | Some v \<Rightarrow> v < 1) \<or> \<not> tenant_ok (r_tenant_id production)
                 then raiseE ProgressiveValidationError
                 else thenE (add_shadow_run r ctx) (returnE r))))"

definition shadow_get :: "string \<Rightarrow> tenant_context \<Rightarrow> ('l, shadow_run) progresses" where
  "shadow_get k ctx = bindE (getE (\<lambda>s. get_shadow_run s ctx k)) (\<lambda>r. case r of
       None \<Rightarrow> raiseE (ShadowNotFoundError k) | Some x \<Rightarrow> returnE x)"

section \<open>Experiments\<close>

definition campaign_get :: "string \<Rightarrow> tenant_context \<Rightarrow> ('l, experiment_campaign) progresses" where
  "campaign_get k ctx = bindE (getE (\<lambda>s. get_campaign s ctx k)) (\<lambda>r. case r of
       None \<Rightarrow> raiseE (ExperimentNotFoundError k) | Some x \<Rightarrow> returnE x)"

definition experiment_start ::
  "string \<Rightarrow> (nat \<Rightarrow> string) \<Rightarrow> time \<Rightarrow> string \<Rightarrow> string list \<Rightarrow> tenant_context \<Rightarrow> ('l, experiment_campaign) progresses" where
  "experiment_start new_id arm_ids now workload arms ctx =
     (if length arms < 2 then raiseE CanaryNotAllowedError
      else (let c = \<lparr>xc_campaign_id = new_id, xc_workload_id = workload, xc_state = EXPERIMENT_RUNNING,
              xc_winner_arm_id = None, xc_rationale = None, xc_created_at = now, xc_tenant_id = tc_tenant_id ctx\<rparr>
        in if new_id = [] \<or> workload = [] \<or> \<not> tenant_ok (tc_tenant_id ctx) then raiseE ProgressiveValidationError
           else thenE (add_campaign c ctx)
             (thenE (forE (List.enumerate 0 arms) (\<lambda>(i, model).
                if arm_ids i = [] \<or> model = [] then raiseE ProgressiveValidationError
                else add_arm \<lparr>xa_arm_id = arm_ids i, xa_campaign_id = new_id, xa_model_identity = model,
                  xa_benchmark_run_id = None, xa_score = None, xa_metrics = [], xa_created_at = now,
                  xa_tenant_id = tc_tenant_id ctx\<rparr> ctx))
              (returnE c))))"

definition record_result ::
  "string \<Rightarrow> string \<Rightarrow> rat option \<Rightarrow> (string, json) dict \<Rightarrow> tenant_context \<Rightarrow> ('l, experiment_arm) progresses" where
  "record_result arm_id benchmark score metrics ctx = bindE (getE (\<lambda>s. get_arm s ctx arm_id)) (\<lambda>arm. case arm of
       None \<Rightarrow> raiseE (ExperimentNotFoundError arm_id)
     | Some a \<Rightarrow> (let updated = a\<lparr>xa_benchmark_run_id := Some benchmark, xa_score := score, xa_metrics := metrics\<rparr>
         in thenE (add_arm updated ctx) (returnE updated)))"

definition select_winner :: "(rat \<Rightarrow> string) \<Rightarrow> string \<Rightarrow> tenant_context \<Rightarrow> ('l, experiment_campaign) progresses" where
  "select_winner fmt campaign_id ctx =
     bindE (campaign_get campaign_id ctx) (\<lambda>c.
     bindE (getE (\<lambda>s. filter (\<lambda>a. xa_score a \<noteq> None) (list_arms s ctx campaign_id))) (\<lambda>scored.
       let score = (\<lambda>a. case xa_score a of None \<Rightarrow> 0 | Some x \<Rightarrow> x);
           updated = (case max_by score scored of
               None \<Rightarrow> c\<lparr>xc_state := EXPERIMENT_COMPLETED,
                 xc_rationale := Some ''no arm produced a benchmark score; no winner selected''\<rparr>
             | Some w \<Rightarrow> c\<lparr>xc_state := EXPERIMENT_COMPLETED, xc_winner_arm_id := Some (xa_arm_id w),
                 xc_rationale := Some (xa_model_identity w @ '' scored '' @ fmt (score w) @ '' (benchmark '' @
                   (case xa_benchmark_run_id w of None \<Rightarrow> ''None'' | Some b \<Rightarrow> b) @ '')'')\<rparr>)
       in thenE (add_campaign updated ctx) (returnE updated)))"

declare json_eq.simps [simp del]

section \<open>What promoting and aborting do\<close>

lemma registry_promote_effect:
  assumes "registry_typed st" "registry_promote now name v ctx st = (Inr w', st')"
  shows "\<exists>w. get_workload st ctx name = Some w \<and> w' = w\<lparr>wl_needs_re_certification := False, wl_current_version := v, wl_updated_at := now\<rparr> \<and>
    st' = st\<lparr>rs_workloads := dict_put name w' (rs_workloads st)\<rparr>"
proof -
  have name: "wl_name w = name" if "get_workload st ctx name = Some w" for w
    using typed_record [OF assms(1) that] by simp
  have "wp (registry_promote now name v ctx)
     (\<lambda>w' st'. \<exists>w. get_workload st ctx name = Some w \<and> w' = w\<lparr>wl_needs_re_certification := False, wl_current_version := v, wl_updated_at := now\<rparr> \<and>
        st' = st\<lparr>rs_workloads := dict_put name w' (rs_workloads st)\<rparr>) (\<lambda>_ _. True) st"
    by (auto simp: registry_promote_def Let_def wps save_workload_def name split: option.split)
  then show ?thesis using assms(2) by (simp add: wp_def)
qed

lemma wp_requireP [wps]:
  "wp (requireP ctx t) Q E s = (if scopes ctx t then Q () s
     else E (ProgressiveScopeError (TenantScopeError (tc_tenant_id ctx) (''cannot access tenant '' @ py_repr t))) s)"
  by (simp add: requireP_def require_def wps)

lemma wp_canary_get [wps]:
  "wp (canary_get k ctx) Q E s = (case get_canary_rollout s ctx k of None \<Rightarrow> E (CanaryNotFoundError k) s | Some r \<Rightarrow> Q r s)"
  by (simp add: canary_get_def wps split: option.split)

lemma wp_canary_audit:
  assumes "\<And>t. pg_rollouts t = pg_rollouts s \<Longrightarrow> pg_registry t = pg_registry s \<Longrightarrow> pg_samples t = pg_samples s \<Longrightarrow> Q () t \<and> (\<forall>e. E e t)"
  shows "wp (canary_audit append_entry now action r reason ctx actor) Q E s"
  using assms by (auto simp: canary_audit_def wps split: option.split sum.split)

definition rollouts_ok :: "'l progressive \<Rightarrow> bool" where
  "rollouts_ok s = dict_all (\<lambda>k r. co_rollout_id r = k) (pg_rollouts s)"

lemma get_rollout_id: "rollouts_ok s \<Longrightarrow> get_canary_rollout s ctx k = Some r \<Longrightarrow> co_rollout_id r = k \<and> scopes ctx (co_tenant_id r)"
  unfolding rollouts_ok_def get_canary_rollout_def by (auto split: option.splits if_splits dest: dict_allD)

text \<open>The rollout becomes \<open>r'\<close> and the workload's current version \<open>v\<close>.\<close>

definition repointed :: "time \<Rightarrow> tenant_context \<Rightarrow> canary_rollout \<Rightarrow> int \<Rightarrow> 'l progressive \<Rightarrow> 'l progressive \<Rightarrow> bool" where
  "repointed now ctx r' v s t = (\<exists>w w'. get_workload (pg_registry s) ctx (co_workload_id r') = Some w \<and>
     w' = w\<lparr>wl_needs_re_certification := False, wl_current_version := v, wl_updated_at := now\<rparr> \<and>
     rs_workloads (pg_registry t) = dict_put (co_workload_id r') w' (rs_workloads (pg_registry s)) \<and>
     pg_rollouts t = dict_put (co_rollout_id r') r' (pg_rollouts s) \<and> pg_samples t = pg_samples s)"

lemma repoint_step:
  assumes "registry_typed (pg_registry s)" "scopes ctx (co_tenant_id r')"
  shows "wp (bindE (on_registry (registry_promote now (co_workload_id r') v ctx)) (\<lambda>_.
       thenE (add_canary_rollout r' ctx) (thenE (canary_audit append_entry audit_now action r' reason ctx operator) (returnE r'))))
     (\<lambda>x t. x = r' \<and> repointed now ctx r' v s t) (\<lambda>_ _. True) s"
proof (cases "registry_promote now (co_workload_id r') v ctx (pg_registry s)")
  case (Pair res st')
  show ?thesis
  proof (cases res)
    case (Inl e)
    then show ?thesis using Pair by (simp add: wpf on_registry_def wp_zoom) (simp add: wp_def)
  next
    case (Inr w')
    from registry_promote_effect [OF assms(1) Pair [unfolded Inr]] obtain w where
      w: "get_workload (pg_registry s) ctx (co_workload_id r') = Some w"
      "w' = w\<lparr>wl_needs_re_certification := False, wl_current_version := v, wl_updated_at := now\<rparr>"
      "st' = (pg_registry s)\<lparr>rs_workloads := dict_put (co_workload_id r') w' (rs_workloads (pg_registry s))\<rparr>"
      by blast
    let ?s = "s\<lparr>pg_registry := st', pg_rollouts := dict_put (co_rollout_id r') r' (pg_rollouts s)\<rparr>"
    have "wp (canary_audit append_entry audit_now action r' reason ctx operator)
       (\<lambda>_ t. repointed now ctx r' v s t) (\<lambda>_ _. True) ?s"
      by (rule wp_canary_audit) (use w in \<open>auto simp: repointed_def\<close>)
    moreover have "wp (registry_promote now (co_workload_id r') v ctx) Q E (pg_registry s) = Q w' st'" for Q E
      by (rule wp_value) (use Pair Inr in simp)
    ultimately show ?thesis
      using assms(2) by (simp add: wpf on_registry_def wp_zoom add_canary_rollout_def wp_requireP)
  qed
qed

lemma wp_canary_promote:
  assumes "registry_typed (pg_registry s)" "rollouts_ok s" "get_canary_rollout s ctx k = Some r"
  shows "wp (canary_promote append_entry now audit_now k operator reason ctx)
    (\<lambda>x t. x = r\<lparr>co_state := CANARY_PROMOTED\<rparr> \<and> repointed now ctx x (co_candidate_version r) s t) (\<lambda>_ _. True) s"
  using repoint_step [OF assms(1), of ctx "r\<lparr>co_state := CANARY_PROMOTED\<rparr>" now "co_candidate_version r" append_entry audit_now
      "''canary.promoted''" reason operator] get_rollout_id [OF assms(2,3)] assms(3)
  by (auto simp: canary_promote_def wp_bind wp_canary_get Let_def elim!: wp_conseq)

lemma wp_canary_abort:
  assumes "registry_typed (pg_registry s)" "rollouts_ok s" "get_canary_rollout s ctx k = Some r"
  shows "wp (canary_abort append_entry now audit_now k operator reason ctx)
    (\<lambda>x t. x = r\<lparr>co_state := CANARY_ROLLED_BACK, co_candidate_quarantined := True\<rparr> \<and>
       repointed now ctx x (co_baseline_version r) s t) (\<lambda>_ _. True) s"
  using repoint_step [OF assms(1), of ctx "r\<lparr>co_state := CANARY_ROLLED_BACK, co_candidate_quarantined := True\<rparr>" now
      "co_baseline_version r" append_entry audit_now "''canary.aborted''" reason operator] get_rollout_id [OF assms(2,3)] assms(3)
  by (auto simp: canary_abort_def wp_bind wp_canary_get Let_def elim!: wp_conseq)

section \<open>Properties\<close>

text \<open>The evidence for an abort and for a promotion, written over the two groups of samples.\<close>

definition regressed :: "canary_sample list \<Rightarrow> canary_sample list \<Rightarrow> bool" where
  "regressed baseline candidate =
     (error_rate baseline + 1 / 10 ^ 9 < error_rate candidate \<or>
      (\<exists>b c. judge_mean baseline = Some b \<and> judge_mean candidate = Some c \<and> c < b - 2 / 10))"

definition clean_window :: "canary_rollout \<Rightarrow> canary_sample list \<Rightarrow> canary_sample list \<Rightarrow> bool" where
  "clean_window r baseline candidate =
     (co_min_sample r \<le> int (length candidate) \<and> co_min_sample r \<le> int (length baseline) \<and>
      error_rate candidate \<le> error_rate baseline + 1 / 10 ^ 9 \<and>
      (case (judge_mean baseline, judge_mean candidate) of (Some b, Some c) \<Rightarrow> b - 2 / 10 \<le> c | _ \<Rightarrow> True) \<and>
      (case co_blast_radius_cap r of None \<Rightarrow> True | Some cap \<Rightarrow> int (length candidate) \<le> cap))"

lemma ready_clean: "cv_ready (evaluate_samples r samples) =
   clean_window r (filter (\<lambda>m. cm_arm m = ARM_BASELINE) samples) (filter (\<lambda>m. cm_arm m = ARM_CANDIDATE) samples)"
  by (auto simp: evaluate_samples_def clean_window_def Let_def JUDGE_REGRESSION_MARGIN_def not_less split: option.split)

lemma regression_regressed: "cv_regression (evaluate_samples r samples) =
   regressed (filter (\<lambda>m. cm_arm m = ARM_BASELINE) samples) (filter (\<lambda>m. cm_arm m = ARM_CANDIDATE) samples)"
  by (auto simp: evaluate_samples_def regressed_def Let_def JUDGE_REGRESSION_MARGIN_def split: option.split)

text \<open>
  C40: what the automation does with a rollout. An automated decision that returns is an abort exactly
  when the candidate samples show a higher error rate or a judge mean more than 0.2 lower than the baseline samples; a promotion exactly
  when they do not, both groups have the minimum number of samples, and the blast-radius cap is not
  exceeded; and otherwise nothing is changed. The minimum bounds promotions only: an abort happens with
  any number of samples. Neither decision looks at the version the workload has by now, at the state of the rollout, or at
  latency, cost or escalations. A promotion marks the
  rollout promoted and makes the candidate version current; an abort marks it rolled back,
  quarantines the candidate and makes the rollout's baseline version current; no other rollout,
  workload or sample changes.
\<close>

theorem canary_decision_exact:
  assumes "registry_typed (pg_registry s)" "rollouts_ok s" "get_canary_rollout s ctx k = Some r"
    and "baseline = filter (\<lambda>m. cm_arm m = ARM_BASELINE) (list_canary_samples s ctx k)"
    and "candidate = filter (\<lambda>m. cm_arm m = ARM_CANDIDATE) (list_canary_samples s ctx k)"
    and "auto_decide append_entry now audit_now k ctx s = (Inr d, t)"
  shows "(cx_action d = ''abort'' \<longleftrightarrow> regressed baseline candidate) \<and>
    (cx_action d = ''promote'' \<longleftrightarrow> clean_window r baseline candidate) \<and>
    (cx_action d = ''promote'' \<longrightarrow> repointed now ctx (r\<lparr>co_state := CANARY_PROMOTED\<rparr>) (co_candidate_version r) s t) \<and>
    (cx_action d = ''abort'' \<longrightarrow>
       repointed now ctx (r\<lparr>co_state := CANARY_ROLLED_BACK, co_candidate_quarantined := True\<rparr>) (co_baseline_version r) s t) \<and>
    (cx_action d \<noteq> ''promote'' \<and> cx_action d \<noteq> ''abort'' \<longrightarrow> t = s)"
proof -
  let ?ev = "evaluate_samples r (list_canary_samples s ctx k)"
  let ?P = "\<lambda>d t. (cx_action d = ''abort'' \<longleftrightarrow> cv_regression ?ev) \<and> (cx_action d = ''promote'' \<longleftrightarrow> cv_ready ?ev) \<and>
    (cx_action d = ''promote'' \<longrightarrow> repointed now ctx (r\<lparr>co_state := CANARY_PROMOTED\<rparr>) (co_candidate_version r) s t) \<and>
    (cx_action d = ''abort'' \<longrightarrow>
       repointed now ctx (r\<lparr>co_state := CANARY_ROLLED_BACK, co_candidate_quarantined := True\<rparr>) (co_baseline_version r) s t) \<and>
    (cx_action d \<noteq> ''promote'' \<and> cx_action d \<noteq> ''abort'' \<longrightarrow> t = s)"
  have excl: "cv_ready ?ev \<Longrightarrow> \<not> cv_regression ?ev" by (simp add: evaluate_samples_def Let_def)
  have ev: "wp (canary_evaluate k ctx) Q E s = Q ?ev s" for Q E
    using assms(3) by (simp add: canary_evaluate_def wps)
  have "wp (auto_decide append_entry now audit_now k ctx) ?P (\<lambda>_ _. True) s"
  proof (cases "cv_regression ?ev")
    case True
    have "wp (canary_abort append_entry now audit_now k AUTOMATION_ACTOR (Some (cv_reason ?ev)) ctx)
      (\<lambda>_. ?P \<lparr>cx_rollout_id = k, cx_action = ''abort'', cx_actor = AUTOMATION_ACTOR, cx_reason = cv_reason ?ev\<rparr>) (\<lambda>_ _. True) s"
      by (rule wp_conseq [OF wp_canary_abort [OF assms(1-3)]]) (use True excl in auto)
    then show ?thesis using True by (simp add: auto_decide_def Let_def wp_bind ev) (simp add: wpf)
  next
    case False
    show ?thesis
    proof (cases "cv_ready ?ev")
      case True
      have "wp (canary_promote append_entry now audit_now k AUTOMATION_ACTOR (Some (cv_reason ?ev)) ctx)
        (\<lambda>_. ?P \<lparr>cx_rollout_id = k, cx_action = ''promote'', cx_actor = AUTOMATION_ACTOR, cx_reason = cv_reason ?ev\<rparr>) (\<lambda>_ _. True) s"
        by (rule wp_conseq [OF wp_canary_promote [OF assms(1-3)]]) (use False True in auto)
      then show ?thesis using False True by (simp add: auto_decide_def Let_def wp_bind ev) (simp add: wpf)
    next
      case False
      then show ?thesis using \<open>\<not> cv_regression ?ev\<close> by (simp add: auto_decide_def Let_def wp_bind ev wps)
    qed
  qed
  then have "?P d t" using assms(6) by (simp add: wp_def)
  then show ?thesis unfolding ready_clean regression_regressed assms(4,5) .
qed

definition sample_rollout :: "int option \<Rightarrow> canary_rollout" where
  "sample_rollout cap = \<lparr>co_rollout_id = ''canary-1'', co_workload_id = ''w'', co_baseline_version = 1, co_candidate_version = 1,
     co_traffic_pct = 10, co_eligible_rule = [], co_window_seconds = 60, co_min_sample = 0, co_blast_radius_cap = cap,
     co_state = CANARY_ACTIVE, co_window_start = 0, co_window_end = 60000000, co_candidate_quarantined = False,
     co_created_at = 0, co_tenant_id = ''acme''\<rparr>"

definition sample_progressive :: "canary_rollout \<Rightarrow> audit_log progressive" where
  "sample_progressive r = \<lparr>pg_shadow_runs = [], pg_rollouts = [(''canary-1'', r)], pg_samples = [], pg_campaigns = [],
     pg_arms = [], pg_registry = sample_registry ''acme'' CERTIFIED, pg_audit = None\<rparr>"

lemma sample_promotes:
  "\<exists>w' st'. registry_promote 5 ''w'' 1 (context_for_run ''acme'' None None) (sample_registry ''acme'' CERTIFIED) = (Inr w', st')"
proof -
  obtain w where w: "get_workload (sample_registry ''acme'' CERTIFIED) (context_for_run ''acme'' None None) ''w'' = Some w"
    "wl_name w = ''w''" "wl_tenant_id w = ''acme''" "\<not> wl_needs_re_certification w"
    using sample_registry_workload [of "''acme''" CERTIFIED] by (simp add: fresh_record_def)
  have d: "dict_get (rs_workloads (sample_registry ''acme'' CERTIFIED)) ''w'' = Some w"
    using w(1) by (auto simp: get_workload_def split: option.splits if_splits)
  obtain v where "store_get_version (sample_registry ''acme'' CERTIFIED) (context_for_run ''acme'' None None) ''w'' 1 = Some v"
    using w(1) by (simp add: store_get_version_def sample_registry_def Let_def dict_get_default_def)
  then show ?thesis
    using w d by (simp add: registry_promote_def registry_get_def version_or_raise_def save_workload_def requireR_def require_def
        bindE_def thenE_def getE_def returnE_def modifyE_def Let_def)
qed

theorem canary_decision_exact_witness:
  "\<exists>d t. auto_decide (audit_append sha_example) 5 5 ''canary-1'' (context_for_run ''acme'' None None)
      (sample_progressive (sample_rollout None)) = (Inr d, t) \<and> cx_action d = ''promote'' \<and>
     dict_get (pg_rollouts t) ''canary-1'' = Some ((sample_rollout None)\<lparr>co_state := CANARY_PROMOTED\<rparr>)"
proof -
  let ?s = "sample_progressive (sample_rollout None)" and ?c = "context_for_run ''acme'' None None"
  have reg: "registry_typed (pg_registry ?s)" by (simp add: sample_progressive_def sample_registry_typed)
  have ok: "rollouts_ok ?s" by (simp add: rollouts_ok_def sample_progressive_def sample_rollout_def)
  have g: "get_canary_rollout ?s ?c ''canary-1'' = Some (sample_rollout None)"
    by (simp add: get_canary_rollout_def sample_progressive_def sample_rollout_def)
  have emp: "list_canary_samples ?s ?c ''canary-1'' = []" by (simp add: list_canary_samples_def sample_progressive_def)
  obtain w' st' where pr: "registry_promote 5 ''w'' 1 ?c (sample_registry ''acme'' CERTIFIED) = (Inr w', st')"
    using sample_promotes by blast
  have run: "\<exists>d t. auto_decide (audit_append sha_example) 5 5 ''canary-1'' ?c ?s = (Inr d, t)"
    using g emp pr
    by (simp add: auto_decide_def canary_evaluate_def canary_get_def bindE_def getE_def returnE_def evaluate_samples_def
        error_rate_def judge_mean_def map_filter_simps Let_def canary_promote_def thenE_def on_registry_def zoomE_def
        add_canary_rollout_def requireP_def require_def canary_audit_def modifyE_def sample_rollout_def sample_progressive_def)
  then obtain d t where d: "auto_decide (audit_append sha_example) 5 5 ''canary-1'' ?c ?s = (Inr d, t)" by blast
  have "clean_window (sample_rollout None) [] []"
    by (simp add: clean_window_def sample_rollout_def error_rate_def judge_mean_def map_filter_simps)
  then have "cx_action d = ''promote'' \<and> repointed 5 ?c ((sample_rollout None)\<lparr>co_state := CANARY_PROMOTED\<rparr>) 1 ?s t"
    using canary_decision_exact [OF reg ok g refl refl d] emp by (simp add: sample_rollout_def)
  then show ?thesis using d by (auto simp: repointed_def sample_rollout_def)
qed

text \<open>
  Two decisions the design excludes. One failed candidate sample aborts a rollout that asks for ten
  samples of each arm; and a rollout whose baseline is no longer the current version of the workload
  is promoted instead of aborted.
\<close>

definition failed_sample :: canary_sample where
  "failed_sample = \<lparr>cm_sample_id = ''s-1'', cm_rollout_id = ''canary-1'', cm_run_id = ''run-1'', cm_arm = ARM_CANDIDATE,
     cm_metrics = [(''error'', JBool True)], cm_judge_score = None, cm_sampled_at = 0, cm_tenant_id = ''acme''\<rparr>"

lemmas decision_run = auto_decide_def canary_evaluate_def canary_get_def bindE_def getE_def returnE_def evaluate_samples_def
  error_rate_def judge_mean_def map_filter_simps Let_def canary_promote_def canary_abort_def thenE_def on_registry_def zoomE_def
  add_canary_rollout_def requireP_def require_def canary_audit_def modifyE_def sample_rollout_def sample_progressive_def
  get_canary_rollout_def list_canary_samples_def

lemma abort_below_min_sample:
  "\<exists>d t. auto_decide (audit_append sha_example) 5 5 ''canary-1'' (context_for_run ''acme'' None None)
      (sample_progressive (sample_rollout None\<lparr>co_min_sample := 10\<rparr>)\<lparr>pg_samples := [failed_sample]\<rparr>) = (Inr d, t) \<and>
     cx_action d = ''abort''"
  using sample_promotes by (auto simp: decision_run failed_sample_def sample_failed_def)

lemma promote_after_baseline_change:
  "\<exists>w d t. get_workload (sample_registry ''acme'' CERTIFIED) (context_for_run ''acme'' None None) ''w'' = Some w \<and>
     wl_current_version w \<noteq> 7 \<and>
     auto_decide (audit_append sha_example) 5 5 ''canary-1'' (context_for_run ''acme'' None None)
       (sample_progressive (sample_rollout None\<lparr>co_baseline_version := 7\<rparr>)) = (Inr d, t) \<and> cx_action d = ''promote''"
proof -
  obtain w where "get_workload (sample_registry ''acme'' CERTIFIED) (context_for_run ''acme'' None None) ''w'' = Some w"
    "wl_current_version w = 1"
    using sample_registry_workload [of "''acme''" CERTIFIED] by (simp add: fresh_record_def)
  then show ?thesis using sample_promotes by (auto simp: decision_run)
qed

text \<open>
  What the arm of a run does not decide. The assignment carries the candidate version for both
  arms, so a run of the baseline arm is told the candidate version too; and repointing the
  current version keeps the workload's manifest, so an abort does not bring the baseline
  manifest back.
\<close>

lemma route_ignores_arm:
  assumes "canary_route bucket r s = (Inr (Some a), t)"
  shows "\<exists>ro. active_canary s (context_for_run (r_tenant_id r) (r_team_id r) (r_attribution_key r)) (r_workload_id r) = Some ro \<and>
    ca_candidate_version a = Some (co_candidate_version ro)"
  using assms
  by (auto simp: canary_route_def Let_def bindE_def getE_def returnE_def split: option.splits prod.splits sum.splits)

lemma baseline_arm_gets_candidate:
  "\<exists>a t. canary_route (\<lambda>_. 99) (sample_run ''acme'' ''run-1'' QUEUED\<lparr>r_workload_id := ''w''\<rparr>)
     (sample_progressive (sample_rollout None\<lparr>co_candidate_version := 2\<rparr>)) = (Inr (Some a), t) \<and>
     ca_arm a = ''baseline'' \<and> ca_candidate_version a = Some 2"
  by (simp add: canary_route_def Let_def bindE_def getE_def returnE_def active_canary_def list_canary_rollouts_def
      sample_progressive_def sample_rollout_def sample_run_def select_arm_def canary_get_def get_canary_rollout_def
      is_eligible_def)

lemma repointed_keeps_manifest:
  assumes "repointed now ctx r' v s t"
  shows "\<exists>w w'. get_workload (pg_registry s) ctx (co_workload_id r') = Some w \<and>
    dict_get (rs_workloads (pg_registry t)) (co_workload_id r') = Some w' \<and> wl_current_version w' = v \<and> wl_manifest w' = wl_manifest w"
  using assms by (auto simp: repointed_def)

text \<open>The cap on candidate runs counts finished samples, so it does not bound the runs in flight.\<close>

lemma cap_ignores_flight:
  assumes "co_state r = CANARY_ACTIVE" "bucket run_id < co_traffic_pct r" "get_canary_rollout s ctx k = Some r"
    "co_blast_radius_cap r = Some cap" "int (length (filter (\<lambda>x. cm_arm x = ARM_CANDIDATE) (list_canary_samples s ctx k))) < cap"
  shows "select_arm bucket k run_id True ctx s = (Inr ARM_CANDIDATE, s)"
  using assms by (simp add: select_arm_def canary_get_def bindE_def getE_def returnE_def)

text \<open>The arm an experiment selects has the best score among the arms with one.\<close>

lemma winner_best:
  assumes "select_winner fmt k ctx s = (Inr c, t)" and "a \<in> set (list_arms s ctx k)" "xa_score a = Some x"
  shows "\<exists>w y. w \<in> set (list_arms s ctx k) \<and> xc_winner_arm_id c = Some (xa_arm_id w) \<and> xa_score w = Some y \<and> x \<le> y"
proof -
  let ?score = "\<lambda>a. case xa_score a of None \<Rightarrow> 0 | Some x \<Rightarrow> x"
  let ?scored = "filter (\<lambda>a. xa_score a \<noteq> None) (list_arms s ctx k)"
  have a: "a \<in> set ?scored" using assms(2,3) by simp
  then have "?scored \<noteq> []" by (metis list.set_cases list.distinct(1) empty_iff empty_set)
  then obtain w where w: "max_by ?score ?scored = Some w" by (metis max_by_None not_Some_eq)
  have "w \<in> set ?scored" using w by (rule max_by_in_set)
  moreover have "?score a \<le> ?score w" using w a by (rule max_by_ge)
  moreover have "xc_winner_arm_id c = Some (xa_arm_id w)"
    using assms(1) w
    by (auto simp: select_winner_def campaign_get_def bindE_def thenE_def getE_def returnE_def Let_def add_campaign_def
        requireP_def raiseE_def modifyE_def split: option.splits sum.splits prod.splits)
  ultimately show ?thesis using assms(3) by auto
qed

end
