(* ===== verification/Admission.thy ===== *)
theory Admission
  imports Policy_Engine Budget Guards Approvals Defense Incident Sandboxes Fanout Progressive
begin

text \<open>
  The state the run lifecycle works on, the gates of \<open>execution/gates.py\<close> and the admission
  pipeline of \<open>execution/admission.py\<close>.

  \<open>run_world\<close> holds the stores of every collaborator a \<open>RunService\<close> is constructed with or has
  attached; an optional collaborator is an optional field. The protocols of \<open>gates.py\<close> are
  represented by the implementations the sources have: the registry for certification, the policy
  engine or the permissive gate, the budget service or the unlimited gate, the manifest for the
  sandbox, the incident service for the halt gate. A runtime adapter (\<open>RunExecutor\<close>) may call
  back into the control plane, so its methods are computations on the whole world; so are the
  evaluation and terminal hooks. \<open>NullRunExecutor\<close> is the executor of the sources.

  Every call reads the clock and the id factories at its own tick: \<open>sv_clock n i\<close> is the \<open>i\<close>-th
  reading of the \<open>n\<close>-th call. Telemetry spans and metrics have no effect on the state.
\<close>

section \<open>The state of the execution plane\<close>

record fleet_event =
  fv_event_type :: string
  fv_tenant_id :: string
  fv_run :: run
  fv_occurred_at :: time

record ('d, 'x) run_world =
  rw_runs :: run_store
  rw_registry :: registry_store
  rw_approvals :: "approval_service option"
  rw_budget :: budget_state
  rw_packs :: pack_store
  rw_halt :: "audit_log incident_service option"
  rw_guards :: "guard_state option"
  rw_scheduler :: "scheduler option"
  rw_tenants :: "tenant_store option"
  rw_audit :: "audit_log option"
  rw_defense :: "('d \<times> registry_store, audit_log) defense_guard option"
  rw_sandboxes :: "sandboxes option"
  rw_canary :: "audit_log progressive option"
  rw_fleet_events :: "fleet_event list option"
  rw_ticks :: nat
  rw_env :: 'x

datatype run_error =
    RunStoreFailure store_error
  | IllegalTransitionError string run_state run_state
  | RunNotIntervenableError string string
  | RunAdmissionRefusedError admission_result
  | RunValidationError string
  | RunContextError
  | RunRegistryFailure registry_error
  | RunTenantFailure tenancy_error
  | RunBudgetFailure budget_error
  | RunGuardFailure guard_error
  | RunApprovalFailure approval_error
  | RunAuditFailure audit_error
  | RunSandboxFailure sandbox_error
  | RunPolicyFailure window_error
  | RunDefenseFailure defense_error
  | RunCanaryFailure progressive_error
  | RunExternalFailure string

type_synonym ('d, 'x, 'a) serves = "(('d, 'x) run_world, run_error, 'a) exec"

text \<open>The \<open>RunExecutor\<close> protocol; \<open>reattach\<close> is looked up with \<open>getattr\<close> and may be missing.\<close>

record ('d, 'x) run_executor =
  ex_start :: "run_context \<Rightarrow> ('d, 'x, unit) serves"
  ex_pause :: "string \<Rightarrow> ('d, 'x, bool) serves"
  ex_resume :: "string \<Rightarrow> ('d, 'x, bool) serves"
  ex_cancel :: "string \<Rightarrow> ('d, 'x, unit) serves"
  ex_reattach :: "(run_context \<Rightarrow> ('d, 'x, bool) serves) option"

datatype policy_gate = PermissivePolicyGate | PolicyEngineGate

datatype budget_gate = UnlimitedBudgetGate | BudgetServiceGate

record ('d, 'x, 'sk, 'pk) run_config =
  sv_clock :: "nat \<Rightarrow> nat \<Rightarrow> time"
  sv_ids :: "nat \<Rightarrow> nat \<Rightarrow> string"
  sv_trace_id :: "nat \<Rightarrow> string option"
  sv_registry :: "('sk, 'pk) registry_config"
  sv_policy :: policy_gate
  sv_zone :: zone_db
  sv_budget :: budget_gate
  sv_meters_usage :: bool
  sv_cost_table :: cost_table
  sv_thresholds :: "int list"
  sv_fanout :: fanout_config
  sv_scheduler :: scheduler_config
  sv_guard_retention :: int
  sv_guard_limits :: "guard_limits option"
  sv_sha256 :: "string \<Rightarrow> string"
  sv_float :: "rat \<Rightarrow> string"
  sv_word_char :: "nat \<Rightarrow> bool"
  sv_lower :: "ucs \<Rightarrow> ucs"
  sv_quarantine :: "('d \<times> registry_store) quarantine_op"
  sv_bucket :: "string \<Rightarrow> int"
  sv_executor :: "('d, 'x) run_executor"
  sv_eval_hook :: "(run \<Rightarrow> ('d, 'x, unit) serves) option"
  sv_terminal_hook :: "(string \<Rightarrow> ('d, 'x, unit) serves) option"

section \<open>Calls on the collaborators\<close>

definition tickE :: "('d, 'x, nat) serves" where
  "tickE w = (Inr (rw_ticks w), w\<lparr>rw_ticks := rw_ticks w + 1\<rparr>)"

definition nowE :: "('d, 'x, 'sk, 'pk) run_config \<Rightarrow> ('d, 'x, time) serves" where
  "nowE cfg = bindE tickE (\<lambda>n. returnE (sv_clock cfg n 0))"

definition storeE :: "(run_store \<Rightarrow> store_error + run_store) \<Rightarrow> ('d, 'x, unit) serves" where
  "storeE f w = (case f (rw_runs w) of
       Inl e \<Rightarrow> (Inl (RunStoreFailure e), w)
     | Inr st \<Rightarrow> (Inr (), w\<lparr>rw_runs := st\<rparr>))"

definition registryE :: "'a registry \<Rightarrow> ('d, 'x, 'a) serves" where
  "registryE m = zoomE rw_registry (\<lambda>r w. w\<lparr>rw_registry := r\<rparr>) RunRegistryFailure m"

text \<open>A call on an optional collaborator, skipped when it is not attached.\<close>

definition optionalE ::
  "(('d, 'x) run_world \<Rightarrow> 't option) \<Rightarrow> ('t option \<Rightarrow> ('d, 'x) run_world \<Rightarrow> ('d, 'x) run_world) \<Rightarrow> ('e \<Rightarrow> run_error) \<Rightarrow>
   'a \<Rightarrow> ('t, 'e, 'a) exec \<Rightarrow> ('d, 'x, 'a) serves" where
  "optionalE get put err none m w = (case get w of
       None \<Rightarrow> (Inr none, w)
     | Some t \<Rightarrow> (case m t of (Inl e, t') \<Rightarrow> (Inl (err e), put (Some t') w) | (Inr x, t') \<Rightarrow> (Inr x, put (Some t') w)))"

definition auditE ::
  "('d, 'x, 'sk, 'pk) run_config \<Rightarrow> string \<Rightarrow> string \<Rightarrow> string \<Rightarrow> string option \<Rightarrow> tenant_context \<Rightarrow> ('d, 'x, unit) serves" where
  "auditE cfg actor action subject detail ctx =
     bindE (nowE cfg) (\<lambda>now.
       optionalE rw_audit (\<lambda>l w. w\<lparr>rw_audit := l\<rparr>) RunAuditFailure ()
         (\<lambda>l. case audit_append (sv_sha256 cfg) now actor action subject detail ctx l of
            Inl e \<Rightarrow> (Inl e, l) | Inr (_, l') \<Rightarrow> (Inr (), l')))"

text \<open>
  The defense guard and the canary service see the registry the world has: the quarantine
  service and the promotion of a rollout write to it.
\<close>

definition defense_view :: "('d, 'x) run_world \<Rightarrow> ('d \<times> registry_store, audit_log) defense_guard option" where
  "defense_view w = map_option (\<lambda>g. g\<lparr>dg_quarantine := map_option (\<lambda>(q, _). (q, rw_registry w)) (dg_quarantine g)\<rparr>) (rw_defense w)"

definition put_defense ::
  "('d \<times> registry_store, audit_log) defense_guard option \<Rightarrow> ('d, 'x) run_world \<Rightarrow> ('d, 'x) run_world" where
  "put_defense g w = w\<lparr>rw_defense := g,
     rw_registry := (case Option.bind g dg_quarantine of None \<Rightarrow> rw_registry w | Some (_, r) \<Rightarrow> r)\<rparr>"

definition canary_view :: "('d, 'x) run_world \<Rightarrow> audit_log progressive option" where
  "canary_view w = map_option (\<lambda>p. p\<lparr>pg_registry := rw_registry w\<rparr>) (rw_canary w)"

definition put_canary :: "audit_log progressive option \<Rightarrow> ('d, 'x) run_world \<Rightarrow> ('d, 'x) run_world" where
  "put_canary p w = w\<lparr>rw_canary := p, rw_registry := (case p of None \<Rightarrow> rw_registry w | Some q \<Rightarrow> pg_registry q)\<rparr>"

section \<open>Gates\<close>

definition attestation_model :: "('d, 'x, 'sk, 'pk) run_config \<Rightarrow> string \<Rightarrow> tenant_context \<Rightarrow> ('d, 'x, string option) serves" where
  "attestation_model cfg workload ctx =
     bindE (registryE (registry_list_attestations (sv_registry cfg) workload ctx)) (\<lambda>as.
       returnE (if as = [] then None else Some (at_model_identity (last as))))"

definition permissive_decision :: "time \<Rightarrow> policy_context \<Rightarrow> policy_decision" where
  "permissive_decision now c =
     \<lparr>pd_run_id = pc_run_id c, pd_outcome = ALLOW, pd_reason = ''policy engine not configured'', pd_rule = ''default-allow'',
      pd_action_class = pc_action_class c, pd_timestamp = now, pd_blast_radius = None,
      pd_certification_status = Some (pc_certification_status c), pd_pack_version = None,
      pd_detector_set_version = None, pd_dry_run = False\<rparr>"

definition policy_evaluate :: "('d, 'x, 'sk, 'pk) run_config \<Rightarrow> policy_context \<Rightarrow> ('d, 'x, policy_decision) serves" where
  "policy_evaluate cfg c = bindE tickE (\<lambda>n. case sv_policy cfg of
       PermissivePolicyGate \<Rightarrow> returnE (permissive_decision (sv_clock cfg n 0) c)
     | PolicyEngineGate \<Rightarrow> bindE (getE rw_packs) (\<lambda>packs.
         case evaluate (sv_zone cfg) (sv_clock cfg n 0) (sv_clock cfg n 1) packs c False of
           Inl e \<Rightarrow> raiseE (RunPolicyFailure e)
         | Inr d \<Rightarrow> returnE d))"

definition unlimited_check :: "agent_workload \<Rightarrow> usd \<Rightarrow> usd \<Rightarrow> budget_check" where
  "unlimited_check workload spent remaining =
     \<lparr>bc_allowed = True, bc_level = LEVEL_RUN, bc_limit_usd = bs_per_run_usd (ws_budget (aw_spec workload)),
      bc_spent_usd = spent, bc_remaining_usd = remaining, bc_reason = None\<rparr>"

definition cap_clock :: "(nat \<Rightarrow> time) \<Rightarrow> cost_period_kind \<Rightarrow> time" where
  "cap_clock clocks kind = clocks (2 + length (takeWhile (\<lambda>k. k \<noteq> kind) cost_period_kinds))"

definition budget_gate_check ::
  "('d, 'x, 'sk, 'pk) run_config \<Rightarrow> agent_workload \<Rightarrow> tenant_context \<Rightarrow> ('d, 'x, budget_check) serves" where
  "budget_gate_check cfg workload ctx = bindE tickE (\<lambda>n. case sv_budget cfg of
       UnlimitedBudgetGate \<Rightarrow> returnE (unlimited_check workload 0 (bs_per_run_usd (ws_budget (aw_spec workload))))
     | BudgetServiceGate \<Rightarrow>
         getE (\<lambda>w. budget_check_run (rw_budget w) ctx workload (sv_clock cfg n 0) (cap_clock (sv_clock cfg n))))"

definition budget_gate_usage ::
  "('d, 'x, 'sk, 'pk) run_config \<Rightarrow> agent_workload \<Rightarrow> usage_report \<Rightarrow> tenant_context \<Rightarrow> ('d, 'x, budget_outcome) serves" where
  "budget_gate_usage cfg workload report ctx = bindE tickE (\<lambda>n. case sv_budget cfg of
       UnlimitedBudgetGate \<Rightarrow>
         returnE \<lparr>bo_check = unlimited_check workload (ur_cost_usd report)
           (max 0 (bs_per_run_usd (ws_budget (aw_spec workload)) - ur_cost_usd report)), bo_cost_usd = ur_cost_usd report\<rparr>
     | BudgetServiceGate \<Rightarrow>
         zoomE rw_budget (\<lambda>b w. w\<lparr>rw_budget := b\<rparr>) RunBudgetFailure
           (budget_record_usage (sv_cost_table cfg) (sv_thresholds cfg) ctx workload report (sv_clock cfg n 0)
             (cap_clock (sv_clock cfg n)) (sv_ids cfg n 0)))"

definition sandbox_required :: "agent_workload \<Rightarrow> admission_context \<Rightarrow> action_class option \<Rightarrow> bool" where
  "sandbox_required workload context cls =
     (if context = SANDBOX then True
      else if cls = Some AC_DESTRUCTIVE then True
      else (case ws_sandbox (aw_spec workload) of None \<Rightarrow> False | Some sb \<Rightarrow> sx_enabled sb))"

text \<open>The limits of a workload: its manifest's guards over the defaults of the plane.\<close>

definition guard_limit_lookup :: "registry_store \<Rightarrow> guard_limits \<Rightarrow> string \<Rightarrow> guard_limits option" where
  "guard_limit_lookup reg defaults workload =
     Some (case get_workload reg SYSTEM_CONTEXT workload of
         None \<Rightarrow> defaults
       | Some w \<Rightarrow> (case ws_guards (aw_spec (wl_manifest w)) of
             None \<Rightarrow> defaults
           | Some g \<Rightarrow>
               \<lparr>gl_context_tokens = (case gs_context_tokens g of None \<Rightarrow> gl_context_tokens defaults | x \<Rightarrow> x),
                gl_context_warn_at = (case gs_context_warn_at g of None \<Rightarrow> gl_context_warn_at defaults | Some x \<Rightarrow> x),
                gl_velocity_window_seconds = (case gs_velocity_window_seconds g of None \<Rightarrow> gl_velocity_window_seconds defaults | Some x \<Rightarrow> x),
                gl_velocity_limit_usd = (case gs_velocity_limit_usd g of None \<Rightarrow> gl_velocity_limit_usd defaults | x \<Rightarrow> x),
                gl_velocity_multiplier = (case gs_velocity_multiplier g of None \<Rightarrow> gl_velocity_multiplier defaults | x \<Rightarrow> x)\<rparr>))"

subsection \<open>The default executor\<close>

definition null_put :: "string \<Rightarrow> run_state \<Rightarrow> ('d, (string, run_state) dict, unit) serves" where
  "null_put run_id state = modifyE (\<lambda>w. w\<lparr>rw_env := dict_put run_id state (rw_env w)\<rparr>)"

definition NullRunExecutor :: "('d, (string, run_state) dict) run_executor" where
  "NullRunExecutor = \<lparr>ex_start = (\<lambda>c. null_put (r_id (rx_run c)) RUNNING),
     ex_pause = (\<lambda>run_id. thenE (null_put run_id PAUSED) (returnE True)),
     ex_resume = (\<lambda>run_id. thenE (null_put run_id RUNNING) (returnE True)),
     ex_cancel = (\<lambda>run_id. null_put run_id CANCELLED),
     ex_reattach = None\<rparr>"

definition null_status :: "(string, run_state) dict \<Rightarrow> string \<Rightarrow> run_state" where
  "null_status states run_id = dict_get_default states run_id QUEUED"

section \<open>The admission pipeline\<close>

definition run_ctx :: "run \<Rightarrow> tenant_context" where
  "run_ctx r = context_for_run (r_tenant_id r) (r_team_id r) (r_attribution_key r)"

definition refused :: "run \<Rightarrow> admission_context \<Rightarrow> admission_check list \<Rightarrow> string \<Rightarrow> admission_result" where
  "refused r context checks reason =
     \<lparr>ar_run_id = r_id r, ar_workload = r_workload_id r, ar_context = context, ar_outcome = REFUSED,
      ar_checks = checks, ar_sandbox = False, ar_escalation_required = False, ar_refused_reason = Some reason\<rparr>"

definition gate_check :: "string \<Rightarrow> bool \<Rightarrow> string option \<Rightarrow> string \<Rightarrow> admission_check" where
  "gate_check step passed reason rule = \<lparr>ck_step = step, ck_passed = passed, ck_reason = reason, ck_rule = Some rule\<rparr>"

definition HALT_REASON :: string where
  "HALT_REASON = ''fleet halted: incident mode is active''"

definition halt_checks :: "('d, 'x) run_world \<Rightarrow> run \<Rightarrow> agent_workload \<Rightarrow> admission_check list" where
  "halt_checks w r workload = (case rw_halt w of
       None \<Rightarrow> []
     | Some sv \<Rightarrow> (let h = halted sv (Some (r_tenant_id r)) (Some (workload_name workload))
         in [gate_check ''halt'' (\<not> h) (if h then Some HALT_REASON else None) ''incident'']))"

definition model_ok :: "run \<Rightarrow> string option \<Rightarrow> bool" where
  "model_ok r bound = (r_model_identity r = None \<or> bound = None \<or> r_model_identity r = bound)"

definition admission_policy_context :: "run \<Rightarrow> agent_workload \<Rightarrow> admission_context \<Rightarrow> policy_context" where
  "admission_policy_context r workload context =
     \<lparr>pc_run_id = r_id r, pc_workload = workload_name workload, pc_team = workload_team workload,
      pc_tenant_id = r_tenant_id r, pc_environment = context, pc_action_class = None, pc_tool_id = None,
      pc_tool_trust = None, pc_data_sensitivity = INTERNAL,
      pc_certification_status = workload_certification_status workload, pc_tools = None,
      pc_approval_required_for = [], pc_injection_detected = False, pc_budget_exhausted = False,
      pc_taint_untrusted = False, pc_at = None, pc_time_windows = []\<rparr>"

definition pipeline_check ::
  "('d, 'x, 'sk, 'pk) run_config \<Rightarrow> run \<Rightarrow> agent_workload \<Rightarrow> bool \<Rightarrow> ('d, 'x, admission_result) serves" where
  "pipeline_check cfg r workload require_approval = (case r_context r of
       None \<Rightarrow> raiseE RunContextError
     | Some context \<Rightarrow>
         (let name = workload_name workload; ctx = run_ctx r in
          bindE (getE (\<lambda>w. halt_checks w r workload)) (\<lambda>checks0.
          if \<not> list_all ck_passed checks0 then returnE (refused r context checks0 HALT_REASON)
          else bindE (nowE cfg) (\<lambda>now.
          bindE (registryE (check_admission (sv_registry cfg) now name context ctx)) (\<lambda>decision.
          let checks1 = checks0 @ [gate_check ''certification'' (cd_admitted decision) (cd_reason decision) ''certification''] in
          if \<not> cd_admitted decision
          then returnE (refused r context checks1 (str_or (cd_reason decision) ''admission refused''))
          else bindE (attestation_model cfg name ctx) (\<lambda>bound.
          let ok = model_ok r bound;
              checks2 = checks1 @ [gate_check ''model_identity'' ok
                (if ok then None else Some ''runtime model does not match attestation model'') ''model_binding''] in
          if \<not> ok then returnE (refused r context checks2 ''model swap: runtime model differs from attestation'')
          else bindE (budget_gate_check cfg workload ctx) (\<lambda>budget.
          let checks3 = checks2 @ [gate_check ''budget'' (bc_allowed budget) (bc_reason budget) (budget_level_value (bc_level budget))] in
          if \<not> bc_allowed budget
          then returnE (refused r context checks3 (str_or (bc_reason budget) ''budget exhausted''))
          else bindE (policy_evaluate cfg (admission_policy_context r workload context)) (\<lambda>policy.
          let checks4 = checks3 @ [gate_check ''policy'' (pd_outcome policy = ALLOW) (Some (pd_reason policy)) (pd_rule policy)] in
          if pd_outcome policy \<in> {DENY, BLOCK_INJECTION}
          then returnE (refused r context checks4 (pd_reason policy))
          else (let required = sandbox_required workload context (pd_action_class policy)
            in returnE \<lparr>ar_run_id = r_id r, ar_workload = name, ar_context = context,
                 ar_outcome = (if context = SANDBOX \<or> required then SANDBOX_ONLY else ADMITTED),
                 ar_checks = checks4 @ [gate_check ''sandbox'' True None ''sandbox''],
                 ar_sandbox = required,
                 ar_escalation_required = (pd_outcome policy = ESCALATE \<or> require_approval),
                 ar_refused_reason = None\<rparr>)))))))))"

section \<open>When a run is admitted\<close>

text \<open>What the gates answer at the readings of the clock that the pipeline makes.\<close>

definition halt_open :: "('d, 'x) run_world \<Rightarrow> run \<Rightarrow> agent_workload \<Rightarrow> bool" where
  "halt_open w r workload = (case rw_halt w of
       None \<Rightarrow> True
     | Some sv \<Rightarrow> \<not> halted sv (Some (r_tenant_id r)) (Some (workload_name workload)))"

definition bound_model :: "('d, 'x) run_world \<Rightarrow> string \<Rightarrow> tenant_context \<Rightarrow> string option" where
  "bound_model w name ctx = (let as = store_list_attestations (rw_registry w) ctx name
     in if as = [] then None else Some (at_model_identity (last as)))"

definition budget_answer :: "('d, 'x, 'sk, 'pk) run_config \<Rightarrow> ('d, 'x) run_world \<Rightarrow> agent_workload \<Rightarrow> tenant_context \<Rightarrow> budget_check" where
  "budget_answer cfg w workload ctx = (case sv_budget cfg of
       UnlimitedBudgetGate \<Rightarrow> unlimited_check workload 0 (bs_per_run_usd (ws_budget (aw_spec workload)))
     | BudgetServiceGate \<Rightarrow> budget_check_run (rw_budget w) ctx workload (sv_clock cfg (rw_ticks w + 1) 0)
         (cap_clock (sv_clock cfg (rw_ticks w + 1))))"

definition policy_answer :: "('d, 'x, 'sk, 'pk) run_config \<Rightarrow> ('d, 'x) run_world \<Rightarrow> policy_context \<Rightarrow> policy_decision" where
  "policy_answer cfg w c = (case sv_policy cfg of
       PermissivePolicyGate \<Rightarrow> permissive_decision (sv_clock cfg (rw_ticks w + 2) 0) c
     | PolicyEngineGate \<Rightarrow> projr (evaluate (sv_zone cfg) (sv_clock cfg (rw_ticks w + 2) 0) (sv_clock cfg (rw_ticks w + 2) 1) (rw_packs w) c False))"

definition policy_open :: "policy_decision \<Rightarrow> bool" where
  "policy_open d = (pd_outcome d \<notin> {DENY, BLOCK_INJECTION})"

definition gates_open ::
  "('d, 'x, 'sk, 'pk) run_config \<Rightarrow> ('d, 'x) run_world \<Rightarrow> run \<Rightarrow> agent_workload \<Rightarrow> admission_context \<Rightarrow> workload_record \<Rightarrow> bool" where
  "gates_open cfg w r workload context rec \<longleftrightarrow>
     halt_open w r workload \<and>
     admission_verdict (sv_registry cfg) (sv_clock cfg (rw_ticks w) 0) (rw_registry w) rec context \<and>
     model_ok r (bound_model w (workload_name workload) (run_ctx r)) \<and>
     bc_allowed (budget_answer cfg w workload (run_ctx r)) \<and>
     policy_open (policy_answer cfg w (admission_policy_context r workload context))"

lemma halt_checks_open: "list_all ck_passed (halt_checks w r workload) = halt_open w r workload"
  by (simp add: halt_checks_def halt_open_def gate_check_def Let_def split: option.split)

lemma evaluate_no_tool: "pc_tool_id c = None \<Longrightarrow> \<exists>d. evaluate zone t1 t2 packs c False = Inr d"
  by (simp add: evaluate_def Let_def split: option.split)

lemma run_now: "nowE cfg w = (Inr (sv_clock cfg (rw_ticks w) 0), w\<lparr>rw_ticks := rw_ticks w + 1\<rparr>)"
  by (simp add: nowE_def tickE_def bindE_def returnE_def)

lemma forE_checks:
  "forE as (\<lambda>a. whenE (\<not> P a) (raiseE (f a))) s = (case List.find (\<lambda>a. \<not> P a) as of None \<Rightarrow> (Inr (), s) | Some a \<Rightarrow> (Inl (f a), s))"
  by (induction as) (auto simp: thenE_def bindE_def whenE_def raiseE_def returnE_def)

lemma run_attestation_model:
  assumes "get_workload (rw_registry w) ctx name = Some rec"
    and "list_all (verifies (sv_registry cfg)) (store_list_attestations (rw_registry w) ctx name)"
  shows "attestation_model cfg name ctx w = (Inr (bound_model w name ctx), w)"
proof -
  have "List.find (\<lambda>a. \<not> verifies (sv_registry cfg) a) (store_list_attestations (rw_registry w) ctx name) = None"
    using assms(2) by (auto simp: find_None_iff list_all_iff)
  then show ?thesis
    using assms(1)
    by (simp add: attestation_model_def bound_model_def registryE_def zoomE_def registry_list_attestations_def registry_get_def
        bindE_def getE_def thenE_def forE_checks returnE_def Let_def)
qed

lemma run_check_admission:
  assumes "get_workload (rw_registry w) ctx name = Some rec"
  shows "\<exists>d. registryE (check_admission rc now name context ctx) w = (Inr d, w) \<and>
    cd_admitted d = admission_verdict rc now (rw_registry w) rec context"
  using check_admission_result [OF assms, of rc now "context"] by (auto simp: registryE_def zoomE_def)

lemma run_budget_check:
  "rw_ticks v = rw_ticks w + 1 \<Longrightarrow> rw_budget v = rw_budget w \<Longrightarrow>
   budget_gate_check cfg workload ctx v = (Inr (budget_answer cfg w workload ctx), v\<lparr>rw_ticks := rw_ticks v + 1\<rparr>)"
  by (simp add: budget_gate_check_def budget_answer_def bindE_def tickE_def getE_def returnE_def split: budget_gate.split)

lemma run_policy:
  assumes "rw_ticks v = rw_ticks w + 2" "rw_packs v = rw_packs w" "pc_tool_id c = None"
  shows "policy_evaluate cfg c v = (Inr (policy_answer cfg w c), v\<lparr>rw_ticks := rw_ticks v + 1\<rparr>)"
proof -
  obtain d where "evaluate (sv_zone cfg) (sv_clock cfg (rw_ticks w + 2) 0) (sv_clock cfg (rw_ticks w + 2) 1) (rw_packs w) c False = Inr d"
    using evaluate_no_tool [OF assms(3)] by blast
  then show ?thesis
    using assms by (simp add: policy_evaluate_def policy_answer_def bindE_def tickE_def getE_def returnE_def split: policy_gate.split)
qed

definition refusal_ok :: "admission_result \<Rightarrow> bool" where
  "refusal_ok res \<longleftrightarrow> ar_outcome res = REFUSED \<and> ar_refused_reason res \<noteq> None \<and> \<not> list_all ck_passed (ar_checks res)"

definition admits_as :: "agent_workload \<Rightarrow> admission_context \<Rightarrow> bool \<Rightarrow> policy_decision \<Rightarrow> admission_result \<Rightarrow> bool" where
  "admits_as workload context require_approval policy res \<longleftrightarrow>
     ar_sandbox res = sandbox_required workload context (pd_action_class policy) \<and>
     ar_outcome res = (if context = SANDBOX \<or> ar_sandbox res then SANDBOX_ONLY else ADMITTED) \<and>
     (ar_escalation_required res \<longleftrightarrow> require_approval \<or> pd_outcome policy = ESCALATE)"

lemma admits_as_outcome: "admits_as workload context require_approval policy res \<Longrightarrow> ar_outcome res \<noteq> REFUSED"
  by (simp add: admits_as_def)

lemma refused_ok: "\<not> list_all ck_passed checks \<Longrightarrow> refusal_ok (refused r context checks reason)"
  by (simp add: refusal_ok_def refused_def)

lemma admission_evaluates:
  assumes c: "r_context r = Some context" and rec: "get_workload (rw_registry w) (run_ctx r) (workload_name workload) = Some rec"
    and ver: "list_all (verifies (sv_registry cfg)) (store_list_attestations (rw_registry w) (run_ctx r) (workload_name workload))"
  shows "\<exists>res n. pipeline_check cfg r workload require_approval w = (Inr res, w\<lparr>rw_ticks := rw_ticks w + n\<rparr>) \<and>
    ar_run_id res = r_id r \<and>
    (if gates_open cfg w r workload context rec
     then admits_as workload context require_approval (policy_answer cfg w (admission_policy_context r workload context)) res
     else refusal_ok res)"
proof -
  let ?w1 = "w\<lparr>rw_ticks := Suc (rw_ticks w)\<rparr>" and ?n = "workload_name workload" and ?c = "admission_policy_context r workload context"
  let ?w2 = "w\<lparr>rw_ticks := Suc (Suc (rw_ticks w))\<rparr>" and ?w3 = "w\<lparr>rw_ticks := Suc (Suc (Suc (rw_ticks w)))\<rparr>"
  let ?m = "bound_model w ?n (run_ctx r)" and ?b = "budget_answer cfg w workload (run_ctx r)" and ?p = "policy_answer cfg w ?c"
  have r1: "get_workload (rw_registry ?w1) (run_ctx r) ?n = Some rec" using rec by simp
  obtain d where d: "registryE (check_admission (sv_registry cfg) (sv_clock cfg (rw_ticks w) 0) ?n context (run_ctx r)) ?w1 = (Inr d, ?w1)"
    "cd_admitted d = admission_verdict (sv_registry cfg) (sv_clock cfg (rw_ticks w) 0) (rw_registry w) rec context"
    using run_check_admission [OF r1, of "sv_registry cfg" "sv_clock cfg (rw_ticks w) 0" "context"] by auto
  have m: "attestation_model cfg ?n (run_ctx r) ?w1 = (Inr ?m, ?w1)"
    using run_attestation_model [OF r1, of cfg] ver by (simp add: bound_model_def)
  have b: "budget_gate_check cfg workload (run_ctx r) ?w1 = (Inr ?b, ?w2)"
    using run_budget_check [of ?w1 w cfg workload "run_ctx r"] by simp
  have p: "policy_evaluate cfg ?c ?w2 = (Inr ?p, ?w3)"
    using run_policy [of ?w2 w ?c cfg] by (simp add: admission_policy_context_def)
  note run = pipeline_check_def c bindE_def getE_def returnE_def run_now Let_def
  have ref: "\<exists>res n. pipeline_check cfg r workload require_approval w = (Inr res, w\<lparr>rw_ticks := rw_ticks w + n\<rparr>) \<and>
      ar_run_id res = r_id r \<and> refusal_ok res"
    if "pipeline_check cfg r workload require_approval w = (Inr (refused r context checks reason), w')"
      "w' = w\<lparr>rw_ticks := rw_ticks w + n\<rparr>" "\<not> list_all ck_passed checks" for checks reason n w'
    using that refused_ok [OF that(3), of r "context" reason]
    by (intro exI [of _ "refused r context checks reason"] exI [of _ n]) (simp add: refused_def)
  let ?h = "halt_checks w r workload"
  let ?k1 = "?h @ [gate_check ''certification'' (cd_admitted d) (cd_reason d) ''certification'']"
  let ?k2 = "?k1 @ [gate_check ''model_identity'' (model_ok r ?m)
                (if model_ok r ?m then None else Some ''runtime model does not match attestation model'') ''model_binding'']"
  let ?k3 = "?k2 @ [gate_check ''budget'' (bc_allowed ?b) (bc_reason ?b) (budget_level_value (bc_level ?b))]"
  let ?k4 = "?k3 @ [gate_check ''policy'' (pd_outcome ?p = ALLOW) (Some (pd_reason ?p)) (pd_rule ?p)]"
  consider (halt) "\<not> halt_open w r workload"
    | (cert) "halt_open w r workload" "\<not> cd_admitted d"
    | (model) "halt_open w r workload" "cd_admitted d" "\<not> model_ok r ?m"
    | (budget) "halt_open w r workload" "cd_admitted d" "model_ok r ?m" "\<not> bc_allowed ?b"
    | (policy) "halt_open w r workload" "cd_admitted d" "model_ok r ?m" "bc_allowed ?b" "\<not> policy_open ?p"
    | (admit) "halt_open w r workload" "cd_admitted d" "model_ok r ?m" "bc_allowed ?b" "policy_open ?p"
    by blast
  then show ?thesis
  proof cases
    case halt
    then have "pipeline_check cfg r workload require_approval w = (Inr (refused r context ?h HALT_REASON), w)"
      by (simp add: run halt_checks_open)
    from ref [OF this, of 0] halt show ?thesis by (simp add: halt_checks_open gates_open_def)
  next
    case cert
    then have "pipeline_check cfg r workload require_approval w =
        (Inr (refused r context ?k1 (str_or (cd_reason d) ''admission refused'')), ?w1)"
      by (simp add: run halt_checks_open d(1))
    from ref [OF this, of 1] cert show ?thesis by (simp add: gate_check_def gates_open_def d(2) [symmetric])
  next
    case model
    then have "pipeline_check cfg r workload require_approval w =
        (Inr (refused r context ?k2 ''model swap: runtime model differs from attestation''), ?w1)"
      by (simp add: run halt_checks_open d(1) m)
    from ref [OF this, of 1] model show ?thesis by (simp add: gate_check_def gates_open_def)
  next
    case budget
    then have "pipeline_check cfg r workload require_approval w =
        (Inr (refused r context ?k3 (str_or (bc_reason ?b) ''budget exhausted'')), ?w2)"
      by (simp add: run halt_checks_open d(1) m b)
    from ref [OF this, of 2] budget show ?thesis by (simp add: gate_check_def gates_open_def)
  next
    case policy
    then have "pipeline_check cfg r workload require_approval w = (Inr (refused r context ?k4 (pd_reason ?p)), ?w3)"
      by (simp add: run halt_checks_open d(1) m b p policy_open_def)
    from ref [OF this, of 3] policy show ?thesis by (auto simp: gate_check_def gates_open_def policy_open_def)
  next
    case admit
    then have "\<exists>res. pipeline_check cfg r workload require_approval w = (Inr res, ?w3) \<and> ar_run_id res = r_id r \<and>
        admits_as workload context require_approval ?p res"
      by (simp add: run halt_checks_open d(1) m b p policy_open_def admits_as_def disj_commute)
    then obtain res where "pipeline_check cfg r workload require_approval w = (Inr res, ?w3)" "ar_run_id res = r_id r"
      "admits_as workload context require_approval ?p res" by blast
    then show ?thesis
      using admit by (intro exI [of _ res] exI [of _ 3]) (simp add: gates_open_def d(2) [symmetric])
  qed
qed

lemma run_attestation_fails:
  assumes "get_workload (rw_registry w) ctx name = Some rec"
    and "\<not> list_all (verifies (sv_registry cfg)) (store_list_attestations (rw_registry w) ctx name)"
  shows "\<exists>e. attestation_model cfg name ctx w = (Inl e, w)"
proof -
  have "List.find (\<lambda>a. \<not> verifies (sv_registry cfg) a) (store_list_attestations (rw_registry w) ctx name) \<noteq> None"
    using assms(2) by (auto simp: find_None_iff list_all_iff)
  then obtain a where "List.find (\<lambda>a. \<not> verifies (sv_registry cfg) a) (store_list_attestations (rw_registry w) ctx name) = Some a"
    by blast
  then show ?thesis
    using assms(1)
    by (simp add: attestation_model_def registryE_def zoomE_def registry_list_attestations_def registry_get_def
        bindE_def getE_def thenE_def forE_checks returnE_def)
qed

text \<open>A result of the pipeline, whatever the state it ran in.\<close>

lemma admission_returned:
  assumes "pipeline_check cfg r workload require_approval w = (Inr res, w')"
  shows "ar_run_id res = r_id r \<and> (\<exists>n. w' = w\<lparr>rw_ticks := rw_ticks w + n\<rparr>) \<and>
    (ar_outcome res \<noteq> REFUSED \<longrightarrow>
      (\<exists>context rec. r_context r = Some context \<and> get_workload (rw_registry w) (run_ctx r) (workload_name workload) = Some rec \<and>
         gates_open cfg w r workload context rec \<and>
         admits_as workload context require_approval (policy_answer cfg w (admission_policy_context r workload context)) res))"
proof -
  let ?n = "workload_name workload" and ?w1 = "w\<lparr>rw_ticks := Suc (rw_ticks w)\<rparr>"
  obtain ctx where c: "r_context r = Some ctx"
    using assms by (cases "r_context r") (auto simp: pipeline_check_def raiseE_def)
  note run = pipeline_check_def c bindE_def getE_def returnE_def run_now Let_def
  show ?thesis
  proof (cases "halt_open w r workload")
    case False
    then have "pipeline_check cfg r workload require_approval w = (Inr (refused r ctx (halt_checks w r workload) HALT_REASON), w)"
      by (simp add: run halt_checks_open)
    then show ?thesis using assms by (auto simp: refused_def intro!: exI [of _ "0 :: nat"])
  next
    case True
    show ?thesis
    proof (cases "get_workload (rw_registry w) (run_ctx r) ?n")
      case None
      then have "fst (pipeline_check cfg r workload require_approval w) = Inl (RunRegistryFailure (WorkloadNotFoundError ?n))"
        using True by (simp add: run halt_checks_open registryE_def zoomE_def check_admission_def registry_get_def raiseE_def)
      then show ?thesis using assms by simp
    next
      case (Some rec)
      then have r1: "get_workload (rw_registry ?w1) (run_ctx r) ?n = Some rec" by simp
      show ?thesis
      proof (cases "list_all (verifies (sv_registry cfg)) (store_list_attestations (rw_registry w) (run_ctx r) ?n)")
        case True
        from admission_evaluates [OF c Some True, of require_approval] assms Some c
        show ?thesis by (auto simp: refusal_ok_def split: if_splits)
      next
        case False
        obtain e where e: "attestation_model cfg ?n (run_ctx r) ?w1 = (Inl e, ?w1)"
          using run_attestation_fails [OF r1, of cfg] False by auto
        obtain d where d: "registryE (check_admission (sv_registry cfg) (sv_clock cfg (rw_ticks w) 0) ?n ctx (run_ctx r)) ?w1 = (Inr d, ?w1)"
          using run_check_admission [OF r1, of "sv_registry cfg" "sv_clock cfg (rw_ticks w) 0" ctx] by auto
        show ?thesis
        proof (cases "cd_admitted d")
          case True
          then show ?thesis using assms \<open>halt_open w r workload\<close> by (simp add: run halt_checks_open d e)
        next
          case False
          then show ?thesis
            using assms \<open>halt_open w r workload\<close>
            by (auto simp: run halt_checks_open d refused_def intro!: exI [of _ "Suc 0"])
        qed
      qed
    qed
  qed
qed

text \<open>
  C4: admission is exact. For a registered workload whose attestations verify, the pipeline returns and
  changes nothing but the clock. The run is refused, with a reason and a failed check on record,
  unless no halt covers it, its certification suffices for the context, its model is the attested
  one, the budget allows it and the policy neither denies nor blocks it. An admitted run is
  sandboxed exactly when the context, the action class or the manifest asks for it, and escalated
  exactly when an approval was requested or the policy escalates.
\<close>

theorem admission_exact:
  assumes "r_context r = Some context" and "get_workload (rw_registry w) (run_ctx r) (workload_name workload) = Some rec"
    and "\<forall>a \<in> set (store_list_attestations (rw_registry w) (run_ctx r) (workload_name workload)). verifies (sv_registry cfg) a"
  shows "\<exists>res n. pipeline_check cfg r workload require_approval w = (Inr res, w\<lparr>rw_ticks := rw_ticks w + n\<rparr>) \<and>
    ar_run_id res = r_id r \<and>
    (ar_outcome res \<noteq> REFUSED \<longleftrightarrow>
       halt_open w r workload \<and>
       admission_verdict (sv_registry cfg) (sv_clock cfg (rw_ticks w) 0) (rw_registry w) rec context \<and>
       model_ok r (bound_model w (workload_name workload) (run_ctx r)) \<and>
       bc_allowed (budget_answer cfg w workload (run_ctx r)) \<and>
       policy_open (policy_answer cfg w (admission_policy_context r workload context))) \<and>
    (ar_outcome res = REFUSED \<longrightarrow> ar_refused_reason res \<noteq> None \<and> \<not> list_all ck_passed (ar_checks res)) \<and>
    (ar_outcome res \<noteq> REFUSED \<longrightarrow>
       admits_as workload context require_approval (policy_answer cfg w (admission_policy_context r workload context)) res)"
proof -
  have ver: "list_all (verifies (sv_registry cfg)) (store_list_attestations (rw_registry w) (run_ctx r) (workload_name workload))"
    using assms(3) by (simp add: list_all_iff)
  obtain res n where res: "pipeline_check cfg r workload require_approval w = (Inr res, w\<lparr>rw_ticks := rw_ticks w + n\<rparr>)"
    "ar_run_id res = r_id r" "if gates_open cfg w r workload context rec
     then admits_as workload context require_approval (policy_answer cfg w (admission_policy_context r workload context)) res
     else refusal_ok res"
    using admission_evaluates [OF assms(1,2) ver] by blast
  then show ?thesis
    by (intro exI [of _ res] exI [of _ n])
      (cases "gates_open cfg w r workload context rec"; auto simp: gates_open_def refusal_ok_def dest: admits_as_outcome)
qed

text \<open>A world with one certified workload, for the concrete instances of the properties.\<close>

definition sample_world :: "(nat, (string, run_state) dict) run_world" where
  "sample_world = \<lparr>rw_runs = [], rw_registry = (sample_registry ''acme'' CERTIFIED)\<lparr>rs_attestations := []\<rparr>, rw_approvals = None,
     rw_budget = \<lparr>bu_run_spend = [], bu_day_spend = [], bu_team_spend = [], bu_attributions = [], bu_cost = None, bu_history = None\<rparr>,
     rw_packs = [], rw_halt = None, rw_guards = None, rw_scheduler = None, rw_tenants = None, rw_audit = None, rw_defense = None,
     rw_sandboxes = None, rw_canary = None, rw_fleet_events = None, rw_ticks = 0, rw_env = []\<rparr>"

definition sample_service_config :: "(nat, (string, run_state) dict, string, string) run_config" where
  "sample_service_config = \<lparr>sv_clock = (\<lambda>n i. int n), sv_ids = (\<lambda>n i. ''run'' @ replicate n CHR ''1''), sv_trace_id = (\<lambda>n. None),
     sv_registry = sample_registry_config, sv_policy = PolicyEngineGate, sv_zone = (\<lambda>_ _. None), sv_budget = BudgetServiceGate,
     sv_meters_usage = True, sv_cost_table = \<lparr>ct_prices = [], ct_zero_cost_prefixes = []\<rparr>, sv_thresholds = [],
     sv_fanout = \<lparr>ff_transports = [], ff_enabled = True, ff_max_retries = 1, ff_verification_base_url = None, ff_artifact_lookup = None\<rparr>,
     sv_scheduler = sample_config, sv_guard_retention = 3600, sv_guard_limits = None, sv_sha256 = id, sv_float = example_float,
     sv_word_char = (\<lambda>_. False), sv_lower = id, sv_quarantine = (\<lambda>_ _ _ q. (True, q)), sv_bucket = (\<lambda>_. 0),
     sv_executor = NullRunExecutor, sv_eval_hook = None, sv_terminal_hook = None\<rparr>"

lemma sample_world_workload:
  "\<exists>rec. get_workload (rw_registry sample_world) (context_for_run ''acme'' team key) ''w'' = Some rec \<and>
     wl_manifest rec = sample_certified ''w'' CERTIFIED \<and> wl_certification_status rec = CERTIFIED \<and> wl_current_version rec = 1 \<and>
     wl_tenant_id rec = ''acme''"
  by (simp add: sample_world_def sample_registry_def get_workload_def fresh_record_def Let_def scopes_def)

lemma sample_world_attestations: "store_list_attestations (rw_registry sample_world) ctx ''w'' = []"
  by (simp add: sample_world_def sample_registry_def store_list_attestations_def Let_def split: option.split)

theorem admission_exact_witness:
  "\<exists>res n. pipeline_check sample_service_config (sample_run ''acme'' ''r'' QUEUED) (sample_certified ''w'' CERTIFIED) False sample_world =
     (Inr res, sample_world\<lparr>rw_ticks := n\<rparr>) \<and> ar_outcome res = ADMITTED"
proof -
  let ?r = "sample_run ''acme'' ''r'' QUEUED" and ?m = "sample_certified ''w'' CERTIFIED"
  have ctx: "run_ctx ?r = context_for_run ''acme'' None None" by (simp add: run_ctx_def sample_run_def)
  obtain rec where rec: "get_workload (rw_registry sample_world) (run_ctx ?r) (workload_name ?m) = Some rec" "wl_certification_status rec = CERTIFIED"
    using sample_world_workload [of None None] ctx by auto
  have c: "r_context ?r = Some STAGING" by (simp add: sample_run_def)
  define d where "d = policy_answer sample_service_config sample_world (admission_policy_context ?r ?m STAGING)"
  have p: "pd_outcome d = ALLOW" "pd_action_class d = None"
    by (simp_all add: d_def policy_answer_def sample_service_config_def sample_world_def evaluate_def decide_def Let_def
        admission_policy_context_def)
  have b: "bc_allowed (budget_answer sample_service_config sample_world ?m (run_ctx ?r))"
    by (simp add: budget_answer_def sample_service_config_def sample_world_def budget_check_run_def day_spend_def tenant_cap_def Let_def
        dict_get_default_def sample_certified_def sample_workload_def sample_budget_def)
  have h: "halt_open sample_world ?r ?m" "model_ok ?r bound" "policy_open d" for bound
    using p by (simp_all add: halt_open_def sample_world_def model_ok_def sample_run_def policy_open_def)
  have v: "admission_verdict (sv_registry sample_service_config) now (rw_registry sample_world) rec STAGING" for now
    using rec(2) by (simp add: admission_verdict_def)
  have sb: "\<not> sandbox_required ?m STAGING None"
    by (simp add: sandbox_required_def sample_certified_def sample_workload_def Let_def)
  have at: "\<forall>a \<in> set (store_list_attestations (rw_registry sample_world) (run_ctx ?r) (workload_name ?m)).
      verifies (sv_registry sample_service_config) a"
    by (simp add: sample_world_attestations)
  obtain res n where res: "pipeline_check sample_service_config ?r ?m False sample_world = (Inr res, sample_world\<lparr>rw_ticks := rw_ticks sample_world + n\<rparr>)"
    "ar_outcome res \<noteq> REFUSED" "admits_as ?m STAGING False d res"
    using admission_exact [OF c rec(1) at, of False] v b h unfolding d_def [symmetric] by blast
  then have "ar_outcome res = ADMITTED" using sb p by (simp add: admits_as_def)
  with res(1) show ?thesis by blast
qed

end
