(* ===== verification/Run_Service.thy ===== *)
theory Run_Service
  imports Admission
begin

text \<open>
  The run lifecycle of \<open>execution/service.py\<close>: submission, transitions, operator
  interventions, usage accounting, checkpoints and preemption, over the state of
  \<open>Admission\<close>. A method that raises leaves the changes it made, as in the source.

  The tracker of untrusted input (\<open>attach_taint\<close>) is the one of the defense guard, as the
  application binds them together. \<open>attach_*\<close>, \<open>bind_event_sink\<close> and \<open>store\<close> only give access
  to fields and have no definition of their own.
\<close>

section \<open>Records and events\<close>

definition require_run :: "string \<Rightarrow> tenant_context \<Rightarrow> ('d, 'x, run) serves" where
  "require_run run_id ctx = bindE (getE (\<lambda>w. get_run (rw_runs w) ctx run_id)) (\<lambda>r. case r of
       None \<Rightarrow> raiseE (RunStoreFailure (RunNotFoundError run_id))
     | Some x \<Rightarrow> returnE x)"

definition append_event ::
  "('d, 'x, 'sk, 'pk) run_config \<Rightarrow> string \<Rightarrow> event_type \<Rightarrow> string \<Rightarrow> tenant_context \<Rightarrow> run_state option \<Rightarrow> run_state option \<Rightarrow>
   string option \<Rightarrow> ('d, 'x, unit) serves" where
  "append_event cfg run_id event_type actor ctx from_state to_state detail =
     bindE (nowE cfg) (\<lambda>now.
       if run_id = [] \<or> actor = [] then raiseE (RunValidationError ''RunEvent'')
       else storeE (\<lambda>st. add_event st ctx
         \<lparr>e_run_id = run_id, e_sequence = 0, e_type = event_type, e_actor = actor, e_timestamp = now,
          e_from_state = from_state, e_to_state = to_state, e_detail = detail\<rparr>))"

definition record_event ::
  "('d, 'x, 'sk, 'pk) run_config \<Rightarrow> string \<Rightarrow> event_type \<Rightarrow> string \<Rightarrow> string option \<Rightarrow> tenant_context \<Rightarrow> ('d, 'x, unit) serves" where
  "record_event cfg run_id event_type actor detail ctx = bindE (require_run run_id ctx) (\<lambda>r.
     append_event cfg run_id event_type actor (run_ctx r) None None detail)"

definition service_get :: "string \<Rightarrow> tenant_context \<Rightarrow> ('d, 'x, run) serves" where
  "service_get run_id ctx = require_run run_id ctx"

definition service_list_runs ::
  "string option \<Rightarrow> run_state option \<Rightarrow> time option \<Rightarrow> run_state list option \<Rightarrow> tenant_context \<Rightarrow> ('d, 'x, run list) serves" where
  "service_list_runs workload state finished_after states ctx =
     getE (\<lambda>w. list_runs (rw_runs w) ctx workload state finished_after states)"

definition readE :: "(run_store \<Rightarrow> store_error + 'a) \<Rightarrow> ('d, 'x, 'a) serves" where
  "readE f w = (case f (rw_runs w) of Inl e \<Rightarrow> (Inl (RunStoreFailure e), w) | Inr x \<Rightarrow> (Inr x, w))"

definition service_events :: "string \<Rightarrow> tenant_context \<Rightarrow> ('d, 'x, run_event list) serves" where
  "service_events run_id ctx = bindE (require_run run_id ctx) (\<lambda>_. readE (\<lambda>st. list_events st ctx run_id))"

definition service_usage :: "string \<Rightarrow> tenant_context \<Rightarrow> ('d, 'x, usage_report list) serves" where
  "service_usage run_id ctx = bindE (require_run run_id ctx) (\<lambda>_. readE (\<lambda>st. list_usage st ctx run_id))"

definition service_admission :: "string \<Rightarrow> tenant_context \<Rightarrow> ('d, 'x, admission_result option) serves" where
  "service_admission run_id ctx = bindE (require_run run_id ctx) (\<lambda>_. readE (\<lambda>st. get_admission st ctx run_id))"

definition service_deliveries :: "string \<Rightarrow> tenant_context \<Rightarrow> ('d, 'x, delivery_record list) serves" where
  "service_deliveries run_id ctx = bindE (require_run run_id ctx) (\<lambda>_. readE (\<lambda>st. list_deliveries st ctx run_id))"

section \<open>Transitions\<close>

definition attempt :: "('d, 'x, unit) serves \<Rightarrow> ('d, 'x, unit) serves" where
  "attempt m = catchE m (\<lambda>_. Some (returnE ()))"

definition emit_run_event :: "('d, 'x, 'sk, 'pk) run_config \<Rightarrow> run \<Rightarrow> ('d, 'x, unit) serves" where
  "emit_run_event cfg r = bindE (nowE cfg) (\<lambda>now.
     modifyE (\<lambda>w. w\<lparr>rw_fleet_events := map_option (\<lambda>es. es @ [\<lparr>fv_event_type = ''run.'' @ run_state_value (r_state r),
       fv_tenant_id = r_tenant_id r, fv_run = r, fv_occurred_at = now\<rparr>]) (rw_fleet_events w)\<rparr>))"

text \<open>The manifest a run executes: for a canary run the one of its version, when that exists.\<close>

definition run_manifest :: "run \<Rightarrow> ('d, 'x, agent_workload) serves" where
  "run_manifest r = bindE (registryE (registry_get (r_workload_id r) (run_ctx r))) (\<lambda>w.
     case (r_canary_rollout_id r, r_manifest_version r) of
       (Some _, Some version) \<Rightarrow>
         catchE (bindE (registryE (registry_get_version (r_workload_id r) version (run_ctx r))) (\<lambda>v. returnE (wv_manifest v)))
           (\<lambda>e. case e of RunRegistryFailure (VersionNotFoundError _ _) \<Rightarrow> Some (returnE (wl_manifest w)) | _ \<Rightarrow> None)
     | _ \<Rightarrow> returnE (wl_manifest w))"

definition moved :: "run \<Rightarrow> run_state \<Rightarrow> time \<Rightarrow> string option \<Rightarrow> json option \<Rightarrow> string option \<Rightarrow> run" where
  "moved r target now failure_reason result trace_id =
     r\<lparr>r_state := target, r_updated_at := now,
       r_failure_reason := (if failure_reason \<noteq> None then failure_reason else r_failure_reason r),
       r_result := (if result \<noteq> None then result else r_result r),
       r_started_at := (if target = RUNNING \<and> r_started_at r = None then Some now else r_started_at r),
       r_finished_at := (if terminal target then Some now else r_finished_at r),
       r_trace_id := (if trace_id \<noteq> None then trace_id else r_trace_id r)\<rparr>"

definition provision_for ::
  "('d, 'x, 'sk, 'pk) run_config \<Rightarrow> run_state \<Rightarrow> agent_workload \<Rightarrow> run \<Rightarrow> ('d, 'x, run) serves" where
  "provision_for cfg from_state manifest updated = bindE tickE (\<lambda>n.
     if r_state updated = RUNNING \<and> from_state = QUEUED \<and> r_sandbox updated
     then optionalE rw_sandboxes (\<lambda>s w. w\<lparr>rw_sandboxes := s\<rparr>) RunSandboxFailure updated
       (bindE (provision (sv_ids cfg n 0) (sv_clock cfg n 0) (r_id updated) (r_workload_id updated) (ws_sandbox (aw_spec manifest)))
         (\<lambda>i. returnE (updated\<lparr>r_sandbox_id := Some (si_sandbox_id i)\<rparr>)))
     else returnE updated)"

definition release_sandbox ::
  "('d, 'x, 'sk, 'pk) run_config \<Rightarrow> string \<Rightarrow> run \<Rightarrow> ('d, 'x, unit) serves" where
  "release_sandbox cfg actor updated = (case r_sandbox_id updated of
       None \<Rightarrow> returnE ()
     | Some sandbox_id \<Rightarrow> bindE (getE rw_sandboxes) (\<lambda>sandboxes. case sandboxes of
           None \<Rightarrow> returnE ()
         | Some _ \<Rightarrow> bindE (nowE cfg) (\<lambda>now.
             thenE (optionalE rw_sandboxes (\<lambda>s w. w\<lparr>rw_sandboxes := s\<rparr>) RunSandboxFailure () (destroy now sandbox_id))
               (append_event cfg (r_id updated) EV_SANDBOX actor (run_ctx updated) None None (Some (''destroyed '' @ sandbox_id))))))"

definition notify_outcome ::
  "('d, 'x, 'sk, 'pk) run_config \<Rightarrow> run \<Rightarrow> agent_workload \<Rightarrow> ('d, 'x, unit) serves" where
  "notify_outcome cfg updated manifest = bindE tickE (\<lambda>n.
     bindE (zoomE rw_runs (\<lambda>s w. w\<lparr>rw_runs := s\<rparr>) RunStoreFailure (fanout_notify (sv_fanout cfg) (sv_clock cfg n) updated manifest))
       (\<lambda>_. returnE ()))"

definition hookE :: "('a \<Rightarrow> ('d, 'x, unit) serves) option \<Rightarrow> 'a \<Rightarrow> ('d, 'x, unit) serves" where
  "hookE hook x = (case hook of None \<Rightarrow> returnE () | Some h \<Rightarrow> h x)"

definition sample_canary :: "('d, 'x, 'sk, 'pk) run_config \<Rightarrow> run \<Rightarrow> ('d, 'x, unit) serves" where
  "sample_canary cfg updated = bindE tickE (\<lambda>n.
     whenE (r_canary_rollout_id updated \<noteq> None)
       (attempt (optionalE canary_view put_canary RunCanaryFailure ()
          (canary_record (audit_append (sv_sha256 cfg)) (sv_ids cfg n 0) (sv_clock cfg n) updated))))"

definition free_resources :: "string \<Rightarrow> ('d, 'x) run_world \<Rightarrow> ('d, 'x) run_world" where
  "free_resources run_id w = w\<lparr>rw_scheduler := map_option (complete run_id) (rw_scheduler w),
     rw_guards := map_option (guard_release run_id) (rw_guards w),
     rw_defense := map_option (\<lambda>g. g\<lparr>dg_taint := taint_clear (dg_taint g) run_id\<rparr>) (rw_defense w)\<rparr>"

text \<open>What a run's end triggers, in the order of the code.\<close>

definition finish_run ::
  "('d, 'x, 'sk, 'pk) run_config \<Rightarrow> string \<Rightarrow> run \<Rightarrow> agent_workload \<Rightarrow> ('d, 'x, unit) serves" where
  "finish_run cfg actor updated manifest =
     (let run_id = r_id updated; production = (r_context updated = Some PRODUCTION);
          real = (r_shadow_of updated = None \<and> \<not> r_probe updated) in
      thenE (attempt (hookE (sv_terminal_hook cfg) run_id))
      (thenE (modifyE (free_resources run_id))
      (thenE (whenE (r_state updated = COMPLETED \<and> production)
         (bindE (registryE (increment_production_runs (r_workload_id updated) (run_ctx updated))) (\<lambda>_. returnE ())))
      (thenE (whenE real (notify_outcome cfg updated manifest))
      (thenE (whenE (production \<and> real) (hookE (sv_eval_hook cfg) updated))
      (thenE (sample_canary cfg updated)
      (thenE (auditE cfg actor ''transition'' run_id (Some (run_state_value (r_state updated))) (run_ctx updated))
      (emit_run_event cfg updated))))))))"

definition transition ::
  "('d, 'x, 'sk, 'pk) run_config \<Rightarrow> string \<Rightarrow> run_state \<Rightarrow> string \<Rightarrow> string option \<Rightarrow> string option \<Rightarrow> json option \<Rightarrow>
   tenant_context \<Rightarrow> ('d, 'x, run) serves" where
  "transition cfg run_id target actor detail failure_reason result ctx =
     bindE (require_run run_id ctx) (\<lambda>r.
     if \<not> can_transition (r_state r) target then raiseE (IllegalTransitionError run_id (r_state r) target)
     else bindE (run_manifest r) (\<lambda>manifest.
     bindE tickE (\<lambda>n.
     bindE (provision_for cfg (r_state r) manifest (moved r target (sv_clock cfg n 0) failure_reason result (sv_trace_id cfg n))) (\<lambda>updated.
     thenE (storeE (\<lambda>st. save_run st (run_ctx r) updated))
     (thenE (append_event cfg run_id EV_STATE_CHANGE actor (run_ctx r) (Some (r_state r)) (Some target) detail)
     (thenE (whenE (target = RUNNING \<and> r_state r = QUEUED)
        (thenE (ex_start (sv_executor cfg) \<lparr>rx_run = updated, rx_workload = manifest, rx_sandbox = r_sandbox updated\<rparr>)
          (case r_sandbox_id updated of
             None \<Rightarrow> returnE ()
           | Some sandbox_id \<Rightarrow> append_event cfg run_id EV_SANDBOX actor (run_ctx r) None None (Some (''provisioned '' @ sandbox_id)))))
     (thenE (whenE (terminal target) (thenE (release_sandbox cfg actor updated) (finish_run cfg actor updated manifest)))
       (returnE updated))))))))"

definition start_run :: "('d, 'x, 'sk, 'pk) run_config \<Rightarrow> string \<Rightarrow> string \<Rightarrow> tenant_context \<Rightarrow> ('d, 'x, run) serves" where
  "start_run cfg run_id actor ctx = transition cfg run_id RUNNING actor None None None ctx"

definition fail_run :: "('d, 'x, 'sk, 'pk) run_config \<Rightarrow> string \<Rightarrow> string \<Rightarrow> string \<Rightarrow> tenant_context \<Rightarrow> ('d, 'x, run) serves" where
  "fail_run cfg run_id actor reason ctx =
     bindE (require_run run_id ctx) (\<lambda>r.
       if \<not> can_transition (r_state r) FAILED then raiseE (IllegalTransitionError run_id (r_state r) FAILED)
       else transition cfg run_id FAILED actor (Some reason) (Some reason) None ctx)"

definition reattach :: "('d, 'x, 'sk, 'pk) run_config \<Rightarrow> string \<Rightarrow> tenant_context \<Rightarrow> ('d, 'x, bool) serves" where
  "reattach cfg run_id ctx =
     bindE (require_run run_id ctx) (\<lambda>r.
     bindE (registryE (registry_get (r_workload_id r) (run_ctx r))) (\<lambda>w.
       case ex_reattach (sv_executor cfg) of
         None \<Rightarrow> returnE False
       | Some f \<Rightarrow> f \<lparr>rx_run = r, rx_workload = wl_manifest w, rx_sandbox = r_sandbox r\<rparr>))"

section \<open>Interventions\<close>

definition intervene ::
  "('d, 'x, 'sk, 'pk) run_config \<Rightarrow> string \<Rightarrow> intervention_action \<Rightarrow> string \<Rightarrow> tenant_context \<Rightarrow> ('d, 'x, run) serves" where
  "intervene cfg run_id action actor ctx =
     bindE (require_run run_id ctx) (\<lambda>r.
     let value = intervention_action_value action;
         note_action = append_event cfg run_id EV_OPERATOR_ACTION actor (run_ctx r) None None (Some value);
         audit_action = auditE cfg actor value run_id None (run_ctx r)
     in case action of
       PAUSE \<Rightarrow>
         if r_state r \<noteq> RUNNING then raiseE (RunNotIntervenableError run_id value)
         else bindE (ex_pause (sv_executor cfg) run_id) (\<lambda>confirmed.
           thenE note_action
             (if \<not> confirmed then returnE r
              else bindE (transition cfg run_id PAUSED actor None None None ctx) (\<lambda>paused.
                thenE audit_action (returnE paused))))
     | RESUME \<Rightarrow>
         if r_state r \<noteq> PAUSED then raiseE (RunNotIntervenableError run_id value)
         else bindE (transition cfg run_id RUNNING actor None None None ctx) (\<lambda>resumed.
           bindE (ex_resume (sv_executor cfg) run_id) (\<lambda>confirmed.
           thenE (whenE (\<not> confirmed)
              (bindE (registryE (registry_get (r_workload_id r) (run_ctx r))) (\<lambda>w.
                 ex_start (sv_executor cfg) \<lparr>rx_run = resumed, rx_workload = wl_manifest w, rx_sandbox = r_sandbox resumed\<rparr>)))
             (thenE note_action (thenE audit_action (returnE resumed)))))
     | STOP \<Rightarrow>
         thenE (ex_cancel (sv_executor cfg) run_id)
           (thenE note_action
             (bindE (transition cfg run_id CANCELLED actor None None None ctx) (\<lambda>cancelled.
               thenE audit_action (returnE cancelled)))))"

section \<open>Usage\<close>

fun guard_kind_value :: "guard_kind \<Rightarrow> string" where
  "guard_kind_value GUARD_CONTEXT = ''context''"
| "guard_kind_value GUARD_VELOCITY = ''velocity''"
| "guard_kind_value GUARD_RETRY = ''retry''"
| "guard_kind_value GUARD_BREAKER = ''breaker''"

definition guards_on_usage ::
  "('d, 'x, 'sk, 'pk) run_config \<Rightarrow> run \<Rightarrow> usage_report \<Rightarrow> usd option \<Rightarrow> ('d, 'x, guard_event option) serves" where
  "guards_on_usage cfg updated report remaining = bindE tickE (\<lambda>n. bindE (getE rw_registry) (\<lambda>reg.
     optionalE rw_guards (\<lambda>g w. w\<lparr>rw_guards := g\<rparr>) RunGuardFailure None
       (on_usage (sv_guard_retention cfg) (map_option (guard_limit_lookup reg) (sv_guard_limits cfg))
          \<lparr>gi_recorded = sv_clock cfg n 0, gi_spent = sv_clock cfg n 1, gi_checked = sv_clock cfg n 2,
           gi_created = sv_clock cfg n 3, gi_event_id = sv_ids cfg n 0\<rparr> updated report remaining (run_ctx updated))))"

definition guard_usage ::
  "('d, 'x, 'sk, 'pk) run_config \<Rightarrow> run \<Rightarrow> usage_report \<Rightarrow> usd option \<Rightarrow> tenant_context \<Rightarrow> ('d, 'x, run) serves" where
  "guard_usage cfg updated report remaining ctx =
     bindE (guards_on_usage cfg updated report remaining) (\<lambda>event. case event of
         None \<Rightarrow> returnE updated
       | Some ev \<Rightarrow>
           thenE (append_event cfg (r_id updated) EV_GUARD ''guard'' (run_ctx updated) None None
               (Some (guard_kind_value (ge_guard ev) @ '': '' @ ge_reason ev)))
             (if ge_action ev = GUARD_PAUSE \<and> can_transition (r_state updated) PAUSED
              then thenE (auditE cfg ''guard'' ''guard.pause'' (r_id updated) (Some (ge_reason ev)) (run_ctx updated))
                (transition cfg (r_id updated) PAUSED ''guard'' (Some (ge_reason ev)) None None ctx)
              else returnE updated))"

definition with_identity :: "run \<Rightarrow> usage_report \<Rightarrow> usage_report" where
  "with_identity r report = (if ur_model_identity report = None \<and> r_model_identity r \<noteq> None
     then report\<lparr>ur_model_identity := r_model_identity r\<rparr> else report)"

definition settle_usage ::
  "('d, 'x, 'sk, 'pk) run_config \<Rightarrow> run \<Rightarrow> usage_report \<Rightarrow> budget_check option \<Rightarrow> tenant_context \<Rightarrow> ('d, 'x, run) serves" where
  "settle_usage cfg r report check ctx =
     thenE (storeE (\<lambda>st. add_usage st (run_ctx r) report))
     (thenE (append_event cfg (r_id r) EV_USAGE ''adapter'' (run_ctx r) None None (Some (sv_float cfg (ur_cost_usd report))))
     (bindE (nowE cfg) (\<lambda>now.
       let updated = r\<lparr>r_cost_usd := r_cost_usd r + ur_cost_usd report, r_updated_at := now\<rparr> in
       thenE (storeE (\<lambda>st. save_run st (run_ctx r) updated))
         (case check of
            Some c \<Rightarrow> (if \<not> bc_allowed c then fail_run cfg (r_id r) ''budget'' (str_or (bc_reason c) ''budget exceeded'') ctx
                      else guard_usage cfg updated report (Some (bc_remaining_usd c)) ctx)
          | None \<Rightarrow> guard_usage cfg updated report None ctx))))"

definition price_usage ::
  "('d, 'x, 'sk, 'pk) run_config \<Rightarrow> run \<Rightarrow> agent_workload \<Rightarrow> usage_report \<Rightarrow> ('d, 'x, usage_report \<times> budget_check option) serves" where
  "price_usage cfg r workload report = (let named = with_identity r report in
     if sv_meters_usage cfg
     then bindE (budget_gate_usage cfg workload named (run_ctx r)) (\<lambda>o'.
       returnE (named\<lparr>ur_cost_usd := bo_cost_usd o'\<rparr>, Some (bo_check o')))
     else returnE (named, None))"

definition record_usage ::
  "('d, 'x, 'sk, 'pk) run_config \<Rightarrow> string \<Rightarrow> usage_report \<Rightarrow> tenant_context \<Rightarrow> ('d, 'x, run) serves" where
  "record_usage cfg run_id report ctx =
     bindE (require_run run_id ctx) (\<lambda>r.
     bindE (registryE (registry_get (r_workload_id r) (run_ctx r))) (\<lambda>w.
       if terminal (r_state r)
       then thenE (append_event cfg run_id EV_USAGE ''adapter'' (run_ctx r) None None
              (Some (''late usage ignored (state='' @ run_state_value (r_state r) @ '')''))) (returnE r)
       else bindE (price_usage cfg r (wl_manifest w) report) (\<lambda>p. settle_usage cfg r (fst p) (snd p) ctx)))"

section \<open>Scheduling\<close>

definition checkpoint :: "('d, 'x, 'sk, 'pk) run_config \<Rightarrow> string \<Rightarrow> tenant_context \<Rightarrow> ('d, 'x, run) serves" where
  "checkpoint cfg run_id ctx = bindE (require_run run_id ctx) (\<lambda>r.
     thenE (modifyE (\<lambda>w. w\<lparr>rw_scheduler := map_option (mark_checkpoint run_id) (rw_scheduler w)\<rparr>))
       (thenE (append_event cfg run_id EV_STATE_CHANGE ''scheduler'' (run_ctx r) None None (Some ''checkpoint reached (preemptible)''))
         (returnE r)))"

definition preempt_victim ::
  "('d, 'x, 'sk, 'pk) run_config \<Rightarrow> preemption_record \<Rightarrow> tenant_context \<Rightarrow> ('d, 'x, unit) serves" where
  "preempt_victim cfg p ctx =
     bindE (getE (\<lambda>w. get_run (rw_runs w) ctx (pv_victim_task_id p))) (\<lambda>victim. case victim of
         None \<Rightarrow> returnE ()
       | Some v \<Rightarrow>
           (let detail = Some (''preempted by guaranteed run '' @ pv_preempted_by p @ '' at checkpoint'') in
            thenE (whenE (can_transition (r_state v) CANCELLED)
               (bindE (transition cfg (pv_victim_task_id p) CANCELLED ''scheduler'' detail None None ctx) (\<lambda>_. returnE ())))
              (auditE cfg ''scheduler'' ''scheduler.preempt'' (pv_victim_task_id p) detail ctx)))"

definition scheduleE :: "(scheduler \<Rightarrow> 'a \<times> scheduler) \<Rightarrow> ('d, 'x, 'a option) serves" where
  "scheduleE f w = (case rw_scheduler w of
       None \<Rightarrow> (Inr None, w)
     | Some s \<Rightarrow> (case f s of (x, s') \<Rightarrow> (Inr (Some x), w\<lparr>rw_scheduler := Some s'\<rparr>)))"

definition entry_valid :: "queue_entry \<Rightarrow> bool" where
  "entry_valid e = (qe_task_id e \<noteq> [] \<and> length (qe_task_id e) \<le> 128 \<and> qe_tenant_id e \<noteq> [] \<and> length (qe_tenant_id e) \<le> 64 \<and>
     qe_workload e \<noteq> [] \<and> length (qe_workload e) \<le> 253 \<and> at_most 253 (qe_team e))"

definition register_with_scheduler ::
  "('d, 'x, 'sk, 'pk) run_config \<Rightarrow> run \<Rightarrow> qos_class \<Rightarrow> int \<Rightarrow> tenant_context \<Rightarrow> ('d, 'x, unit) serves" where
  "register_with_scheduler cfg r qos priority ctx = bindE tickE (\<lambda>n.
     let entry = \<lparr>qe_task_id = r_id r, qe_tenant_id = r_tenant_id r, qe_workload = r_workload_id r, qe_team = r_team_id r,
           qe_run_id = Some (r_id r), qe_qos = qos, qe_priority = priority, qe_attempts = 1, qe_preempted_by = None,
           qe_submitted_at = sv_clock cfg n 0\<rparr>
     in if \<not> entry_valid entry then raiseE (RunValidationError ''QueueEntry'')
        else bindE (scheduleE (sched_submit (sv_scheduler cfg) entry)) (\<lambda>decision.
          if (case decision of None \<Rightarrow> True | Some d \<Rightarrow> ad_action d \<noteq> ACTION_QUEUED) then returnE ()
          else bindE (scheduleE (dequeue (sv_scheduler cfg) (sv_clock cfg n 1))) (\<lambda>running.
            if (case Option.bind running id of None \<Rightarrow> True | Some e \<Rightarrow> qe_task_id e \<noteq> r_id r) then returnE ()
            else if qos \<noteq> GUARANTEED then returnE ()
            else bindE (scheduleE (preempt (sv_clock cfg n 2) (sv_clock cfg n 3) (r_id r))) (\<lambda>p.
              case Option.bind p id of None \<Rightarrow> returnE () | Some v \<Rightarrow> preempt_victim cfg v ctx))))"

section \<open>Submission\<close>

text \<open>\<open>json.dumps\<close> with its default separators, in the order of the dictionary.\<close>

fun comma_space :: "string list \<Rightarrow> string" where
  "comma_space [] = []"
| "comma_space [x] = x"
| "comma_space (x # xs) = x @ '', '' @ comma_space xs"

fun json_text :: "(rat \<Rightarrow> string) \<Rightarrow> json \<Rightarrow> string" where
  "json_text fl JNull = ''null''"
| "json_text fl (JBool b) = (if b then ''true'' else ''false'')"
| "json_text fl (JInt i) = int_str i"
| "json_text fl (JFloat r) = fl r"
| "json_text fl (JStr s) = json_string s"
| "json_text fl (JList xs) = ''['' @ comma_space (map (json_text fl) xs) @ '']''"
| "json_text fl (JObj kvs) = ''{'' @ comma_space (map (\<lambda>(k, v). json_string k @ '': '' @ json_text fl v) kvs) @ ''}''"

definition task_text :: "('d, 'x, 'sk, 'pk) run_config \<Rightarrow> run \<Rightarrow> ucs" where
  "task_text cfg r = map of_char (json_text (sv_float cfg) (JObj (r_task r)))"

definition injection_refusal :: "run \<Rightarrow> agent_workload \<Rightarrow> admission_result" where
  "injection_refusal r manifest =
     \<lparr>ar_run_id = r_id r, ar_workload = workload_name manifest,
      ar_context = (case r_context r of None \<Rightarrow> SANDBOX | Some c \<Rightarrow> c), ar_outcome = REFUSED,
      ar_checks = [gate_check ''defense'' False (Some ''task input contains injection patterns'') ''injection.scan''],
      ar_sandbox = False, ar_escalation_required = False,
      ar_refused_reason = Some ''task input contains injection patterns''\<rparr>"

definition scan_task_input :: "('d, 'x, 'sk, 'pk) run_config \<Rightarrow> run \<Rightarrow> agent_workload \<Rightarrow> ('d, 'x, unit) serves" where
  "scan_task_input cfg r manifest = bindE tickE (\<lambda>n.
     let source = (if r_trigger_origin r \<noteq> None then ''trigger'' else ''task'') in
     bindE (optionalE defense_view put_defense RunDefenseFailure None
       (bindE (scan_input (sv_word_char cfg) (sv_lower cfg) (sv_quarantine cfg) (sv_clock cfg n 0) (sv_ids cfg n 0) (sv_ids cfg n 1)
           (sv_clock cfg n 1) (sv_ids cfg n 2) (r_id r) (workload_name manifest) (task_text cfg r) source (Some (r_tenant_id r))
           (r_trigger_origin r \<noteq> None)) (\<lambda>res. returnE (Some res)))) (\<lambda>res. case res of
         None \<Rightarrow> returnE ()
       | Some found \<Rightarrow>
           if sr_action found \<noteq> DA_BLOCK then returnE ()
           else thenE (optionalE defense_view put_defense RunDefenseFailure () (mark_untrusted (r_id r) source source))
             (raiseE (RunAdmissionRefusedError (injection_refusal r manifest)))))"

record run_request =
  rq_workload :: string
  rq_caller :: string
  rq_context :: admission_context
  rq_task :: "(string, json) dict"
  rq_model_identity :: "string option"
  rq_trigger_origin :: "trigger_origin option"
  rq_pipeline_origin :: "pipeline_origin option"
  rq_agent_tool_origin :: "agent_tool_origin option"
  rq_require_approval :: bool
  rq_shadow_of :: "string option"
  rq_probe :: bool
  rq_read_only :: bool
  rq_qos :: "qos_class option"
  rq_priority :: int

definition new_run :: "string \<Rightarrow> time \<Rightarrow> string option \<Rightarrow> run_request \<Rightarrow> int \<Rightarrow> tenant_context \<Rightarrow> run" where
  "new_run run_id now trace_id q version ctx =
     \<lparr>r_id = run_id, r_workload_id = rq_workload q, r_caller = rq_caller q, r_state = QUEUED,
      r_model_identity = rq_model_identity q, r_created_at = now, r_updated_at = now, r_started_at = None,
      r_finished_at = None, r_trigger_origin = rq_trigger_origin q, r_pipeline_origin = rq_pipeline_origin q,
      r_agent_tool_origin = rq_agent_tool_origin q, r_manifest_version = Some version, r_context = Some (rq_context q),
      r_sandbox = False, r_task = rq_task q, r_result = None, r_failure_reason = None, r_cost_usd = 0,
      r_sandbox_id = None, r_trace_id = trace_id, r_shadow_of = rq_shadow_of q, r_probe = rq_probe q,
      r_read_only = rq_read_only q, r_canary_rollout_id = None, r_canary_arm = None,
      r_tenant_id = tc_tenant_id ctx, r_team_id = tc_team_id ctx, r_attribution_key = tc_attribution_key ctx\<rparr>"

definition run_valid :: "run \<Rightarrow> bool" where
  "run_valid r = (r_id r \<noteq> [] \<and> r_workload_id r \<noteq> [] \<and> r_caller r \<noteq> [] \<and> r_tenant_id r \<noteq> [] \<and> length (r_tenant_id r) \<le> 64)"

definition assign_canary ::
  "('d, 'x, 'sk, 'pk) run_config \<Rightarrow> run_request \<Rightarrow> run \<Rightarrow> ('d, 'x, run) serves" where
  "assign_canary cfg q r =
     (if rq_context q = PRODUCTION \<and> rq_shadow_of q = None \<and> \<not> rq_probe q
      then bindE (optionalE canary_view put_canary RunCanaryFailure None (canary_route (sv_bucket cfg) r)) (\<lambda>a. case a of
          None \<Rightarrow> returnE r
        | Some assignment \<Rightarrow> returnE (r\<lparr>r_canary_rollout_id := Some (ca_rollout_id assignment),
            r_canary_arm := Some (ca_arm assignment),
            r_manifest_version := (case ca_candidate_version assignment of
                Some v \<Rightarrow> if v \<noteq> 0 then Some v else r_manifest_version r
              | None \<Rightarrow> r_manifest_version r)\<rparr>))
      else returnE r)"

definition escalate_run ::
  "('d, 'x, 'sk, 'pk) run_config \<Rightarrow> run_request \<Rightarrow> run \<Rightarrow> admission_result \<Rightarrow> agent_workload \<Rightarrow> ('d, 'x, unit) serves" where
  "escalate_run cfg q r result manifest =
     thenE (append_event cfg (r_id r) EV_STATE_CHANGE (rq_caller q) (run_ctx r) None (Some PAUSED) (Some ''escalation''))
       (bindE tickE (\<lambda>n.
        let check = policy_check result;
            rule = str_or (Option.bind check ck_rule) ''approvals.required'';
            reason = str_or (Option.bind check ck_reason) ''approval required'' in
        thenE (optionalE rw_approvals (\<lambda>a w. w\<lparr>rw_approvals := a\<rparr>) RunApprovalFailure ()
            (bindE (approval_request (sv_ids cfg n 0) (sv_clock cfg n 0) (sv_clock cfg n 1) (r_id r) (rq_workload q) rule reason
               None None (Some (r_tenant_id r)) (Some (run_ctx r))) (\<lambda>_. returnE ())))
          (bindE (zoomE rw_runs (\<lambda>s w. w\<lparr>rw_runs := s\<rparr>) RunStoreFailure
              (fanout_notify_escalation (sv_fanout cfg) (\<lambda>i. sv_clock cfg n (2 + i)) r manifest)) (\<lambda>_. returnE ()))))"

definition require_active_tenant :: "tenant_context \<Rightarrow> ('d, 'x, unit) serves" where
  "require_active_tenant ctx = bindE (getE rw_tenants) (\<lambda>tenants. case tenants of
       None \<Rightarrow> returnE ()
     | Some st \<Rightarrow> (case require_active st ctx (tc_tenant_id ctx) of
           Inl e \<Rightarrow> raiseE (RunTenantFailure e)
         | Inr _ \<Rightarrow> returnE ()))"

definition persist_run ::
  "('d, 'x, 'sk, 'pk) run_config \<Rightarrow> run_request \<Rightarrow> run \<Rightarrow> admission_result \<Rightarrow> ('d, 'x, unit) serves" where
  "persist_run cfg q r result =
     thenE (storeE (\<lambda>st. save_run st (run_ctx r) r))
     (thenE (storeE (\<lambda>st. save_admission st (run_ctx r) result))
       (append_event cfg (r_id r) EV_ADMISSION (rq_caller q) (run_ctx r) None (Some (r_state r))
         (Some (admission_outcome_value (ar_outcome result)))))"

definition place_run ::
  "('d, 'x, 'sk, 'pk) run_config \<Rightarrow> run_request \<Rightarrow> run \<Rightarrow> admission_result \<Rightarrow> agent_workload \<Rightarrow> ('d, 'x, run) serves" where
  "place_run cfg q r result manifest =
     thenE (persist_run cfg q r result)
     (thenE (whenE (ar_escalation_required result) (escalate_run cfg q r result manifest))
     (bindE (getE rw_scheduler) (\<lambda>sched.
        thenE (case (rq_qos q, sched) of
            (Some qos, Some _) \<Rightarrow> register_with_scheduler cfg r qos (rq_priority q) (run_ctx r)
          | _ \<Rightarrow> returnE ())
          (returnE r))))"

definition admitted_run :: "run \<Rightarrow> admission_result \<Rightarrow> run" where
  "admitted_run r result =
     (let sandboxed = (if ar_sandbox result then r\<lparr>r_sandbox := True\<rparr> else r)
      in if ar_escalation_required result then sandboxed\<lparr>r_state := PAUSED\<rparr> else sandboxed)"

definition submit ::
  "('d, 'x, 'sk, 'pk) run_config \<Rightarrow> run_request \<Rightarrow> tenant_context \<Rightarrow> ('d, 'x, run) serves" where
  "submit cfg q ctx =
     thenE (require_active_tenant ctx)
     (bindE (registryE (registry_get (rq_workload q) ctx)) (\<lambda>w.
      bindE tickE (\<lambda>n.
      let r0 = new_run (sv_ids cfg n 0) (sv_clock cfg n 0) (sv_trace_id cfg n) q (wl_current_version w) ctx in
      if \<not> run_valid r0 then raiseE (RunValidationError ''Run'')
      else thenE (scan_task_input cfg r0 (wl_manifest w))
        (bindE (pipeline_check cfg r0 (wl_manifest w) (rq_require_approval q)) (\<lambda>result.
         if ar_outcome result = REFUSED then raiseE (RunAdmissionRefusedError result)
         else bindE (assign_canary cfg q (admitted_run r0 result)) (\<lambda>r.
           place_run cfg q r result (wl_manifest w)))))))"

end
