(* ===== verification/Run_Guarantee.thy ===== *)
theory Run_Guarantee
  imports Run_Service
begin

text \<open>
  The relations between the stored runs before and after an operation of the run service, and the
  calls that keep them: \<open>run_rely\<close> (runs never vanish, keep their identity, move along the state
  machine and are final once terminal; the event log of a run is a legal history that ends in its
  state), and within it \<open>logs_only\<close> and \<open>quiet\<close> for the calls that only append to the logs of runs
  or leave them alone.
\<close>

section \<open>Histories\<close>

text \<open>
  An event with a target state follows a state: the first one opens the run queued or paused, one
  with a source state is a legal transition from it, and one without repeats the state.
\<close>

definition legal_event :: "run_state option \<Rightarrow> run_event \<Rightarrow> bool" where
  "legal_event s e = (case e_to_state e of
       None \<Rightarrow> True
     | Some t \<Rightarrow> (case e_from_state e of
           Some f \<Rightarrow> s = Some f \<and> can_transition f t
         | None \<Rightarrow> s = None \<and> t \<in> {QUEUED, PAUSED} \<or> s = Some t))"

definition after_event :: "run_state option \<Rightarrow> run_event \<Rightarrow> run_state option" where
  "after_event s e = (case e_to_state e of None \<Rightarrow> s | Some t \<Rightarrow> Some t)"

fun replay :: "run_state option \<Rightarrow> run_event list \<Rightarrow> run_state option option" where
  "replay s [] = Some s"
| "replay s (e # es) = (if legal_event s e then replay (after_event s e) es else None)"

lemma replay_append: "replay s (es @ fs) = Option.bind (replay s es) (\<lambda>t. replay t fs)"
  by (induction es arbitrary: s) auto

lemma replay_sequence [simp]:
  "legal_event s (e\<lparr>e_sequence := n\<rparr>) = legal_event s e" "after_event s (e\<lparr>e_sequence := n\<rparr>) = after_event s e"
  by (simp_all add: legal_event_def after_event_def split: option.split)

definition log_replays :: "run_bundle \<Rightarrow> bool" where
  "log_replays b \<longleftrightarrow> replay None (rb_events b) = Some (Some (r_state (rb_run b)))"

section \<open>The guarantee\<close>

text \<open>Only the progress of a run changes, never what it is.\<close>

definition same_run :: "run \<Rightarrow> run \<Rightarrow> bool" where
  "same_run r r' \<longleftrightarrow> r' = r\<lparr>r_state := r_state r', r_updated_at := r_updated_at r', r_started_at := r_started_at r',
     r_finished_at := r_finished_at r', r_result := r_result r', r_failure_reason := r_failure_reason r',
     r_cost_usd := r_cost_usd r', r_sandbox_id := r_sandbox_id r', r_trace_id := r_trace_id r'\<rparr>"

definition run_follows :: "run \<Rightarrow> run \<Rightarrow> bool" where
  "run_follows r r' \<longleftrightarrow> same_run r r' \<and> can_transition\<^sup>*\<^sup>* (r_state r) (r_state r') \<and> (terminal (r_state r) \<longrightarrow> r' = r)"

definition bundle_follows :: "run_bundle \<Rightarrow> run_bundle \<Rightarrow> bool" where
  "bundle_follows b b' \<longleftrightarrow> run_follows (rb_run b) (rb_run b') \<and> prefix (rb_events b) (rb_events b') \<and>
     prefix (rb_usage b) (rb_usage b') \<and> prefix (rb_deliveries b) (rb_deliveries b') \<and>
     (rb_admission b \<noteq> None \<longrightarrow> rb_admission b' = rb_admission b)"

definition store_evolves :: "run_store \<Rightarrow> run_store \<Rightarrow> bool" where
  "store_evolves st st' \<longleftrightarrow> (\<forall>k b. dict_get st k = Some b \<longrightarrow> (\<exists>b'. dict_get st' k = Some b' \<and> bundle_follows b b'))"

definition store_good :: "run_store \<Rightarrow> bool" where
  "store_good st \<longleftrightarrow> run_store_ok st \<and> dict_all (\<lambda>k. log_replays) st"

text \<open>A run id names one run of the whole fleet.\<close>

definition ids_unique :: "run_store \<Rightarrow> bool" where
  "ids_unique st \<longleftrightarrow> (\<forall>k k'. dict_get st k \<noteq> None \<and> dict_get st k' \<noteq> None \<and> snd k = snd k' \<longrightarrow> k = k')"

definition key_ok :: "string \<times> string \<Rightarrow> bool" where
  "key_ok k \<longleftrightarrow> snd k \<noteq> [] \<and> fst k \<noteq> [] \<and> length (fst k) \<le> 64"

definition runs_good :: "('d, 'x, 'sk, 'pk) run_config \<Rightarrow> ('d, 'x) run_world \<Rightarrow> bool" where
  "runs_good cfg w \<longleftrightarrow> store_good (rw_runs w) \<and> ids_unique (rw_runs w) \<and>
     dict_all (\<lambda>k _. key_ok k \<and> (\<exists>n < rw_ticks w. snd k = sv_ids cfg n 0)) (rw_runs w)"

definition run_rely :: "('d, 'x, 'sk, 'pk) run_config \<Rightarrow> ('d, 'x) run_world \<Rightarrow> ('d, 'x) run_world \<Rightarrow> bool" where
  "run_rely cfg w w' \<longleftrightarrow> (runs_good cfg w \<longrightarrow>
     runs_good cfg w' \<and> store_evolves (rw_runs w) (rw_runs w') \<and> rw_ticks w \<le> rw_ticks w')"

text \<open>Two finer relations: the runs as they are, and only the logs written.\<close>

definition quiet :: "('d, 'x) run_world \<Rightarrow> ('d, 'x) run_world \<Rightarrow> bool" where
  "quiet w w' \<longleftrightarrow> rw_runs w' = rw_runs w \<and> rw_ticks w \<le> rw_ticks w'"

definition same_runs :: "run_store \<Rightarrow> run_store \<Rightarrow> bool" where
  "same_runs st st' \<longleftrightarrow> (\<forall>k. map_option rb_run (dict_get st' k) = map_option rb_run (dict_get st k))"

definition logs_only :: "('d, 'x, 'sk, 'pk) run_config \<Rightarrow> ('d, 'x) run_world \<Rightarrow> ('d, 'x) run_world \<Rightarrow> bool" where
  "logs_only cfg w w' \<longleftrightarrow> run_rely cfg w w' \<and> (runs_good cfg w \<longrightarrow> same_runs (rw_runs w) (rw_runs w'))"

lemma same_run_refl [simp]: "same_run r r"
  by (simp add: same_run_def)

lemma same_run_fields:
  assumes "same_run r u"
  shows "r_id u = r_id r" "r_tenant_id u = r_tenant_id r" "run_ctx u = run_ctx r" "r_workload_id u = r_workload_id r"
    "r_context u = r_context r"
proof -
  show "r_id u = r_id r" using assms [unfolded same_run_def, THEN arg_cong, of r_id] by simp
  show "r_tenant_id u = r_tenant_id r" using assms [unfolded same_run_def, THEN arg_cong, of r_tenant_id] by simp
  show "run_ctx u = run_ctx r" using assms [unfolded same_run_def, THEN arg_cong, of run_ctx] by (simp add: run_ctx_def)
  show "r_workload_id u = r_workload_id r" using assms [unfolded same_run_def, THEN arg_cong, of r_workload_id] by simp
  show "r_context u = r_context r" using assms [unfolded same_run_def, THEN arg_cong, of r_context] by simp
qed

lemma same_run_trans: "same_run r s \<Longrightarrow> same_run s t \<Longrightarrow> same_run r t"
  unfolding same_run_def by (erule ssubst, erule ssubst) simp

lemma run_follows_refl [simp]: "run_follows r r"
  by (simp add: run_follows_def)

lemma run_follows_trans: "run_follows r s \<Longrightarrow> run_follows s t \<Longrightarrow> run_follows r t"
  unfolding run_follows_def by (meson rtranclp_trans same_run_trans)

lemma bundle_follows_refl [simp]: "bundle_follows b b"
  by (simp add: bundle_follows_def)

lemma bundle_follows_trans: "bundle_follows a b \<Longrightarrow> bundle_follows b c \<Longrightarrow> bundle_follows a c"
  unfolding bundle_follows_def by (metis prefix_order.trans run_follows_trans)

lemma store_evolves_refl [simp]: "store_evolves st st"
  by (auto simp: store_evolves_def)

lemma store_evolvesD: "store_evolves st st' \<Longrightarrow> dict_get st k = Some b \<Longrightarrow> \<exists>b'. dict_get st' k = Some b' \<and> bundle_follows b b'"
  unfolding store_evolves_def by blast

lemma store_evolves_trans: "store_evolves a b \<Longrightarrow> store_evolves b c \<Longrightarrow> store_evolves a c"
  unfolding store_evolves_def by (meson bundle_follows_trans)

lemma store_evolves_put:
  "(\<And>b. dict_get st k = Some b \<Longrightarrow> bundle_follows b b') \<Longrightarrow> store_evolves st (dict_put k b' st)"
  by (auto simp: store_evolves_def)

lemma same_runs_refl [simp]: "same_runs st st"
  by (simp add: same_runs_def)

lemma same_runs_trans: "same_runs a b \<Longrightarrow> same_runs b c \<Longrightarrow> same_runs a c"
  by (simp add: same_runs_def)

lemma same_runsD: "same_runs st st' \<Longrightarrow> dict_get st k = Some b \<Longrightarrow> \<exists>b'. dict_get st' k = Some b' \<and> rb_run b' = rb_run b"
  unfolding same_runs_def by (metis (no_types, lifting) map_option_eq_Some option.map(2))

lemma run_rely_refl [simp, intro]: "reflp (run_rely cfg)"
  by (simp add: reflp_def run_rely_def)

lemma run_rely_trans [simp, intro]: "transp (run_rely cfg)"
  unfolding transp_def run_rely_def by (meson le_trans store_evolves_trans)

lemma logs_only_refl [simp, intro]: "reflp (logs_only cfg)"
  by (simp add: reflp_def logs_only_def run_rely_def)

lemma logs_only_trans [simp, intro]: "transp (logs_only cfg)"
  unfolding transp_def logs_only_def
  by (metis run_rely_def run_rely_trans same_runs_trans transpD)

lemma quiet_refl [simp, intro]: "reflp quiet"
  by (simp add: reflp_def quiet_def)

lemma quiet_trans [simp, intro]: "transp quiet"
  by (auto simp: transp_def quiet_def)

lemma runs_good_later: "runs_good cfg w \<Longrightarrow> rw_runs w' = rw_runs w \<Longrightarrow> rw_ticks w \<le> rw_ticks w' \<Longrightarrow> runs_good cfg w'"
  unfolding runs_good_def dict_all_def by (metis order_less_le_trans)

lemma quiet_logs: "quiet w w' \<Longrightarrow> logs_only cfg w w'"
  by (auto simp: quiet_def logs_only_def run_rely_def runs_good_later)

lemma logs_rely: "logs_only cfg w w' \<Longrightarrow> run_rely cfg w w'"
  by (simp add: logs_only_def)

lemma quiet_rely: "quiet w w' \<Longrightarrow> run_rely cfg w w'"
  by (blast intro: quiet_logs logs_rely)

lemma steps_quiet_rely: "steps quiet m \<Longrightarrow> steps (run_rely cfg) m"
  by (erule steps_conseq) (rule quiet_rely)

lemma steps_quiet_logs: "steps quiet m \<Longrightarrow> steps (logs_only cfg) m"
  by (erule steps_conseq) (rule quiet_logs)

lemma steps_logs_rely: "steps (logs_only cfg) m \<Longrightarrow> steps (run_rely cfg) m"
  by (erule steps_conseq) (rule logs_rely)

section \<open>Calls that leave the runs alone\<close>

lemmas quietI = steps_bind [OF quiet_trans] steps_then [OF quiet_trans] steps_when [OF quiet_refl] steps_if steps_option
  steps_sum steps_return [OF quiet_refl] steps_raise [OF quiet_refl] steps_get [OF quiet_refl]

lemma quiet_tick: "steps quiet tickE"
  by (simp add: steps_def tickE_def quiet_def)

lemma quiet_now: "steps quiet (nowE cfg)"
  unfolding nowE_def by (intro quietI quiet_tick)

lemma quiet_optional:
  "(\<And>t w. rw_runs (put t w) = rw_runs w \<and> rw_ticks (put t w) = rw_ticks w) \<Longrightarrow> steps quiet (optionalE get put err x m)"
  by (auto simp: steps_def optionalE_def quiet_def split: option.splits prod.splits sum.splits)

lemma quiet_zoom:
  "(\<And>t w. rw_runs (put t w) = rw_runs w \<and> rw_ticks (put t w) = rw_ticks w) \<Longrightarrow> steps quiet (zoomE get put err m)"
  by (rule steps_zoom) (simp add: quiet_def)

lemma quiet_registry: "steps quiet (registryE m)"
  unfolding registryE_def by (rule quiet_zoom) simp

lemma quiet_audit: "steps quiet (auditE cfg actor action subject detail ctx)"
  unfolding auditE_def by (intro quietI quiet_now quiet_optional) simp

lemma quiet_catch: "steps quiet m \<Longrightarrow> (\<And>e r. h e = Some r \<Longrightarrow> steps quiet r) \<Longrightarrow> steps quiet (catchE m h)"
  by (rule steps_catch) auto

lemma quiet_require: "steps quiet (require_run run_id ctx)"
  unfolding require_run_def by (intro quietI)

lemma quiet_read: "steps quiet (readE f)"
  by (simp add: steps_def readE_def quiet_def split: sum.split)

lemma quiet_emit: "steps quiet (emit_run_event cfg r)"
  unfolding emit_run_event_def by (intro quietI quiet_now steps_modify) (simp add: quiet_def)

lemma quiet_free: "steps quiet (modifyE (free_resources run_id))"
  by (rule steps_modify) (simp add: quiet_def free_resources_def)

lemma quiet_schedule: "steps quiet (scheduleE f)"
  by (auto simp: steps_def scheduleE_def quiet_def split: option.split prod.split)

lemma put_runs [simp]:
  "rw_runs (put_canary p w) = rw_runs w" "rw_ticks (put_canary p w) = rw_ticks w"
  "rw_runs (put_defense g w) = rw_runs w" "rw_ticks (put_defense g w) = rw_ticks w"
  by (simp_all add: put_canary_def put_defense_def)

lemmas quiet_calls = quiet_tick quiet_now quiet_registry quiet_audit quiet_require quiet_read quiet_emit quiet_free
  quiet_schedule

lemma quiet_run_manifest: "steps quiet (run_manifest r)"
  unfolding run_manifest_def
  by (auto intro!: quietI quiet_calls quiet_catch split: option.split run_error.splits registry_error.splits)

lemma quiet_provision: "steps quiet (provision_for cfg from_state manifest u)"
  unfolding provision_for_def by (intro quietI quiet_calls quiet_optional) simp

lemma quiet_sample: "steps quiet (sample_canary cfg u)"
  unfolding sample_canary_def attempt_def
  by (auto intro!: quietI quiet_calls quiet_catch quiet_optional)

lemma quiet_guards: "steps quiet (guards_on_usage cfg u report remaining)"
  unfolding guards_on_usage_def by (intro quietI quiet_calls quiet_optional) simp

lemma quiet_budget_usage: "steps quiet (budget_gate_usage cfg workload report ctx)"
  unfolding budget_gate_usage_def
  by (auto intro!: quietI quiet_calls quiet_zoom split: budget_gate.split)

lemma quiet_policy: "steps quiet (policy_evaluate cfg c)"
  unfolding policy_evaluate_def by (auto intro!: quietI quiet_calls split: policy_gate.split)

lemma quiet_budget_check: "steps quiet (budget_gate_check cfg workload ctx)"
  unfolding budget_gate_check_def by (auto intro!: quietI quiet_calls split: budget_gate.split)

lemma quiet_attestation_model: "steps quiet (attestation_model cfg workload ctx)"
  unfolding attestation_model_def by (intro quietI quiet_calls)

lemma quiet_admission: "steps quiet (pipeline_check cfg r workload require_approval)"
  unfolding pipeline_check_def Let_def
  by (intro quietI quiet_calls quiet_policy quiet_budget_check quiet_attestation_model)

lemma quiet_scan: "steps quiet (scan_task_input cfg r manifest)"
  unfolding scan_task_input_def Let_def by (intro quietI quiet_calls quiet_optional) simp_all

lemma quiet_canary: "steps quiet (assign_canary cfg q r)"
  unfolding assign_canary_def by (intro quietI quiet_optional) simp

lemma quiet_active: "steps quiet (require_active_tenant ctx)"
  unfolding require_active_tenant_def by (intro quietI)

section \<open>Calls that write the logs of a run\<close>

definition store_logs :: "run_store \<Rightarrow> run_store \<Rightarrow> bool" where
  "store_logs st st' \<longleftrightarrow> (store_good st \<longrightarrow> store_good st' \<and> store_evolves st st' \<and> same_runs st st')"

lemma store_logs_refl [simp, intro]: "reflp store_logs"
  by (simp add: reflp_def store_logs_def)

lemma store_logs_trans [simp, intro]: "transp store_logs"
  unfolding transp_def store_logs_def by (meson same_runs_trans store_evolves_trans)

lemma same_runs_keys: "same_runs st st' \<Longrightarrow> dict_all (\<lambda>k _. P k) st \<Longrightarrow> dict_all (\<lambda>k _. P k) st'"
  unfolding same_runs_def dict_all_def by (metis (no_types, lifting) None_eq_map_option_iff not_Some_eq)

lemma store_goodD: "store_good st \<Longrightarrow> dict_get st k = Some b \<Longrightarrow> bundle_ok k b \<and> log_replays b"
  unfolding store_good_def run_store_ok_def dict_all_def by blast

lemma store_good_put: "store_good st \<Longrightarrow> bundle_ok k b \<Longrightarrow> log_replays b \<Longrightarrow> store_good (dict_put k b st)"
  by (simp add: store_good_def run_store_ok_def)

lemma same_runs_unique:
  assumes "same_runs st st'" "ids_unique st"
  shows "ids_unique st'"
proof -
  have "dict_get st' k = None \<longleftrightarrow> dict_get st k = None" for k
    using assms(1) unfolding same_runs_def by (metis option.map_disc_iff)
  then show ?thesis using assms(2) by (simp add: ids_unique_def)
qed

lemma ids_unique_put:
  assumes "ids_unique st" "dict_get st k = None \<Longrightarrow> dict_all (\<lambda>k' _. snd k' \<noteq> snd k) st"
  shows "ids_unique (dict_put k b st)"
  unfolding ids_unique_def
proof (intro allI impI)
  have put: "dict_get (dict_put k b st) x = (if x = k then Some b else dict_get st x)" for x by simp
  fix i j
  assume ij: "dict_get (dict_put k b st) i \<noteq> None \<and> dict_get (dict_put k b st) j \<noteq> None \<and> snd i = snd j"
  show "i = j"
  proof (cases "dict_get st k = None")
    case True
    then have "snd x \<noteq> snd k" if "dict_get st x \<noteq> None" for x
      using assms(2) that unfolding dict_all_def by blast
    then show ?thesis using ij assms(1) unfolding ids_unique_def by (metis put)
  next
    case False
    then show ?thesis using ij assms(1) unfolding ids_unique_def by (metis put)
  qed
qed

lemma store_logs_world:
  assumes "store_logs (rw_runs w) st'"
  shows "logs_only cfg w (w\<lparr>rw_runs := st'\<rparr>)"
  using assms
  by (auto simp: store_logs_def logs_only_def run_rely_def runs_good_def intro: same_runs_keys same_runs_unique)

lemma logs_store: "(\<And>st st'. f st = Inr st' \<Longrightarrow> store_logs st st') \<Longrightarrow> steps (logs_only cfg) (storeE f)"
  by (auto simp: steps_def storeE_def store_logs_world logs_only_refl [THEN reflpD] split: sum.split)

lemma logs_zoom: "steps store_logs m \<Longrightarrow> steps (logs_only cfg) (zoomE rw_runs (\<lambda>s w. w\<lparr>rw_runs := s\<rparr>) err m)"
  by (rule steps_zoom) (auto intro: store_logs_world dest: stepsD)

lemma mutate_logs:
  assumes "mutate_bundle st run_id ctx f = Inr st'"
    and "\<And>k b. bundle_ok k b \<Longrightarrow> log_replays b \<Longrightarrow> bundle_ok k (f b) \<and> log_replays (f b) \<and> bundle_follows b (f b) \<and> rb_run (f b) = rb_run b"
  shows "store_logs st st'"
  unfolding store_logs_def
proof
  assume good: "store_good st"
  from assms(1) obtain k b where k: "dict_get st k = Some b" "st' = dict_put k (f b) st"
    by (auto simp: mutate_bundle_Inr)
  from store_goodD [OF good k(1)] have f: "bundle_ok k (f b)" "log_replays (f b)" "bundle_follows b (f b)" "rb_run (f b) = rb_run b"
    using assms(2) by blast+
  have "store_evolves st st'"
    unfolding k(2) by (rule store_evolves_put) (use k(1) f(3) in simp)
  moreover have "same_runs st st'"
    using k f(4) by (simp add: same_runs_def)
  moreover have "store_good st'"
    unfolding k(2) by (rule store_good_put [OF good f(1,2)])
  ultimately show "store_good st' \<and> store_evolves st st' \<and> same_runs st st'" by blast
qed

lemma usage_logs: "add_usage st ctx u = Inr st' \<Longrightarrow> store_logs st st'"
  unfolding add_usage_def
  by (erule mutate_logs) (simp add: bundle_ok_def log_replays_def bundle_follows_def)

lemma delivery_logs: "add_delivery st ctx d = Inr st' \<Longrightarrow> store_logs st st'"
  unfolding add_delivery_def
  by (erule mutate_logs) (simp add: bundle_ok_def log_replays_def bundle_follows_def)

lemma event_logs:
  "e_to_state e = None \<Longrightarrow> add_event st ctx e = Inr st' \<Longrightarrow> store_logs st st'"
  unfolding add_event_def
  by (erule mutate_logs)
     (simp add: bundle_ok_def log_replays_def bundle_follows_def sequenced_add replay_append legal_event_def after_event_def)

lemma append_logs: "steps (logs_only cfg) (append_event cfg run_id ty actor ctx from_state None detail)"
  unfolding append_event_def
  by (intro steps_bind [OF logs_only_trans] steps_if steps_raise [OF logs_only_refl] steps_quiet_logs [OF quiet_now] logs_store)
     (erule event_logs [rotated], simp)

lemma finish_logs: "steps store_logs (fanout_finish r d status error)"
  unfolding steps_def fanout_finish_def Let_def
  by (auto simp: bindE_def thenE_def getE_def liftE_def modifyE_def returnE_def raiseE_def
      delivery_logs store_logs_refl [THEN reflpD] split: sum.split)

lemma attempt_logs: "steps store_logs (fanout_attempt cfg now r message d)"
  unfolding fanout_attempt_def Let_def
  by (auto intro: finish_logs split: option.split prod.split)

lemma deliver_logs: "steps store_logs (deliver_all cfg clocks r message ds)"
  by (induction ds) (auto intro!: steps_bind [OF store_logs_trans] steps_return attempt_logs)

lemma notify_logs:
  "steps store_logs (fanout_notify cfg clocks r workload)" "steps store_logs (fanout_notify_escalation cfg clocks r workload)"
  unfolding fanout_notify_def fanout_notify_escalation_def
  by (auto intro: steps_return deliver_logs)

lemma notify_outcome_logs: "steps (logs_only cfg) (notify_outcome cfg u manifest)"
  unfolding notify_outcome_def
  by (intro steps_bind [OF logs_only_trans] steps_return [OF logs_only_refl] steps_quiet_logs [OF quiet_tick] logs_zoom notify_logs)

section \<open>The write of a transition\<close>

lemma can_transition_live: "can_transition s t \<Longrightarrow> \<not> terminal s"
  by (cases s) (auto simp: can_transition_def terminal_def)

lemma thenE_assoc: "thenE a (thenE b c) = thenE (thenE a b) c"
  by (rule ext) (simp add: thenE_def bindE_def split: prod.splits sum.splits)

lemma scopes_run_ctx [simp]: "scopes (run_ctx r) (r_tenant_id r)"
  by (simp add: run_ctx_def scopes_def)

lemma run_ctx_own [simp]: "\<not> tc_is_system (run_ctx r)" "tc_tenant_id (run_ctx r) = r_tenant_id r"
  by (simp_all add: run_ctx_def)

lemma get_run_stored:
  assumes "store_good st" and "get_run st ctx run_id = Some r"
  shows "r_id r = run_id \<and> (\<exists>b. dict_get st (r_tenant_id r, r_id r) = Some b \<and> rb_run b = r)"
proof -
  from assms(2) obtain k b where k: "find_key st run_id ctx = Some k" "dict_get st k = Some b" "r = rb_run b"
    by (auto simp: get_run_def find_bundle_def bind_eq_Some_conv)
  from store_goodD [OF assms(1) k(2)] show ?thesis using k find_key_scoped [OF k(1)] by (auto simp: bundle_ok_def)
qed

definition state_event :: "string \<Rightarrow> string \<Rightarrow> time \<Rightarrow> run_state \<Rightarrow> run_state \<Rightarrow> string option \<Rightarrow> run_event list \<Rightarrow> run_event" where
  "state_event run_id actor now from_state to_state detail events =
     \<lparr>e_run_id = run_id, e_sequence = next_sequence events, e_type = EV_STATE_CHANGE, e_actor = actor, e_timestamp = now,
      e_from_state = Some from_state, e_to_state = Some to_state, e_detail = detail\<rparr>"

lemma rely_put:
  assumes good: "runs_good cfg w" and ok: "bundle_ok k b'" "log_replays b'"
    and old: "\<And>b. dict_get (rw_runs w) k = Some b \<Longrightarrow> bundle_follows b b'"
    and new: "dict_get (rw_runs w) k = None \<Longrightarrow> key_ok k \<and> (\<exists>n < rw_ticks w. snd k = sv_ids cfg n 0) \<and>
      dict_all (\<lambda>k' _. snd k' \<noteq> snd k) (rw_runs w)"
    and w': "rw_runs w' = dict_put k b' (rw_runs w)" "rw_ticks w \<le> rw_ticks w'"
  shows "run_rely cfg w w'"
proof -
  let ?P = "\<lambda>k _. key_ok k \<and> (\<exists>n < rw_ticks w. snd k = sv_ids cfg n 0)"
  have st: "store_good (rw_runs w)" and keys: "dict_all ?P (rw_runs w)" and ids: "ids_unique (rw_runs w)"
    using good unfolding runs_good_def by blast+
  have "?P k b'" using new dict_allD [OF keys, of k] by (cases "dict_get (rw_runs w) k") auto
  then have "dict_all ?P (rw_runs w')" unfolding w'(1) by (rule dict_all_put [OF keys])
  then have "dict_all (\<lambda>k _. key_ok k \<and> (\<exists>n < rw_ticks w'. snd k = sv_ids cfg n 0)) (rw_runs w')"
    using w'(2) unfolding dict_all_def by (meson order_less_le_trans)
  moreover have "store_good (rw_runs w')" unfolding w'(1) by (rule store_good_put [OF st ok])
  moreover have "ids_unique (rw_runs w')" unfolding w'(1) by (rule ids_unique_put [OF ids]) (use new in blast)
  moreover have "store_evolves (rw_runs w) (rw_runs w')" unfolding w'(1) by (rule store_evolves_put) (rule old)
  ultimately show ?thesis using w'(2) by (simp add: run_rely_def runs_good_def)
qed

lemma save_event:
  assumes good: "runs_good cfg w" and b: "dict_get (rw_runs w) (r_tenant_id r, r_id r) = Some b" "rb_run b = r"
    and u: "can_transition (r_state r) (r_state u)" "same_run r u" and actor: "actor \<noteq> []"
  shows "\<exists>w' now. thenE (storeE (\<lambda>st. save_run st (run_ctx r) u))
      (append_event cfg (r_id r) EV_STATE_CHANGE actor (run_ctx r) (Some (r_state r)) (Some (r_state u)) detail) w = (Inr (), w') \<and>
    run_rely cfg w w' \<and>
    dict_get (rw_runs w') (r_tenant_id r, r_id r) = Some (b\<lparr>rb_run := u,
      rb_events := rb_events b @ [state_event (r_id r) actor now (r_state r) (r_state u) detail (rb_events b)]\<rparr>)"
proof -
  let ?k = "(r_tenant_id r, r_id r)" and ?now = "sv_clock cfg (rw_ticks w) 0"
  let ?e = "state_event (r_id r) actor ?now (r_state r) (r_state u) detail (rb_events b)"
  let ?b = "b\<lparr>rb_run := u, rb_events := rb_events b @ [?e]\<rparr>"
  note id = same_run_fields [OF u(2)]
  have st: "store_good (rw_runs w)" using good by (simp add: runs_good_def)
  note ok = store_goodD [OF st b(1)]
  have key: "r_id r \<noteq> []" using good b(1) by (auto simp: runs_good_def key_ok_def dest: dict_allD)
  have okb: "bundle_ok ?k ?b"
    using ok id sequenced_add [of "rb_events b" ?e] by (simp add: bundle_ok_def state_event_def)
  have logb: "log_replays ?b"
    using ok b(2) u(1) by (simp add: log_replays_def replay_append legal_event_def after_event_def state_event_def)
  have "run_follows r u"
    using u can_transition_live [OF u(1)] by (auto simp: run_follows_def)
  then have fol: "bundle_follows b ?b" using b(2) by (simp add: bundle_follows_def)
  let ?w = "w\<lparr>rw_runs := dict_put ?k ?b (rw_runs w), rw_ticks := rw_ticks w + 1\<rparr>"
  have pp: "dict_put ?k c (dict_put ?k c' st') = dict_put ?k c st'" for c c' and st' :: run_store
    by (rule AList.update_last)
  have "thenE (storeE (\<lambda>st. save_run st (run_ctx r) u))
      (append_event cfg (r_id r) EV_STATE_CHANGE actor (run_ctx r) (Some (r_state r)) (Some (r_state u)) detail) w = (Inr (), ?w)"
    using b actor key id pp
    by (simp add: thenE_def bindE_def storeE_def save_run_def require_def append_event_def nowE_def tickE_def returnE_def
        add_event_def mutate_bundle_def find_key_own state_event_def)
  moreover have "run_rely cfg w ?w"
    by (rule rely_put [OF good okb logb]) (use b(1) fol in simp_all)
  ultimately show ?thesis by (intro exI [of _ ?w] exI [of _ ?now]) simp
qed

end
