(* ===== verification/Run_Lifecycle.thy ===== *)
theory Run_Lifecycle
  imports Run_Guarantee
begin

text \<open>
  The guarantee of \<open>Run_Guarantee\<close> for every operation of the run service, whatever the runtime
  adapter and the hooks do within the same guarantee. Their contract is the locale \<open>run_ports\<close>,
  interpreted on the default executor.
\<close>

section \<open>The contract of the adapter and the hooks\<close>

lemma wp_steps:
  "steps R m \<Longrightarrow> (\<And>x t. R s t \<Longrightarrow> Q x t) \<Longrightarrow> (\<And>e t. R s t \<Longrightarrow> E e t) \<Longrightarrow> wp m Q E s"
  by (auto simp: wp_def steps_def split: prod.split sum.split dest: spec [of _ s])

lemma wp_snd: "wp m (\<lambda>_. P) (\<lambda>_. P) s = P (snd (m s))"
  by (simp add: wp_def split: prod.split sum.split)

lemma wp_bind_steps:
  "transp R \<Longrightarrow> R w s \<Longrightarrow> steps R m \<Longrightarrow> (\<And>x t. R w t \<Longrightarrow> wp (k x) Q E t) \<Longrightarrow> (\<And>e t. R w t \<Longrightarrow> E e t) \<Longrightarrow>
   wp (bindE m k) Q E s"
  unfolding wp_bind by (erule wp_steps) (blast dest: transpD)+

lemma wp_then_steps:
  "transp R \<Longrightarrow> R w s \<Longrightarrow> steps R m \<Longrightarrow> (\<And>t. R w t \<Longrightarrow> wp k Q E t) \<Longrightarrow> (\<And>e t. R w t \<Longrightarrow> E e t) \<Longrightarrow>
   wp (thenE m k) Q E s"
  unfolding thenE_def by (rule wp_bind_steps)

lemma steps_relyI:
  assumes "\<And>w. runs_good cfg w \<Longrightarrow> wp m (\<lambda>_. run_rely cfg w) (\<lambda>_. run_rely cfg w) w"
  shows "steps (run_rely cfg) m"
proof (rule steps_wpI)
  fix w
  show "wp m (\<lambda>_. run_rely cfg w) (\<lambda>_. run_rely cfg w) w"
    using assms by (cases "runs_good cfg w") (auto simp: wp_def run_rely_def split: prod.splits sum.splits)
qed

text \<open>Where a transition of \<open>r\<close> from \<open>w\<close> lands: it wrote the run and its event, then side effects.\<close>

definition landed ::
  "('d, 'x, 'sk, 'pk) run_config \<Rightarrow> ('d, 'x) run_world \<Rightarrow> run \<Rightarrow> run_state \<Rightarrow> string \<Rightarrow> string option \<Rightarrow> string option \<Rightarrow>
   json option \<Rightarrow> run \<Rightarrow> ('d, 'x) run_world \<Rightarrow> bool" where
  "landed cfg w r target actor detail reason result u t \<longleftrightarrow>
     (\<exists>n sid now b w'. u = (moved r target (sv_clock cfg n 0) reason result (sv_trace_id cfg n))\<lparr>r_sandbox_id := sid\<rparr> \<and>
        (target \<noteq> RUNNING \<longrightarrow> sid = r_sandbox_id r) \<and>
        dict_get (rw_runs w) (r_tenant_id r, r_id r) = Some b \<and>
        dict_get (rw_runs w') (r_tenant_id r, r_id r) = Some (b\<lparr>rb_run := u,
          rb_events := rb_events b @ [state_event (r_id r) actor now (r_state r) target detail (rb_events b)]\<rparr>) \<and>
        run_rely cfg w w' \<and> run_rely cfg w' t)"

lemma moved_same [simp]: "same_run r (moved r target now reason result tid)" "r_state (moved r target now reason result tid) = target"
  "r_sandbox_id (moved r target now reason result tid) = r_sandbox_id r"
  by (simp_all add: moved_def same_run_def)

lemma same_run_sandbox: "same_run r u \<Longrightarrow> same_run r (u\<lparr>r_sandbox_id := sid\<rparr>)"
  by (erule same_run_trans) (cases u, simp add: same_run_def)

lemma wp_provision_for:
  "wp (provision_for cfg from_state manifest u)
     (\<lambda>u' t. quiet w t \<and> (\<exists>sid. u' = u\<lparr>r_sandbox_id := sid\<rparr> \<and> (r_state u \<noteq> RUNNING \<longrightarrow> sid = r_sandbox_id u)))
     (\<lambda>e t. quiet w t \<and> r_state u = RUNNING) w"
proof -
  let ?t = "w\<lparr>rw_ticks := rw_ticks w + 1\<rparr>"
  have q: "quiet w (?t\<lparr>rw_sandboxes := x\<rparr>)" "quiet w ?t" for x by (simp_all add: quiet_def)
  have u: "\<exists>sid. u = u\<lparr>r_sandbox_id := sid\<rparr> \<and> (r_state u \<noteq> RUNNING \<longrightarrow> sid = r_sandbox_id u)"
    by (intro exI [of _ "r_sandbox_id u"]) simp
  show ?thesis
  proof (cases "r_state u = RUNNING \<and> from_state = QUEUED \<and> r_sandbox u \<and> rw_sandboxes w \<noteq> None")
    case False
    then have "provision_for cfg from_state manifest u w = (Inr u, ?t)"
      by (auto simp: provision_for_def bindE_def tickE_def optionalE_def returnE_def)
    then show ?thesis unfolding wp_def by (simp only: prod.case sum.case) (use q u in blast)
  next
    case True
    then obtain sb where sb: "rw_sandboxes w = Some sb" by auto
    obtain i where "provision_for cfg from_state manifest u w =
        (Inr (u\<lparr>r_sandbox_id := Some (si_sandbox_id i)\<rparr>), ?t\<lparr>rw_sandboxes := Some (dict_put (si_sandbox_id i) i sb)\<rparr>)"
      using True sb
      by (simp add: provision_for_def bindE_def tickE_def optionalE_def returnE_def provision_def thenE_def sandbox_save_def
          modifyE_def Let_def)
    then show ?thesis unfolding wp_def by (simp only: prod.case sum.case) (use q True in blast)
  qed
qed

lemma rely_append: "steps (run_rely cfg) (append_event cfg run_id ty actor ctx None None detail)"
  by (rule steps_logs_rely, rule append_logs)

lemmas relyI = steps_bind [OF run_rely_trans] steps_then [OF run_rely_trans] steps_when [OF run_rely_refl] steps_if steps_option
  steps_sum steps_return [OF run_rely_refl] steps_raise [OF run_rely_refl] steps_get [OF run_rely_refl]
  rely_append quiet_calls [THEN steps_quiet_rely]

lemma release_rely: "steps (run_rely cfg) (release_sandbox cfg actor u)"
  unfolding release_sandbox_def by (intro relyI steps_quiet_rely [OF quiet_optional]) simp

lemma attempt_rely: "steps (run_rely cfg) m \<Longrightarrow> steps (run_rely cfg) (attempt m)"
  unfolding attempt_def by (auto intro!: steps_catch relyI)

lemma landed_rely: "landed cfg w r target actor detail reason result u t \<Longrightarrow> run_rely cfg w t"
  unfolding landed_def using transpD [OF run_rely_trans] by blast

lemma wp_require: "wp (bindE (require_run run_id ctx) k) Q E w = (case get_run (rw_runs w) ctx run_id of
    None \<Rightarrow> E (RunStoreFailure (RunNotFoundError run_id)) w | Some r \<Rightarrow> wp (k r) Q E w)"
  by (simp add: require_run_def wps split: option.split)

lemma rely_refl: "run_rely cfg w w"
  by (rule reflpD [OF run_rely_refl])

lemma save_same:
  assumes "runs_good cfg t" and "dict_get (rw_runs t) (r_tenant_id r, r_id r) = Some b" "rb_run b = r"
    and "\<not> terminal (r_state r)" "same_run r u" "r_state u = r_state r"
  shows "\<exists>t'. storeE (\<lambda>st. save_run st (run_ctx r) u) t = (Inr (), t') \<and> run_rely cfg t t'"
proof -
  note id = same_run_fields [OF assms(5)]
  let ?k = "(r_tenant_id r, r_id r)" and ?b = "b\<lparr>rb_run := u\<rparr>"
  let ?t = "t\<lparr>rw_runs := dict_put ?k ?b (rw_runs t)\<rparr>"
  have st: "store_good (rw_runs t)" using assms(1) by (simp add: runs_good_def)
  note ok = store_goodD [OF st assms(2)]
  have b': "bundle_ok ?k ?b" "log_replays ?b" "bundle_follows b ?b"
    using ok id assms(3-6) by (simp_all add: bundle_ok_def log_replays_def bundle_follows_def run_follows_def)
  have "run_rely cfg t ?t"
    by (rule rely_put [OF assms(1) b'(1,2)]) (use assms(2) b'(3) in simp_all)
  moreover have "storeE (\<lambda>st. save_run st (run_ctx r) u) t = (Inr (), ?t)"
    using assms(2) id by (simp add: storeE_def save_run_def require_def)
  ultimately show ?thesis by blast
qed

lemma append_same:
  assumes "runs_good cfg t" and "dict_get (rw_runs t) (r_tenant_id r, r_id r) = Some b" and "r_state (rb_run b) = s"
  shows "run_rely cfg t (snd (append_event cfg (r_id r) ty actor (run_ctx r) None (Some s) detail t))"
proof (cases "r_id r = [] \<or> actor = []")
  case True
  then show ?thesis
    by (auto simp: append_event_def bindE_def nowE_def tickE_def returnE_def raiseE_def quiet_def intro!: quiet_rely)
next
  case False
  let ?k = "(r_tenant_id r, r_id r)"
  let ?e = "\<lparr>e_run_id = r_id r, e_sequence = next_sequence (rb_events b), e_type = ty, e_actor = actor,
    e_timestamp = sv_clock cfg (rw_ticks t) 0, e_from_state = None, e_to_state = Some s, e_detail = detail\<rparr>"
  let ?b = "b\<lparr>rb_events := rb_events b @ [?e]\<rparr>"
  let ?t = "t\<lparr>rw_runs := dict_put ?k ?b (rw_runs t), rw_ticks := rw_ticks t + 1\<rparr>"
  have st: "store_good (rw_runs t)" using assms(1) by (simp add: runs_good_def)
  note ok = store_goodD [OF st assms(2)]
  have b': "bundle_ok ?k ?b" "log_replays ?b" "bundle_follows b ?b"
    using ok assms(3) sequenced_add [of "rb_events b" ?e]
    by (simp_all add: bundle_ok_def log_replays_def replay_append legal_event_def after_event_def bundle_follows_def)
  have "run_rely cfg t ?t"
    by (rule rely_put [OF assms(1) b'(1,2)]) (use assms(2) b'(3) in simp_all)
  moreover have "append_event cfg (r_id r) ty actor (run_ctx r) None (Some s) detail t = (Inr (), ?t)"
    using False assms(2)
    by (simp add: append_event_def bindE_def nowE_def tickE_def returnE_def storeE_def add_event_def mutate_bundle_def find_key_own)
  ultimately show ?thesis by simp
qed

lemma persist_fresh:
  assumes good: "runs_good cfg t" and n: "r_id r = sv_ids cfg n 0" "n < rw_ticks t"
    and fresh: "dict_all (\<lambda>k _. snd k \<noteq> r_id r) (rw_runs t)"
    and ne: "key_ok (r_tenant_id r, r_id r)" "rq_caller q \<noteq> []" and state: "r_state r \<in> {QUEUED, PAUSED}" and ar: "ar_run_id result = r_id r"
  shows "\<exists>t' e. persist_run cfg q r result t = (Inr (), t') \<and> run_rely cfg t t' \<and>
    dict_get (rw_runs t') (r_tenant_id r, r_id r) =
      Some \<lparr>rb_run = r, rb_admission = Some result, rb_events = [e], rb_usage = [], rb_deliveries = []\<rparr> \<and>
    rw_ticks t' = rw_ticks t + 1 \<and> t' = t\<lparr>rw_runs := rw_runs t', rw_ticks := rw_ticks t'\<rparr>"
proof -
  let ?k = "(r_tenant_id r, r_id r)"
  let ?e = "\<lparr>e_run_id = r_id r, e_sequence = 0, e_type = EV_ADMISSION, e_actor = rq_caller q,
    e_timestamp = sv_clock cfg (rw_ticks t) 0, e_from_state = None, e_to_state = Some (r_state r),
    e_detail = Some (admission_outcome_value (ar_outcome result))\<rparr>"
  let ?b = "\<lparr>rb_run = r, rb_admission = Some result, rb_events = [?e], rb_usage = [], rb_deliveries = []\<rparr>"
  let ?t = "t\<lparr>rw_runs := dict_put ?k ?b (rw_runs t), rw_ticks := rw_ticks t + 1\<rparr>"
  have none: "dict_get (rw_runs t) ?k = None"
    using fresh by (cases "dict_get (rw_runs t) ?k") (auto dest: dict_allD)
  have pp: "dict_put ?k c (dict_put ?k c' st') = dict_put ?k c st'" for c c' and st' :: run_store
    by (rule AList.update_last)
  have b': "bundle_ok ?k ?b" "log_replays ?b"
    using state by (auto simp: bundle_ok_def sequenced_def log_replays_def legal_event_def after_event_def)
  have "run_rely cfg t ?t"
    by (rule rely_put [OF good b']) (use n ne none fresh in auto)
  moreover have "persist_run cfg q r result t = (Inr (), ?t)"
    using none ne ar pp
    by (simp add: key_ok_def persist_run_def thenE_def bindE_def storeE_def save_run_def require_def save_admission_def add_event_def
        mutate_bundle_def find_key_own append_event_def nowE_def tickE_def returnE_def next_sequence_def)
  ultimately show ?thesis by (intro exI [of _ ?t] exI [of _ ?e]) simp
qed

lemma write_lands:
  assumes good: "runs_good cfg w" and b: "dict_get (rw_runs w) (r_tenant_id r, r_id r) = Some b" "rb_run b = r"
    and legal: "can_transition (r_state r) target" and actor: "actor \<noteq> []" and w1: "quiet w w1"
    and u: "u = (moved r target (sv_clock cfg n 0) reason result (sv_trace_id cfg n))\<lparr>r_sandbox_id := sid\<rparr>"
      "target \<noteq> RUNNING \<longrightarrow> sid = r_sandbox_id r"
    and rest: "steps (run_rely cfg) rest" and ret: "\<And>s x t. rest s = (Inr x, t) \<Longrightarrow> x = u"
  shows "wp (thenE (storeE (\<lambda>st. save_run st (run_ctx r) u))
     (thenE (append_event cfg (r_id r) EV_STATE_CHANGE actor (run_ctx r) (Some (r_state r)) (Some target) detail) rest))
       (landed cfg w r target actor detail reason result) (\<lambda>e t. \<exists>u. landed cfg w r target actor detail reason result u t) w1"
proof -
  let ?L = "landed cfg w r target actor detail reason result"
  have w1g: "runs_good cfg w1" "rw_runs w1 = rw_runs w"
    using w1 good by (auto simp: quiet_def intro: runs_good_later)
  have "r_state u = target" "same_run r u" using u(1) by (simp_all add: same_run_sandbox)
  then obtain w2 now where w2: "thenE (storeE (\<lambda>st. save_run st (run_ctx r) u))
      (append_event cfg (r_id r) EV_STATE_CHANGE actor (run_ctx r) (Some (r_state r)) (Some target) detail) w1 = (Inr (), w2)"
    "run_rely cfg w1 w2" "dict_get (rw_runs w2) (r_tenant_id r, r_id r) = Some (b\<lparr>rb_run := u,
        rb_events := rb_events b @ [state_event (r_id r) actor now (r_state r) target detail (rb_events b)]\<rparr>)"
    using save_event [OF w1g(1), of r b u actor detail] b w1g(2) legal actor by auto
  have "run_rely cfg w w2"
    using transpD [OF run_rely_trans quiet_rely [OF w1] w2(2)] .
  then have "?L u t" if "run_rely cfg w2 t" for t
    unfolding landed_def using u b(1) w2(3) that by blast
  moreover have "run_rely cfg w2 (snd (rest w2))" using rest by (simp add: steps_def)
  moreover have v: "wp (thenE (storeE (\<lambda>st. save_run st (run_ctx r) u))
      (append_event cfg (r_id r) EV_STATE_CHANGE actor (run_ctx r) (Some (r_state r)) (Some target) detail)) Q E w1 = Q () w2" for Q E
    by (rule wp_value) (rule w2(1))
  ultimately show ?thesis
    unfolding thenE_assoc [of _ _ rest] wp_then [of _ rest] v
    by (cases "rest w2"; cases "fst (rest w2)") (auto simp: wp_def dest: ret)
qed

section \<open>The path of a submission\<close>

definition routed :: "run \<Rightarrow> run \<Rightarrow> bool" where
  "routed r r' \<longleftrightarrow> r' = r\<lparr>r_canary_rollout_id := r_canary_rollout_id r', r_canary_arm := r_canary_arm r',
     r_manifest_version := r_manifest_version r'\<rparr>"

lemma routed_fields:
  assumes "routed r r'"
  shows "r_id r' = r_id r" "r_state r' = r_state r" "r_tenant_id r' = r_tenant_id r" "r_workload_id r' = r_workload_id r"
    "r_context r' = r_context r" "run_ctx r' = run_ctx r"
proof -
  note eq = assms [unfolded routed_def, THEN arg_cong]
  show "r_id r' = r_id r" using eq [of r_id] by simp
  show "r_state r' = r_state r" using eq [of r_state] by simp
  show "r_tenant_id r' = r_tenant_id r" using eq [of r_tenant_id] by simp
  show "r_workload_id r' = r_workload_id r" using eq [of r_workload_id] by simp
  show "r_context r' = r_context r" using eq [of r_context] by simp
  show "run_ctx r' = run_ctx r" using eq [of run_ctx] by (simp add: run_ctx_def)
qed

lemma routed_refl: "routed r r"
  by (simp add: routed_def)

lemma wp_assign_canary:
  "wp (assign_canary cfg q r) (\<lambda>r' t. quiet w t \<and> routed r r') (\<lambda>_ t. quiet w t) w"
proof (cases "rq_context q = PRODUCTION \<and> rq_shadow_of q = None \<and> \<not> rq_probe q")
  case False
  have "assign_canary cfg q r = returnE r" unfolding assign_canary_def if_not_P [OF False] by (rule refl)
  then show ?thesis by (simp add: wp_return routed_refl reflpD [OF quiet_refl])
next
  case True
  have "routed r (r\<lparr>r_canary_rollout_id := i, r_canary_arm := a, r_manifest_version := v\<rparr>)" for i a v
    by (cases r) (simp add: routed_def)
  then show ?thesis
    unfolding assign_canary_def if_P [OF True]
    by (intro wp_bind_steps [OF quiet_trans reflpD [OF quiet_refl] quiet_optional])
       (auto simp: wp_return wp_option routed_refl split: option.split)
qed

text \<open>\<open>raises P m\<close>: every error that \<open>m\<close> raises satisfies \<open>P\<close>.\<close>

definition raises :: "('e \<Rightarrow> bool) \<Rightarrow> ('s, 'e, 'a) exec \<Rightarrow> bool" where
  "raises P m = (\<forall>s. wp m (\<lambda>_ _. True) (\<lambda>e _. P e) s)"

lemma raises_bind:
  assumes "raises P m" "\<And>x. raises P (k x)"
  shows "raises P (bindE m k)"
  unfolding raises_def
proof
  fix s
  have "wp m (\<lambda>_ _. True) (\<lambda>e _. P e) s" using assms(1) by (simp add: raises_def)
  then show "wp (bindE m k) (\<lambda>_ _. True) (\<lambda>e _. P e) s"
    unfolding wp_bind by (rule wp_conseq) (use assms(2) in \<open>simp_all add: raises_def\<close>)
qed

lemma raises_then: "raises P m \<Longrightarrow> raises P k \<Longrightarrow> raises P (thenE m k)"
  unfolding thenE_def by (rule raises_bind)

lemma raises_zoom: "(\<And>d. P (err d)) \<Longrightarrow> raises P (zoomE get put err m)"
  by (simp add: raises_def wp_def zoomE_def split: prod.split sum.split)

lemma raises_optional: "(\<And>d. P (err d)) \<Longrightarrow> raises P (optionalE get put err x m)"
  by (simp add: raises_def wp_def optionalE_def split: option.split prod.split sum.split)

lemma raises_simple:
  "raises P (returnE x)" "raises P (getE f)" "raises P tickE" "P e \<Longrightarrow> raises P (raiseE e)"
  by (simp_all add: raises_def wps) (simp add: wp_def tickE_def)

lemma raises_cases:
  "(b \<Longrightarrow> raises P m) \<Longrightarrow> (\<not> b \<Longrightarrow> raises P n) \<Longrightarrow> raises P (if b then m else n)"
  "raises P m' \<Longrightarrow> (\<And>y. raises P (k y)) \<Longrightarrow> raises P (case x of None \<Rightarrow> m' | Some y \<Rightarrow> k y)"
  by (auto split: option.split)

lemma raises_now: "raises P (nowE cfg)"
  unfolding nowE_def by (intro raises_bind raises_simple)

lemmas raisesI = raises_bind raises_then raises_simple raises_cases raises_now

definition refusal_error :: "run_error \<Rightarrow> bool" where
  "refusal_error e = (\<forall>res. e = RunAdmissionRefusedError res \<longrightarrow> ar_outcome res = REFUSED)"

lemma refusal_errors [simp]:
  "refusal_error (RunRegistryFailure a)" "refusal_error (RunTenantFailure b)" "refusal_error (RunDefenseFailure c)"
  "refusal_error (RunCanaryFailure d)" "refusal_error (RunValidationError f)" "refusal_error RunContextError"
  "refusal_error (RunPolicyFailure g)" "refusal_error (RunAdmissionRefusedError h) \<longleftrightarrow> ar_outcome h = REFUSED"
  by (simp_all add: refusal_error_def)

lemma scan_raises: "raises refusal_error (scan_task_input cfg r manifest)"
  unfolding scan_task_input_def Let_def
  by (intro raisesI raises_optional) (simp_all add: injection_refusal_def)

lemma admission_raises: "raises refusal_error (pipeline_check cfg r manifest require_approval)"
  unfolding pipeline_check_def Let_def attestation_model_def registryE_def policy_evaluate_def budget_gate_check_def
  by (intro raisesI raises_zoom) (auto intro!: raisesI split: policy_gate.split budget_gate.split sum.split)

lemma canary_raises: "raises refusal_error (assign_canary cfg q r)"
  unfolding assign_canary_def by (intro raisesI raises_optional) simp

lemma wp_quietly:
  assumes "steps quiet m" "raises P m" "quiet w s"
    and "\<And>x t. m s = (Inr x, t) \<Longrightarrow> quiet w t \<Longrightarrow> rw_ticks s \<le> rw_ticks t \<Longrightarrow> Q x t" "\<And>e t. P e \<Longrightarrow> quiet w t \<Longrightarrow> E e t"
  shows "wp m Q E s"
proof -
  have q: "quiet s (snd (m s))" using assms(1) by (simp add: steps_def)
  have "quiet w (snd (m s))" by (rule transpD [OF quiet_trans assms(3) q])
  moreover have "wp m (\<lambda>_ _. True) (\<lambda>e _. P e) s" using assms(2) by (simp add: raises_def)
  ultimately show ?thesis
    using q assms(4,5) by (cases "m s"; cases "fst (m s)") (auto simp: wp_def quiet_def)
qed

text \<open>A submission either fails with the runs untouched or gets as far as placing an admitted run.\<close>

lemma wp_submit:
  assumes err: "\<And>e t. refusal_error e \<Longrightarrow> quiet w t \<Longrightarrow> E e t"
    and place: "\<And>rec r0 wa wb res r t.
      (case rw_tenants w of None \<Rightarrow> True | Some st \<Rightarrow> \<exists>x. require_active st ctx (tc_tenant_id ctx) = Inr x) \<Longrightarrow>
      get_workload (rw_registry w) ctx (rq_workload q) = Some rec \<Longrightarrow>
      r0 = new_run (sv_ids cfg (rw_ticks w) 0) (sv_clock cfg (rw_ticks w) 0) (sv_trace_id cfg (rw_ticks w)) q (wl_current_version rec) ctx \<Longrightarrow>
      run_valid r0 \<Longrightarrow>
      scan_task_input cfg r0 (wl_manifest rec) (w\<lparr>rw_ticks := Suc (rw_ticks w)\<rparr>) = (Inr (), wa) \<Longrightarrow>
      pipeline_check cfg r0 (wl_manifest rec) (rq_require_approval q) wa = (Inr res, wb) \<Longrightarrow>
      ar_outcome res \<noteq> REFUSED \<Longrightarrow> quiet w t \<Longrightarrow> rw_ticks w < rw_ticks t \<Longrightarrow> routed (admitted_run r0 res) r \<Longrightarrow>
      wp (place_run cfg q r res (wl_manifest rec)) Q E t"
  shows "wp (submit cfg q ctx) Q E w"
proof -
  let ?w1 = "w\<lparr>rw_ticks := Suc (rw_ticks w)\<rparr>"
  have q0: "quiet w w" and q1: "quiet w ?w1" by (simp_all add: quiet_def)
  have active: "wp (thenE (require_active_tenant ctx) k) Q E w = (case rw_tenants w of None \<Rightarrow> wp k Q E w
      | Some st \<Rightarrow> (case require_active st ctx (tc_tenant_id ctx) of Inl e \<Rightarrow> E (RunTenantFailure e) w | Inr x \<Rightarrow> wp k Q E w))"
    for k :: "('a, 'b, run) serves"
    by (simp add: require_active_tenant_def wps split: option.split sum.split)
  have get: "wp (bindE (registryE (registry_get (rq_workload q) ctx)) k) Q E w = (case get_workload (rw_registry w) ctx (rq_workload q) of
      None \<Rightarrow> E (RunRegistryFailure (WorkloadNotFoundError (rq_workload q))) w | Some rec \<Rightarrow> wp (k rec) Q E w)"
    for k :: "workload_record \<Rightarrow> ('a, 'b, run) serves"
    by (simp add: registryE_def wp_bind wp_zoom registry_get_def wps split: option.split)
  have tick: "wp (bindE tickE k) Q E w = wp (k (rw_ticks w)) Q E ?w1" for k :: "nat \<Rightarrow> ('a, 'b, run) serves"
    by (simp add: wp_def bindE_def tickE_def)
  note e0 = err [OF _ q0]
  show ?thesis
  proof (cases "\<exists>rec. get_workload (rw_registry w) ctx (rq_workload q) = Some rec \<and>
      (case rw_tenants w of None \<Rightarrow> True | Some st \<Rightarrow> \<exists>x. require_active st ctx (tc_tenant_id ctx) = Inr x)")
    case False
    then show ?thesis
      unfolding submit_def active get by (auto simp: e0 split: option.splits sum.splits)
  next
    case True
    then obtain rec where rec: "get_workload (rw_registry w) ctx (rq_workload q) = Some rec"
      and act: "case rw_tenants w of None \<Rightarrow> True | Some st \<Rightarrow> \<exists>x. require_active st ctx (tc_tenant_id ctx) = Inr x" by blast
    let ?r0 = "new_run (sv_ids cfg (rw_ticks w) 0) (sv_clock cfg (rw_ticks w) 0) (sv_trace_id cfg (rw_ticks w)) q (wl_current_version rec) ctx"
    have "wp (if \<not> run_valid ?r0 then raiseE (RunValidationError ''Run'')
      else thenE (scan_task_input cfg ?r0 (wl_manifest rec))
        (bindE (pipeline_check cfg ?r0 (wl_manifest rec) (rq_require_approval q)) (\<lambda>result.
         if ar_outcome result = REFUSED then raiseE (RunAdmissionRefusedError result)
         else bindE (assign_canary cfg q (admitted_run ?r0 result)) (\<lambda>r.
           place_run cfg q r result (wl_manifest rec))))) Q E ?w1"
    proof (cases "run_valid ?r0")
      case False
      then show ?thesis by (simp add: wp_raise err [OF _ q1])
    next
      case valid: True
      have placed: "wp (bindE (assign_canary cfg q (admitted_run ?r0 res)) (\<lambda>r. place_run cfg q r res (wl_manifest rec))) Q E wb"
        if "scan_task_input cfg ?r0 (wl_manifest rec) ?w1 = (Inr (), wa)" "rw_ticks ?w1 \<le> rw_ticks wb" "quiet w wb"
          "pipeline_check cfg ?r0 (wl_manifest rec) (rq_require_approval q) wa = (Inr res, wb)" "ar_outcome res \<noteq> REFUSED" for res wa wb
        unfolding wp_bind
      proof (rule wp_quietly [OF quiet_canary canary_raises that(3)])
        fix r t
        assume r: "assign_canary cfg q (admitted_run ?r0 res) wb = (Inr r, t)" and t: "quiet w t" "rw_ticks wb \<le> rw_ticks t"
        have "routed (admitted_run ?r0 res) r"
          using wp_result [OF wp_assign_canary r] by blast
        then show "wp (place_run cfg q r res (wl_manifest rec)) Q E t"
          using place [OF act rec refl valid that(1,4,5) t(1)] t(2) that(2) by simp
      qed (rule err)
      have nv: "\<not> \<not> run_valid ?r0" using valid by simp
      show ?thesis
        unfolding if_not_P [OF nv] wp_then
      proof (rule wp_quietly [OF quiet_scan scan_raises q1])
        fix x wa
        assume wa: "scan_task_input cfg ?r0 (wl_manifest rec) ?w1 = (Inr x, wa)" "quiet w wa" "rw_ticks ?w1 \<le> rw_ticks wa"
        show "wp (bindE (pipeline_check cfg ?r0 (wl_manifest rec) (rq_require_approval q)) (\<lambda>result.
            if ar_outcome result = REFUSED then raiseE (RunAdmissionRefusedError result)
            else bindE (assign_canary cfg q (admitted_run ?r0 result)) (\<lambda>r. place_run cfg q r result (wl_manifest rec)))) Q E wa"
          unfolding wp_bind [of "pipeline_check cfg ?r0 (wl_manifest rec) (rq_require_approval q)"]
        proof (rule wp_quietly [OF quiet_admission admission_raises wa(2)])
          fix res wb
          assume wb: "pipeline_check cfg ?r0 (wl_manifest rec) (rq_require_approval q) wa = (Inr res, wb)" "quiet w wb"
            "rw_ticks wa \<le> rw_ticks wb"
          show "wp (if ar_outcome res = REFUSED then raiseE (RunAdmissionRefusedError res)
            else bindE (assign_canary cfg q (admitted_run ?r0 res)) (\<lambda>r. place_run cfg q r res (wl_manifest rec))) Q E wb"
            using placed [of wa wb res] wa wb err [OF _ wb(2), of "RunAdmissionRefusedError res"]
            by (cases "ar_outcome res = REFUSED") (simp_all add: wp_raise)
        qed (rule err)
      qed (rule err)
    qed
    then show ?thesis
      unfolding submit_def active get tick Let_def
      using rec act by (auto split: option.splits sum.splits)
  qed
qed

locale run_ports =
  fixes cfg :: "('d, 'x, 'sk, 'pk) run_config"
  assumes fresh_ids: "sv_ids cfg m 0 = sv_ids cfg n 0 \<Longrightarrow> m = n"
    and start_rely: "steps (run_rely cfg) (ex_start (sv_executor cfg) c)"
    and pause_rely: "steps (run_rely cfg) (ex_pause (sv_executor cfg) run_id)"
    and resume_rely: "steps (run_rely cfg) (ex_resume (sv_executor cfg) run_id)"
    and cancel_rely: "steps (run_rely cfg) (ex_cancel (sv_executor cfg) run_id)"
    and reattach_rely: "ex_reattach (sv_executor cfg) = Some f \<Longrightarrow> steps (run_rely cfg) (f c)"
    and eval_rely: "sv_eval_hook cfg = Some h \<Longrightarrow> steps (run_rely cfg) (h r)"
    and terminal_rely: "sv_terminal_hook cfg = Some g \<Longrightarrow> steps (run_rely cfg) (g run_id)"
begin

lemma hook_rely: "steps (run_rely cfg) (hookE (sv_eval_hook cfg) r)" "steps (run_rely cfg) (hookE (sv_terminal_hook cfg) run_id)"
  unfolding hookE_def by (auto intro: relyI eval_rely terminal_rely split: option.split)

lemma finish_rely: "steps (run_rely cfg) (finish_run cfg actor u manifest)"
  unfolding finish_run_def Let_def
  by (intro relyI attempt_rely hook_rely steps_logs_rely [OF notify_outcome_logs] steps_quiet_rely [OF quiet_sample])

lemma transition_lands:
  assumes good: "runs_good cfg w" and get: "get_run (rw_runs w) ctx run_id = Some r"
    and legal: "can_transition (r_state r) target" and actor: "actor \<noteq> []"
  shows "wp (transition cfg run_id target actor detail reason result ctx)
    (\<lambda>u t. landed cfg w r target actor detail reason result u t)
    (\<lambda>e t. quiet w t \<and> (terminal target \<longrightarrow> fst (run_manifest r w) = Inl e) \<or>
       (\<exists>u. landed cfg w r target actor detail reason result u t)) w"
proof -
  let ?L = "landed cfg w r target actor detail reason result"
  have st: "store_good (rw_runs w)" using good by (simp add: runs_good_def)
  obtain b where id: "r_id r = run_id" and b: "dict_get (rw_runs w) (r_tenant_id r, r_id r) = Some b" "rb_run b = r"
    using get_run_stored [OF st get] by blast
  have rq: "wp (bindE (require_run run_id ctx) k) Q E w = wp (k r) Q E w" for k :: "run \<Rightarrow> ('d, 'x, run) serves" and Q E
    using get by (simp add: require_run_def wps)
  show ?thesis
    unfolding transition_def rq
  proof (simp only: legal not_True_eq_False if_False, subst wp_bind)
    let ?E = "\<lambda>e t. quiet w t \<and> (terminal target \<longrightarrow> fst (run_manifest r w) = Inl e) \<or> (\<exists>u. ?L u t)"
    let ?rest = "\<lambda>manifest updated.
      thenE (whenE (target = RUNNING \<and> r_state r = QUEUED)
        (thenE (ex_start (sv_executor cfg) \<lparr>rx_run = updated, rx_workload = manifest, rx_sandbox = r_sandbox updated\<rparr>)
          (case r_sandbox_id updated of
             None \<Rightarrow> returnE ()
           | Some sandbox_id \<Rightarrow> append_event cfg run_id EV_SANDBOX actor (run_ctx r) None None (Some (''provisioned '' @ sandbox_id)))))
      (thenE (whenE (terminal target) (thenE (release_sandbox cfg actor updated) (finish_run cfg actor updated manifest)))
        (returnE updated))"
    have rest: "steps (run_rely cfg) (?rest m u)" for m u
      by (intro relyI start_rely release_rely finish_rely)
    have ret: "?rest m u s = (Inr x, t) \<Longrightarrow> x = u" for m u s x t
      by (auto simp: thenE_def bindE_def returnE_def split: prod.splits sum.splits)
    have cont: "wp (bindE tickE (\<lambda>n. bindE (provision_for cfg (r_state r) m
        (moved r target (sv_clock cfg n 0) reason result (sv_trace_id cfg n))) (\<lambda>updated.
        thenE (storeE (\<lambda>st. save_run st (run_ctx r) updated))
          (thenE (append_event cfg run_id EV_STATE_CHANGE actor (run_ctx r) (Some (r_state r)) (Some target) detail)
            (?rest m updated))))) ?L ?E w1" if w1: "quiet w w1" for m w1
    proof -
      let ?w2 = "w1\<lparr>rw_ticks := rw_ticks w1 + 1\<rparr>" and ?n = "rw_ticks w1"
      let ?u = "moved r target (sv_clock cfg ?n 0) reason result (sv_trace_id cfg ?n)"
      have w2: "quiet w ?w2" using w1 by (simp add: quiet_def)
      have tick: "wp (bindE tickE k) Q E w1 = wp (k ?n) Q E ?w2" for k :: "nat \<Rightarrow> ('d, 'x, run) serves" and Q E
        by (simp add: wp_def bindE_def tickE_def)
      show ?thesis
      proof (subst tick, subst wp_bind, rule wp_conseq [OF wp_provision_for])
        fix u t
        assume u: "quiet ?w2 t \<and> (\<exists>sid. u = ?u\<lparr>r_sandbox_id := sid\<rparr> \<and> (r_state ?u \<noteq> RUNNING \<longrightarrow> sid = r_sandbox_id ?u))"
        then obtain sid where sid: "u = ?u\<lparr>r_sandbox_id := sid\<rparr>" "target \<noteq> RUNNING \<longrightarrow> sid = r_sandbox_id r" by auto
        have "quiet w t" using transpD [OF quiet_trans w2] u by blast
        from write_lands [OF good b legal actor this sid rest ret, unfolded id]
        show "wp (thenE (storeE (\<lambda>st. save_run st (run_ctx r) u))
          (thenE (append_event cfg run_id EV_STATE_CHANGE actor (run_ctx r) (Some (r_state r)) (Some target) detail)
            (?rest m u))) ?L ?E t"
          by (rule wp_conseq) auto
      next
        fix e t
        assume e: "quiet ?w2 t \<and> r_state ?u = RUNNING"
        then have "quiet w t" using transpD [OF quiet_trans w2] by blast
        then show "?E e t" using e by (simp add: terminal_def)
      qed
    qed
    show "wp (run_manifest r) (\<lambda>m. wp (bindE tickE (\<lambda>n. bindE (provision_for cfg (r_state r) m
        (moved r target (sv_clock cfg n 0) reason result (sv_trace_id cfg n))) (\<lambda>updated.
        thenE (storeE (\<lambda>st. save_run st (run_ctx r) updated))
          (thenE (append_event cfg run_id EV_STATE_CHANGE actor (run_ctx r) (Some (r_state r)) (Some target) detail)
            (?rest m updated))))) ?L ?E) ?E w"
      using quiet_run_manifest [of r] cont
      by (auto simp: wp_def [of "run_manifest r"] steps_def split: prod.split sum.split dest: spec [of _ w])
  qed
qed

lemma transition_rely:
  assumes "actor \<noteq> []"
  shows "steps (run_rely cfg) (transition cfg run_id target actor detail reason result ctx)"
proof (rule steps_relyI)
  fix w
  assume good: "runs_good cfg w"
  show "wp (transition cfg run_id target actor detail reason result ctx) (\<lambda>_. run_rely cfg w) (\<lambda>_. run_rely cfg w) w"
  proof (cases "\<exists>r. get_run (rw_runs w) ctx run_id = Some r \<and> can_transition (r_state r) target")
    case True
    then obtain r where r: "get_run (rw_runs w) ctx run_id = Some r" "can_transition (r_state r) target" by blast
    show ?thesis
      by (rule wp_conseq [OF transition_lands [OF good r assms]]) (auto intro: landed_rely quiet_rely)
  next
    case False
    then show ?thesis
      unfolding transition_def wp_require by (auto simp: wps rely_refl split: option.split)
  qed
qed

lemma fail_rely: "actor \<noteq> [] \<Longrightarrow> steps (run_rely cfg) (fail_run cfg run_id actor reason ctx)"
  unfolding fail_run_def by (intro relyI transition_rely)

lemma reattach_run_rely: "steps (run_rely cfg) (reattach cfg run_id ctx)"
  unfolding reattach_def by (intro relyI reattach_rely)

lemma intervene_rely: "actor \<noteq> [] \<Longrightarrow> steps (run_rely cfg) (intervene cfg run_id action actor ctx)"
  unfolding intervene_def Let_def
  by (cases action) (auto intro!: relyI transition_rely pause_rely resume_rely cancel_rely start_rely)

lemma guard_usage_rely: "steps (run_rely cfg) (guard_usage cfg u report remaining ctx)"
  unfolding guard_usage_def
  by (intro relyI steps_quiet_rely [OF quiet_guards] transition_rely) simp

lemma checkpoint_rely: "steps (run_rely cfg) (checkpoint cfg run_id ctx)"
  unfolding checkpoint_def
  by (intro relyI steps_modify) (simp add: quiet_rely quiet_def)

lemma record_event_rely: "steps (run_rely cfg) (record_event cfg run_id ty actor detail ctx)"
  unfolding record_event_def by (intro relyI)

lemma preempt_rely: "steps (run_rely cfg) (preempt_victim cfg p ctx)"
  unfolding preempt_victim_def Let_def by (intro relyI transition_rely) simp

lemma register_rely: "steps (run_rely cfg) (register_with_scheduler cfg r qos priority ctx)"
  unfolding register_with_scheduler_def Let_def by (intro relyI preempt_rely)

lemma charged_rely:
  assumes good: "runs_good cfg w" and r: "dict_get (rw_runs w) (r_tenant_id r, r_id r) = Some b" "rb_run b = r" "\<not> terminal (r_state r)"
    and t: "logs_only cfg w t" and u: "same_run r u" "r_state u = r_state r" and rest: "steps (run_rely cfg) rest"
  shows "wp (thenE (storeE (\<lambda>st. save_run st (run_ctx r) u)) rest) (\<lambda>_. run_rely cfg w) (\<lambda>_. run_rely cfg w) t"
proof -
  have tg: "runs_good cfg t" "same_runs (rw_runs w) (rw_runs t)" "run_rely cfg w t"
    using t good by (auto simp: logs_only_def run_rely_def)
  obtain b' where b': "dict_get (rw_runs t) (r_tenant_id r, r_id r) = Some b'" "rb_run b' = r"
    using same_runsD [OF tg(2) r(1)] r(2) by blast
  obtain t' where t': "storeE (\<lambda>st. save_run st (run_ctx r) u) t = (Inr (), t')" "run_rely cfg t t'"
    using save_same [OF tg(1) b' r(3) u] by blast
  have "run_rely cfg w t'" by (rule transpD [OF run_rely_trans tg(3) t'(2)])
  then have "wp rest (\<lambda>_. run_rely cfg w) (\<lambda>_. run_rely cfg w) t'"
    by (intro wp_steps [OF rest]) (blast intro: transpD [OF run_rely_trans])+
  moreover have "wp (storeE (\<lambda>st. save_run st (run_ctx r) u)) Q E t = Q () t'" for Q E
    by (rule wp_value) (rule t'(1))
  ultimately show ?thesis unfolding wp_then by simp
qed

lemma settle_rely:
  assumes good: "runs_good cfg w" and r: "dict_get (rw_runs w) (r_tenant_id r, r_id r) = Some b" "rb_run b = r" "\<not> terminal (r_state r)"
    and t: "logs_only cfg w t"
  shows "wp (settle_usage cfg r report check ctx) (\<lambda>_. run_rely cfg w) (\<lambda>_. run_rely cfg w) t"
  unfolding settle_usage_def Let_def
proof (rule wp_then_steps [OF logs_only_trans t logs_store [OF usage_logs]], assumption,
    rule wp_then_steps [OF logs_only_trans _ append_logs], assumption,
    rule wp_bind_steps [OF logs_only_trans _ steps_quiet_logs [OF quiet_now]], assumption, rule charged_rely [OF good r])
  show "same_run r (r\<lparr>r_cost_usd := x, r_updated_at := now\<rparr>)" for x now
    by (cases r) (simp add: same_run_def)
qed (auto intro!: relyI fail_rely guard_usage_rely logs_rely split: option.split)

lemma quiet_price: "steps quiet (price_usage cfg r workload report)"
  unfolding price_usage_def Let_def by (intro quietI quiet_budget_usage)

lemma usage_rely: "steps (run_rely cfg) (record_usage cfg run_id report ctx)"
proof (rule steps_relyI)
  fix w
  assume good: "runs_good cfg w"
  show "wp (record_usage cfg run_id report ctx) (\<lambda>_. run_rely cfg w) (\<lambda>_. run_rely cfg w) w"
  proof (cases "get_run (rw_runs w) ctx run_id")
    case None
    then show ?thesis unfolding record_usage_def wp_require by (simp add: rely_refl)
  next
    case (Some r)
    have "store_good (rw_runs w)" using good by (simp add: runs_good_def)
    then obtain b where b: "dict_get (rw_runs w) (r_tenant_id r, r_id r) = Some b" "rb_run b = r"
      using get_run_stored Some by blast
    have refl: "logs_only cfg w w" by (rule reflpD [OF logs_only_refl])
    note seq = wp_bind_steps [OF logs_only_trans] wp_then_steps [OF logs_only_trans]
    show ?thesis
    proof (cases "terminal (r_state r)")
      case True
      show ?thesis
        unfolding record_usage_def wp_require Some option.case if_P [OF True]
        by (rule seq(1) [OF refl steps_quiet_logs [OF quiet_registry]], rule seq(2) [OF _ append_logs], assumption)
          (auto simp: wp_return intro: logs_rely)
    next
      case False
      show ?thesis
        unfolding record_usage_def wp_require Some option.case if_not_P [OF False]
        by (rule seq(1) [OF refl steps_quiet_logs [OF quiet_registry]], rule seq(1) [OF _ steps_quiet_logs [OF quiet_price]], assumption,
            rule settle_rely [OF good b False]) (auto intro: logs_rely)
    qed
  qed
qed

lemma escalate_rely:
  assumes "runs_good cfg t" and "dict_get (rw_runs t) (r_tenant_id r, r_id r) = Some b" "r_state (rb_run b) = PAUSED"
  shows "wp (escalate_run cfg q r result manifest) (\<lambda>_. run_rely cfg t) (\<lambda>_. run_rely cfg t) t"
proof -
  let ?a = "append_event cfg (r_id r) EV_STATE_CHANGE (rq_caller q) (run_ctx r) None (Some PAUSED) (Some ''escalation'')"
  have a: "wp ?a (\<lambda>_. run_rely cfg t) (\<lambda>_. run_rely cfg t) t"
    unfolding wp_snd by (rule append_same [OF assms])
  have rest: "steps (run_rely cfg) (bindE tickE (\<lambda>n.
        thenE (optionalE rw_approvals (\<lambda>a w. w\<lparr>rw_approvals := a\<rparr>) RunApprovalFailure () (m n))
          (bindE (zoomE rw_runs (\<lambda>s w. w\<lparr>rw_runs := s\<rparr>) RunStoreFailure
              (fanout_notify_escalation (sv_fanout cfg) (\<lambda>i. sv_clock cfg n (2 + i)) r manifest)) (\<lambda>_. returnE ()))))" for m
    by (intro relyI steps_quiet_rely [OF quiet_optional] steps_logs_rely [OF logs_zoom] notify_logs) simp
  show ?thesis
    unfolding escalate_run_def Let_def wp_then [of ?a]
    by (rule wp_conseq [OF a], rule wp_steps [OF rest]) (auto intro: transpD [OF run_rely_trans])
qed

lemma place_rely:
  assumes "runs_good cfg t" "r_id r = sv_ids cfg n 0" "n < rw_ticks t" "dict_all (\<lambda>k _. snd k \<noteq> r_id r) (rw_runs t)"
    "key_ok (r_tenant_id r, r_id r)" "rq_caller q \<noteq> []" "r_state r \<in> {QUEUED, PAUSED}" "ar_run_id result = r_id r"
    and esc: "ar_escalation_required result \<longrightarrow> r_state r = PAUSED"
  shows "wp (place_run cfg q r result manifest) (\<lambda>_. run_rely cfg t) (\<lambda>_. run_rely cfg t) t"
proof -
  obtain t1 e where t1: "persist_run cfg q r result t = (Inr (), t1)" "run_rely cfg t t1"
    "dict_get (rw_runs t1) (r_tenant_id r, r_id r) =
      Some \<lparr>rb_run = r, rb_admission = Some result, rb_events = [e], rb_usage = [], rb_deliveries = []\<rparr>"
    using persist_fresh [OF assms(1-8)] by blast
  have good: "runs_good cfg t1" using t1(2) assms(1) by (simp add: run_rely_def)
  have v: "wp (persist_run cfg q r result) Q E t = Q () t1" for Q E
    by (rule wp_value) (rule t1(1))
  have "wp (whenE (ar_escalation_required result) (escalate_run cfg q r result manifest)) (\<lambda>_. run_rely cfg t) (\<lambda>_. run_rely cfg t) t1"
    unfolding wp_when
  proof (cases "ar_escalation_required result"; simp only: if_True if_False)
    case True
    then have "r_state (rb_run \<lparr>rb_run = r, rb_admission = Some result, rb_events = [e], rb_usage = [], rb_deliveries = []\<rparr>) = PAUSED"
      using esc by simp
    from escalate_rely [OF good t1(3) this]
    show "wp (escalate_run cfg q r result manifest) (\<lambda>_. run_rely cfg t) (\<lambda>_. run_rely cfg t) t1"
      by (rule wp_conseq) (rule transpD [OF run_rely_trans t1(2)], assumption)+
  qed (rule t1(2))
  moreover have "steps (run_rely cfg) (bindE (getE rw_scheduler) (\<lambda>sched.
        thenE (case (rq_qos q, sched) of
            (Some qos, Some _) \<Rightarrow> register_with_scheduler cfg r qos (rq_priority q) (run_ctx r)
          | _ \<Rightarrow> returnE ()) (returnE r)))"
    by (auto intro!: relyI register_rely split: option.split)
  ultimately show ?thesis
    unfolding place_run_def wp_then v
    by - (erule wp_conseq, erule wp_steps, auto intro: transpD [OF run_rely_trans])
qed

lemma submit_rely: "steps (run_rely cfg) (submit cfg q ctx)"
proof (rule steps_relyI, rule wp_submit)
  fix w t :: "('d, 'x) run_world" and rec r0 wa wb res r
  let ?n = "rw_ticks w"
  assume good: "runs_good cfg w" and t: "quiet w t" "?n < rw_ticks t"
    and r0: "r0 = new_run (sv_ids cfg ?n 0) (sv_clock cfg ?n 0) (sv_trace_id cfg ?n) q (wl_current_version rec) ctx" "run_valid r0"
    and res: "pipeline_check cfg r0 (wl_manifest rec) (rq_require_approval q) wa = (Inr res, wb)"
    and r: "routed (admitted_run r0 res) r"
  note f = routed_fields [OF r]
  have id: "r_id r = sv_ids cfg ?n 0" "key_ok (r_tenant_id r, r_id r)" "rq_caller q \<noteq> []"
    using f r0 by (auto simp: key_ok_def admitted_run_def new_run_def run_valid_def Let_def)
  have state: "r_state r \<in> {QUEUED, PAUSED}" "ar_escalation_required res \<longrightarrow> r_state r = PAUSED"
    using f r0(1) by (auto simp: admitted_run_def new_run_def Let_def)
  have ar: "ar_run_id res = r_id r"
    using admission_returned [OF res] f by (simp add: admitted_run_def Let_def)
  have fresh: "dict_all (\<lambda>k _. snd k \<noteq> r_id r) (rw_runs t)"
    using good t(1) id(1) unfolding runs_good_def quiet_def dict_all_def by (metis fresh_ids less_irrefl)
  have "run_rely cfg w t" by (rule quiet_rely [OF t(1)])
  moreover have "runs_good cfg t" using good t by (auto simp: quiet_def intro: runs_good_later)
  ultimately show "wp (place_run cfg q r res (wl_manifest rec)) (\<lambda>_. run_rely cfg w) (\<lambda>_. run_rely cfg w) t"
    by (intro wp_conseq [OF place_rely [OF _ id(1) t(2) fresh id(2,3) state(1) ar state(2)]])
       (auto intro: transpD [OF run_rely_trans])
qed (rule quiet_rely)

end

section \<open>The service as a transition system\<close>

text \<open>
  Calls of the service in any order, interleaved with whatever other components do to the rest of
  the world. Callers pass a non-empty actor, as the event model requires.
\<close>

inductive run_step :: "('d, 'x, 'sk, 'pk) run_config \<Rightarrow> ('d, 'x) run_world \<Rightarrow> ('d, 'x) run_world \<Rightarrow> bool" for cfg where
  step_submit: "run_step cfg w (snd (submit cfg q ctx w))"
| step_transition: "actor \<noteq> [] \<Longrightarrow> run_step cfg w (snd (transition cfg run_id target actor detail reason result ctx w))"
| step_fail: "actor \<noteq> [] \<Longrightarrow> run_step cfg w (snd (fail_run cfg run_id actor reason ctx w))"
| step_intervene: "actor \<noteq> [] \<Longrightarrow> run_step cfg w (snd (intervene cfg run_id action actor ctx w))"
| step_usage: "run_step cfg w (snd (record_usage cfg run_id report ctx w))"
| step_checkpoint: "run_step cfg w (snd (checkpoint cfg run_id ctx w))"
| step_event: "run_step cfg w (snd (record_event cfg run_id ty actor detail ctx w))"
| step_reattach: "run_step cfg w (snd (reattach cfg run_id ctx w))"
| step_elsewhere: "rw_runs w' = rw_runs w \<Longrightarrow> rw_ticks w \<le> rw_ticks w' \<Longrightarrow> run_step cfg w w'"

context run_ports
begin

lemma run_step_rely: "run_step cfg w w' \<Longrightarrow> run_rely cfg w w'"
proof (induction rule: run_step.induct)
  case (step_elsewhere w' w)
  then show ?case by (intro quiet_rely) (simp add: quiet_def)
qed (use submit_rely transition_rely fail_rely intervene_rely usage_rely checkpoint_rely record_event_rely reattach_run_rely
  in \<open>auto simp: steps_def\<close>)

lemma run_steps_rely: "(run_step cfg)\<^sup>*\<^sup>* w w' \<Longrightarrow> run_rely cfg w w'"
  by (induction rule: rtranclp_induct) (auto intro: rely_refl transpD [OF run_rely_trans] run_step_rely)

lemma empty_good: "rw_runs w = [] \<Longrightarrow> runs_good cfg w"
  by (simp add: runs_good_def store_good_def run_store_ok_def ids_unique_def)

lemma reachable_good: "rw_runs w0 = [] \<Longrightarrow> (run_step cfg)\<^sup>*\<^sup>* w0 w \<Longrightarrow> runs_good cfg w"
  using run_steps_rely empty_good by (auto simp: run_rely_def)

end

section \<open>The default executor keeps the contract\<close>

definition null_service :: "('d, (string, run_state) dict, 'sk, 'pk) run_config \<Rightarrow> ('d, (string, run_state) dict, 'sk, 'pk) run_config" where
  "null_service cfg = cfg\<lparr>sv_executor := NullRunExecutor, sv_eval_hook := None, sv_terminal_hook := None,
     sv_ids := (\<lambda>n i. nat_str n)\<rparr>"

lemma quiet_null: "steps quiet (null_put run_id state)"
  unfolding null_put_def by (rule steps_modify) (simp add: quiet_def)

interpretation null_run: run_ports "null_service cfg" for cfg :: "('d, (string, run_state) dict, 'sk, 'pk) run_config"
proof
  show "m = n" if "sv_ids (null_service cfg) m 0 = sv_ids (null_service cfg) n 0" for m n
  proof -
    have "nat_str m = nat_str n" using that by (simp add: null_service_def)
    then have "int m = int n" by (metis digits_value_nat_str)
    then show ?thesis by simp
  qed
qed (auto simp: null_service_def NullRunExecutor_def intro!: steps_quiet_rely quietI quiet_null)

section \<open>Properties\<close>

text \<open>
  C2: the event log of every run is its history. In every state the service can reach from an empty
  store, by any calls and whatever the adapter and the hooks do within their contract (run ids are
  fresh, and an adapter or a hook changes stored runs only as the service itself does: it may call the service back), the log of a
  run is numbered without gaps and replays: it opens with the run queued or paused, every later
  state change starts in the state the log has reached and is an edge of the state machine, and the
  log ends in the state the run is stored with.
\<close>

theorem event_log_replays:
  assumes "run_ports cfg" and "rw_runs w0 = []" and "(run_step cfg)\<^sup>*\<^sup>* w0 w" and "get_run (rw_runs w) ctx run_id = Some r"
  shows "\<exists>es. list_events (rw_runs w) ctx run_id = Inr es \<and> map e_sequence es = map int [0..<length es] \<and>
    replay None es = Some (Some (r_state r))"
proof -
  have good: "store_good (rw_runs w)"
    using run_ports.reachable_good [OF assms(1-3)] by (simp add: runs_good_def)
  obtain k b where k: "find_key (rw_runs w) run_id ctx = Some k" "dict_get (rw_runs w) k = Some b" "r = rb_run b"
    using assms(4) by (auto simp: get_run_def find_bundle_def bind_eq_Some_conv)
  note ok = store_goodD [OF good k(2)]
  then have "list_events (rw_runs w) ctx run_id = Inr (rb_events b)"
    using k by (simp add: list_events_def require_bundle_def find_bundle_def bundle_ok_def sort_sequenced)
  then show ?thesis using ok k(3) by (simp add: bundle_ok_def sequenced_def log_replays_def)
qed

text \<open>
  C6: runs only progress. Under the same contract, from any reachable state, after any further calls, a run a tenant could read
  is still there with everything that identifies it, its state has moved along the state machine,
  and a run in a terminal state is exactly as it was.
\<close>

theorem runs_progress:
  assumes "run_ports cfg" and "rw_runs w0 = []" and "(run_step cfg)\<^sup>*\<^sup>* w0 w" and "(run_step cfg)\<^sup>*\<^sup>* w w'"
    and "\<not> tc_is_system ctx" and "get_run (rw_runs w) ctx run_id = Some r"
  shows "\<exists>r'. get_run (rw_runs w') ctx run_id = Some r' \<and> same_run r r' \<and> can_transition\<^sup>*\<^sup>* (r_state r) (r_state r') \<and>
    (terminal (r_state r) \<longrightarrow> r' = r)"
proof -
  have "store_evolves (rw_runs w) (rw_runs w')"
    using run_ports.run_steps_rely [OF assms(1,4)] run_ports.reachable_good [OF assms(1-3)] by (simp add: run_rely_def)
  moreover obtain b where b: "dict_get (rw_runs w) (tc_tenant_id ctx, run_id) = Some b" "rb_run b = r"
    using assms(5,6) by (auto simp: get_run_def find_bundle_own)
  ultimately obtain b' where b': "dict_get (rw_runs w') (tc_tenant_id ctx, run_id) = Some b'" "bundle_follows b b'"
    using store_evolvesD by blast
  then have "get_run (rw_runs w') ctx run_id = Some (rb_run b')"
    using assms(5) by (simp add: get_run_def find_bundle_own)
  moreover have "run_follows r (rb_run b')" using b b' by (simp add: bundle_follows_def)
  ultimately show ?thesis by (auto simp: run_follows_def)
qed

lemma list_events_own:
  "store_good st \<Longrightarrow> dict_get st (r_tenant_id r, run_id) = Some b \<Longrightarrow> list_events st (run_ctx r) run_id = Inr (rb_events b)"
  using store_goodD [of st "(r_tenant_id r, run_id)" b]
  by (simp add: list_events_def require_bundle_def find_bundle_own bundle_ok_def sort_sequenced)

lemma landed_terminal:
  assumes good: "runs_good cfg w" and l: "landed cfg w r target actor detail reason result u t" and t: "run_rely cfg t w'"
    and target: "terminal target"
  shows "\<exists>n now es es'. get_run (rw_runs w') (run_ctx r) (r_id r) = Some (moved r target (sv_clock cfg n 0) reason result (sv_trace_id cfg n)) \<and>
    list_events (rw_runs w) (run_ctx r) (r_id r) = Inr es \<and>
    list_events (rw_runs w') (run_ctx r) (r_id r) = Inr (es @ [state_event (r_id r) actor now (r_state r) target detail es] @ es')"
proof -
  let ?k = "(r_tenant_id r, r_id r)"
  from l obtain n sid now b w2 where u: "u = (moved r target (sv_clock cfg n 0) reason result (sv_trace_id cfg n))\<lparr>r_sandbox_id := sid\<rparr>"
      "target \<noteq> RUNNING \<longrightarrow> sid = r_sandbox_id r"
    and b: "dict_get (rw_runs w) ?k = Some b" "dict_get (rw_runs w2) ?k = Some (b\<lparr>rb_run := u,
          rb_events := rb_events b @ [state_event (r_id r) actor now (r_state r) target detail (rb_events b)]\<rparr>)"
    and w2: "run_rely cfg w w2" "run_rely cfg w2 t"
    unfolding landed_def by blast
  let ?m = "moved r target (sv_clock cfg n 0) reason result (sv_trace_id cfg n)"
  have "?m\<lparr>r_sandbox_id := r_sandbox_id r\<rparr> = ?m" by (cases r) (simp add: moved_def)
  moreover have "target \<noteq> RUNNING" using target by (auto simp: terminal_def)
  ultimately have um: "u = ?m" using u by simp
  have "run_rely cfg w2 w'" by (rule transpD [OF run_rely_trans w2(2) t])
  moreover have "runs_good cfg w2" using good w2(1) by (simp add: run_rely_def)
  ultimately have w': "runs_good cfg w'" "store_evolves (rw_runs w2) (rw_runs w')" by (auto simp: run_rely_def)
  obtain b' where b': "dict_get (rw_runs w') ?k = Some b'" "bundle_follows (b\<lparr>rb_run := u,
          rb_events := rb_events b @ [state_event (r_id r) actor now (r_state r) target detail (rb_events b)]\<rparr>) b'"
    using store_evolvesD [OF w'(2) b(2)] by blast
  have "rb_run b' = ?m" using b'(2) um target by (simp add: bundle_follows_def run_follows_def)
  then have "get_run (rw_runs w') (run_ctx r) (r_id r) = Some ?m"
    using b'(1) by (simp add: get_run_def find_bundle_own)
  moreover obtain es' where "rb_events b' = rb_events b @ [state_event (r_id r) actor now (r_state r) target detail (rb_events b)] @ es'"
    using b'(2) by (auto simp: bundle_follows_def prefix_def)
  moreover have "list_events (rw_runs w) (run_ctx r) (r_id r) = Inr (rb_events b)"
    by (rule list_events_own) (use good b(1) in \<open>simp_all add: runs_good_def\<close>)
  moreover have "list_events (rw_runs w') (run_ctx r) (r_id r) = Inr (rb_events b')"
    by (rule list_events_own) (use w'(1) b'(1) in \<open>simp_all add: runs_good_def\<close>)
  ultimately show ?thesis
    by (intro exI [of _ n] exI [of _ now] exI [of _ "rb_events b"] exI [of _ es']) simp
qed

text \<open>
  C3: an outcome is recorded before anything can go wrong with its side effects. Under the same contract, when a legal
  transition to a terminal state is requested for a run whose manifest can be read, then whether the
  call returns or a hook, the sandbox, the fan-out, the audit log or the executor raises, the run is
  stored with the new state, its finish time, failure reason and result, its log has gained exactly
  the event of the transition before any event of the side effects, and no later call changes the
  run.
\<close>

theorem terminal_outcome_sticks:
  assumes "run_ports cfg" and "rw_runs w0 = []" and "(run_step cfg)\<^sup>*\<^sup>* w0 w"
    and "get_run (rw_runs w) ctx run_id = Some r" and "can_transition (r_state r) target" and "terminal target" and "actor \<noteq> []"
    and "fst (run_manifest r w) = Inr manifest"
    and "(run_step cfg)\<^sup>*\<^sup>* (snd (transition cfg run_id target actor detail reason result ctx w)) w'"
  shows "\<exists>n now es es'. get_run (rw_runs w') (run_ctx r) run_id = Some (moved r target (sv_clock cfg n 0) reason result (sv_trace_id cfg n)) \<and>
    list_events (rw_runs w) (run_ctx r) run_id = Inr es \<and>
    list_events (rw_runs w') (run_ctx r) run_id =
      Inr (es @ [state_event run_id actor now (r_state r) target detail es] @ es')"
proof -
  let ?m = "transition cfg run_id target actor detail reason result ctx"
  have good: "runs_good cfg w" by (rule run_ports.reachable_good [OF assms(1-3)])
  then have id: "r_id r = run_id" using get_run_stored [OF _ assms(4)] by (simp add: runs_good_def)
  have "wp ?m (\<lambda>_ t. \<exists>u. landed cfg w r target actor detail reason result u t)
      (\<lambda>_ t. \<exists>u. landed cfg w r target actor detail reason result u t) w"
    by (rule wp_conseq [OF run_ports.transition_lands [OF assms(1) good assms(4,5,7)]]) (use assms(6,8) in auto)
  then obtain u where "landed cfg w r target actor detail reason result u (snd (?m w))"
    unfolding wp_snd by blast
  from landed_terminal [OF good this run_ports.run_steps_rely [OF assms(1,9)] assms(6)] show ?thesis
    unfolding id .
qed






lemma place_raises:
  assumes "rq_qos q = None"
  shows "raises (\<lambda>e. \<forall>res. e \<noteq> RunAdmissionRefusedError res) (place_run cfg q r result manifest)"
proof -
  have store: "raises (\<lambda>e. \<forall>res. e \<noteq> RunAdmissionRefusedError res) (storeE f)" for f
    by (simp add: raises_def wp_def storeE_def split: sum.split)
  have event: "raises (\<lambda>e. \<forall>res. e \<noteq> RunAdmissionRefusedError res) (append_event cfg run_id ty actor ctx from_state to_state detail)"
    for run_id ty actor ctx from_state to_state detail
    unfolding append_event_def by (intro raisesI store) simp
  show ?thesis
    unfolding place_run_def persist_run_def escalate_run_def Let_def whenE_def assms prod.case option.case
    by (intro raisesI store event raises_zoom raises_optional) simp_all
qed




text \<open>
  A refused submission leaves no run behind. When a submission that asks for no scheduling class
  raises the refusal error, the error carries a refusal and the stored runs are what they were.
\<close>

theorem submit_refused_traceless:
  assumes "submit cfg q ctx w = (Inl (RunAdmissionRefusedError res), w')" and "rq_qos q = None"
  shows "ar_outcome res = REFUSED \<and> rw_runs w' = rw_runs w"
proof -
  let ?E = "\<lambda>e t. \<forall>res. e = RunAdmissionRefusedError res \<longrightarrow> ar_outcome res = REFUSED \<and> rw_runs t = rw_runs w"
  have "wp (submit cfg q ctx) (\<lambda>_ _. True) ?E w"
  proof (rule wp_submit)
    show "wp (place_run cfg q r res (wl_manifest rec)) (\<lambda>_ _. True) ?E t" for rec r res t
      by (rule wp_conseq [OF place_raises [OF assms(2), unfolded raises_def, rule_format]]) simp_all
  qed (simp add: refusal_error_def quiet_def)
  from wp_error [OF this assms(1)] show ?thesis by simp
qed

section \<open>A run of the service\<close>

abbreviation sample_null :: "(nat, (string, run_state) dict, string, string) run_config" where
  "sample_null \<equiv> null_service sample_service_config"

definition sample_request :: "string \<Rightarrow> run_request" where
  "sample_request workload = \<lparr>rq_workload = workload, rq_caller = ''ops'', rq_context = STAGING, rq_task = [], rq_model_identity = None,
     rq_trigger_origin = None, rq_pipeline_origin = None, rq_agent_tool_origin = None, rq_require_approval = False,
     rq_shadow_of = None, rq_probe = False, rq_read_only = False, rq_qos = None, rq_priority = 0\<rparr>"

abbreviation acme :: tenant_context where
  "acme \<equiv> context_for_run ''acme'' None None"

lemma sample_admits:
  assumes "r_context r = Some STAGING" "run_ctx r = acme" "r_model_identity r = None"
  shows "\<exists>res k. pipeline_check sample_null r (sample_certified ''w'' CERTIFIED) False (sample_world\<lparr>rw_ticks := n\<rparr>) =
      (Inr res, sample_world\<lparr>rw_ticks := n + k\<rparr>) \<and> ar_outcome res = ADMITTED \<and> ar_run_id res = r_id r \<and>
    \<not> ar_sandbox res \<and> \<not> ar_escalation_required res"
proof -
  let ?w = "sample_world\<lparr>rw_ticks := n\<rparr>" and ?m = "sample_certified ''w'' CERTIFIED"
  obtain rec where rec: "get_workload (rw_registry ?w) (run_ctx r) (workload_name ?m) = Some rec" "wl_certification_status rec = CERTIFIED"
    using sample_world_workload [of None None] assms(2) by auto
  define d where "d = policy_answer sample_null ?w (admission_policy_context r ?m STAGING)"
  have p: "pd_outcome d = ALLOW" "pd_action_class d = None"
    by (simp_all add: d_def policy_answer_def null_service_def sample_service_config_def sample_world_def evaluate_def decide_def Let_def
        admission_policy_context_def)
  have b: "bc_allowed (budget_answer sample_null ?w ?m (run_ctx r))"
    by (simp add: budget_answer_def null_service_def sample_service_config_def sample_world_def budget_check_run_def day_spend_def
        tenant_cap_def Let_def dict_get_default_def sample_certified_def sample_workload_def sample_budget_def)
  have h: "halt_open ?w r ?m" "model_ok r bound" "policy_open d" for bound
    using p assms(3) by (simp_all add: halt_open_def sample_world_def model_ok_def policy_open_def)
  have v: "admission_verdict rc now (rw_registry ?w) rec STAGING" for rc :: "(string, string) registry_config" and now
    using rec(2) by (simp add: admission_verdict_def)
  have sb: "\<not> sandbox_required ?m STAGING None"
    by (simp add: sandbox_required_def sample_certified_def sample_workload_def Let_def)
  have at: "list_all (verifies (sv_registry sample_null)) (store_list_attestations (rw_registry ?w) (run_ctx r) (workload_name ?m))"
    using sample_world_attestations by simp
  have "gates_open sample_null ?w r ?m STAGING rec"
    using v b h unfolding gates_open_def d_def by blast
  then obtain res k where res: "pipeline_check sample_null r ?m False ?w = (Inr res, ?w\<lparr>rw_ticks := rw_ticks ?w + k\<rparr>)"
    "ar_run_id res = r_id r" "admits_as ?m STAGING False d res"
    using admission_evaluates [OF assms(1) rec(1) at, of False] unfolding d_def by (metis (no_types, lifting))
  moreover have "ar_outcome res = ADMITTED" "\<not> ar_sandbox res" "\<not> ar_escalation_required res"
    using res(3) sb p by (simp_all add: admits_as_def)
  ultimately show ?thesis by auto
qed

lemma sample_submits:
  "\<exists>r w'. submit sample_null (sample_request ''w'') acme sample_world = (Inr r, w') \<and> r_id r = nat_str 0 \<and> r_state r = QUEUED \<and>
     run_ctx r = acme \<and> r_workload_id r = ''w'' \<and> r_canary_rollout_id r = None \<and>
     get_run (rw_runs w') acme (nat_str 0) = Some r \<and> rw_registry w' = rw_registry sample_world \<and>
     \<not> r_sandbox r \<and> r_sandbox_id r = None \<and> rw_sandboxes w' = None"
proof -
  obtain rec where rec: "get_workload (rw_registry sample_world) acme ''w'' = Some rec"
    "wl_manifest rec = sample_certified ''w'' CERTIFIED" "wl_current_version rec = 1"
    using sample_world_workload by blast
  define r where "r = new_run (nat_str 0) 0 None (sample_request ''w'') 1 acme"
  have f: "r_context r = Some STAGING" "run_ctx r = acme" "r_model_identity r = None" "r_id r = nat_str 0" "r_state r = QUEUED"
    "r_tenant_id r = ''acme''" "run_valid r" "r_workload_id r = ''w''" "r_canary_rollout_id r = None" "\<not> r_sandbox r" "r_sandbox_id r = None"
    by (simp_all add: r_def new_run_def sample_request_def run_ctx_def run_valid_def context_for_run_def)
  obtain res k where res: "pipeline_check sample_null r (sample_certified ''w'' CERTIFIED) False (sample_world\<lparr>rw_ticks := 2\<rparr>) =
      (Inr res, sample_world\<lparr>rw_ticks := 2 + k\<rparr>)" "ar_outcome res = ADMITTED" "ar_run_id res = r_id r" "\<not> ar_sandbox res"
      "\<not> ar_escalation_required res"
    using sample_admits [OF f(1-3), of 2] by blast
  let ?t = "sample_world\<lparr>rw_ticks := 2 + k\<rparr>"
  have "runs_good sample_null ?t" by (rule null_run.empty_good) (simp add: sample_world_def)
  then obtain t' e where t': "persist_run sample_null (sample_request ''w'') r res ?t = (Inr (), t')"
    "dict_get (rw_runs t') (r_tenant_id r, r_id r) =
      Some \<lparr>rb_run = r, rb_admission = Some res, rb_events = [e], rb_usage = [], rb_deliveries = []\<rparr>"
    "t' = ?t\<lparr>rw_runs := rw_runs t', rw_ticks := rw_ticks t'\<rparr>"
    using persist_fresh [of sample_null ?t r 0 "sample_request ''w''" res] f res(3)
    by (auto simp: key_ok_def null_service_def sample_world_def sample_request_def)
  have scan: "scan_task_input sample_null r m (sample_world\<lparr>rw_ticks := 1\<rparr>) = (Inr (), sample_world\<lparr>rw_ticks := 2\<rparr>)" for m
    by (simp add: scan_task_input_def bindE_def tickE_def optionalE_def defense_view_def sample_world_def returnE_def Let_def numeral_2_eq_2)
  have sched: "rw_scheduler t' = None" "rw_registry t' = rw_registry sample_world" "rw_sandboxes t' = None"
    by (subst t'(3), simp add: sample_world_def)+
  have ids: "new_run (sv_ids sample_null 0 0) (sv_clock sample_null 0 0) (sv_trace_id sample_null 0) (sample_request ''w'') 1 acme = r"
    by (simp add: r_def null_service_def sample_service_config_def)
  have e1: "require_active_tenant acme sample_world = (Inr (), sample_world)"
    by (simp add: require_active_tenant_def bindE_def getE_def returnE_def sample_world_def)
  have e2: "registryE (registry_get ''w'' acme) sample_world = (Inr rec, sample_world)"
    using rec(1) by (simp add: registryE_def zoomE_def registry_get_def bindE_def getE_def returnE_def)
  have e3: "tickE sample_world = (Inr 0, sample_world\<lparr>rw_ticks := 1\<rparr>)"
    by (simp add: tickE_def sample_world_def)
  have e4: "admitted_run r res = r" "assign_canary sample_null (sample_request ''w'') r ?t = (Inr r, ?t)"
    using res(4,5) by (simp_all add: admitted_run_def assign_canary_def sample_request_def returnE_def)
  have e5: "place_run sample_null (sample_request ''w'') r res m ?t = (Inr r, t')" for m
    using t'(1) res(5) sched by (simp add: place_run_def thenE_def bindE_def whenE_def getE_def returnE_def sample_request_def)
  have q: "rq_workload (sample_request ''w'') = ''w''" "\<not> rq_require_approval (sample_request ''w'')"
    by (simp_all add: sample_request_def)
  have "submit sample_null (sample_request ''w'') acme sample_world = (Inr r, t')"
    unfolding submit_def
    using e1 e2 e3 e4 e5 q ids rec(2,3) f(7) scan res(1,2)
    by (simp add: thenE_def bindE_def)
  moreover have "get_run (rw_runs t') acme (nat_str 0) = Some r"
    using t'(2) f by (simp add: get_run_def find_bundle_own)
  ultimately show ?thesis using f sched by blast
qed

lemma sample_reached:
  "\<exists>r w. (run_step sample_null)\<^sup>*\<^sup>* sample_world w \<and> get_run (rw_runs w) acme (nat_str 0) = Some r \<and> r_state r = QUEUED \<and>
     run_ctx r = acme \<and> (\<exists>m. fst (run_manifest r w) = Inr m)"
proof -
  obtain r w where r: "submit sample_null (sample_request ''w'') acme sample_world = (Inr r, w)" "r_state r = QUEUED" "run_ctx r = acme"
    "r_workload_id r = ''w''" "r_canary_rollout_id r = None" "get_run (rw_runs w) acme (nat_str 0) = Some r"
    "rw_registry w = rw_registry sample_world"
    using sample_submits by blast
  have "run_step sample_null sample_world w"
    using step_submit [of sample_null sample_world "sample_request ''w''" acme] r(1) by simp
  moreover obtain rec where "get_workload (rw_registry w) acme ''w'' = Some rec"
    using sample_world_workload r(7) by metis
  then have "fst (run_manifest r w) = Inr (wl_manifest rec)"
    using r(3-5) by (simp add: run_manifest_def registryE_def zoomE_def registry_get_def bindE_def getE_def returnE_def)
  ultimately show ?thesis using r by blast
qed

lemma sample_world_empty: "rw_runs sample_world = []"
  by (simp add: sample_world_def)

theorem event_log_replays_witness:
  "\<exists>w es. (run_step sample_null)\<^sup>*\<^sup>* sample_world w \<and> list_events (rw_runs w) acme (nat_str 0) = Inr es \<and>
     replay None es = Some (Some QUEUED)"
proof -
  obtain r w where r: "(run_step sample_null)\<^sup>*\<^sup>* sample_world w" "get_run (rw_runs w) acme (nat_str 0) = Some r" "r_state r = QUEUED"
    using sample_reached by blast
  from event_log_replays [OF null_run.run_ports_axioms sample_world_empty r(1,2)] r show ?thesis by auto
qed

theorem runs_progress_witness:
  "\<exists>w r r'. (run_step sample_null)\<^sup>*\<^sup>* sample_world w \<and> get_run (rw_runs w) acme (nat_str 0) = Some r \<and>
     get_run (rw_runs (snd (checkpoint sample_null (nat_str 0) acme w))) acme (nat_str 0) = Some r' \<and> same_run r r'"
proof -
  obtain r w where r: "(run_step sample_null)\<^sup>*\<^sup>* sample_world w" "get_run (rw_runs w) acme (nat_str 0) = Some r"
    using sample_reached by blast
  have "(run_step sample_null)\<^sup>*\<^sup>* w (snd (checkpoint sample_null (nat_str 0) acme w))"
    by (intro r_into_rtranclp step_checkpoint)
  from runs_progress [OF null_run.run_ports_axioms sample_world_empty r(1) this _ r(2)] r show ?thesis by auto
qed

theorem terminal_outcome_sticks_witness:
  "\<exists>w r n. (run_step sample_null)\<^sup>*\<^sup>* sample_world w \<and> get_run (rw_runs w) acme (nat_str 0) = Some r \<and> r_state r = QUEUED \<and>
     get_run (rw_runs (snd (transition sample_null (nat_str 0) CANCELLED ''ops'' None None None acme w))) acme (nat_str 0) =
       Some (moved r CANCELLED (sv_clock sample_null n 0) None None (sv_trace_id sample_null n))"
proof -
  obtain r w m where r: "(run_step sample_null)\<^sup>*\<^sup>* sample_world w" "get_run (rw_runs w) acme (nat_str 0) = Some r" "r_state r = QUEUED"
    "run_ctx r = acme" "fst (run_manifest r w) = Inr m"
    using sample_reached by blast
  have "can_transition (r_state r) CANCELLED" "terminal CANCELLED" using r(3) by (simp_all add: can_transition_def terminal_def)
  from terminal_outcome_sticks [OF null_run.run_ports_axioms sample_world_empty r(1,2) this _ r(5) rtranclp.rtrancl_refl, of "''ops''"] r
  show ?thesis by auto
qed


text \<open>Without an attestation the same workload is refused for production.\<close>

theorem submit_refused_traceless_witness:
  "\<exists>res w'. submit sample_null ((sample_request ''w'')\<lparr>rq_context := PRODUCTION\<rparr>) acme sample_world = (Inl (RunAdmissionRefusedError res), w') \<and>
     ar_outcome res = REFUSED \<and> rw_runs w' = []"
proof -
  let ?q = "(sample_request ''w'')\<lparr>rq_context := PRODUCTION\<rparr>" and ?w = "sample_world\<lparr>rw_ticks := 2\<rparr>"
  let ?m = "sample_certified ''w'' CERTIFIED"
  obtain rec where rec: "get_workload (rw_registry sample_world) acme ''w'' = Some rec"
    "wl_manifest rec = ?m" "wl_current_version rec = 1" "wl_certification_status rec = CERTIFIED"
    using sample_world_workload by blast
  define r where "r = new_run (nat_str 0) 0 None ?q 1 acme"
  have f: "r_context r = Some PRODUCTION" "run_ctx r = acme" "run_valid r"
    by (simp_all add: r_def new_run_def sample_request_def run_ctx_def run_valid_def context_for_run_def)
  have "\<not> has_valid_attestation rc now (rw_registry ?w) rec target" for rc :: "(string, string) registry_config" and now target
    by (auto simp: has_valid_attestation_def store_get_attestation_def sample_world_def sample_registry_def Let_def split: option.split)
  then have "\<not> gates_open sample_null ?w r ?m PRODUCTION rec"
    using rec(4) by (simp add: gates_open_def admission_verdict_def)
  moreover have "list_all (verifies (sv_registry sample_null)) (store_list_attestations (rw_registry ?w) (run_ctx r) (workload_name ?m))"
    using sample_world_attestations by simp
  ultimately obtain res n where res: "pipeline_check sample_null r ?m False ?w = (Inr res, ?w\<lparr>rw_ticks := rw_ticks ?w + n\<rparr>)"
    "ar_outcome res = REFUSED"
    using admission_evaluates [OF f(1), of ?w ?m rec sample_null False] rec(1) f(2) by (auto simp: refusal_ok_def)
  have e: "require_active_tenant acme sample_world = (Inr (), sample_world)"
    "registryE (registry_get ''w'' acme) sample_world = (Inr rec, sample_world)"
    "tickE sample_world = (Inr 0, sample_world\<lparr>rw_ticks := 1\<rparr>)"
    "scan_task_input sample_null r ?m (sample_world\<lparr>rw_ticks := 1\<rparr>) = (Inr (), ?w)"
    using rec(1)
    by (simp_all add: require_active_tenant_def bindE_def getE_def returnE_def registryE_def zoomE_def registry_get_def tickE_def
        scan_task_input_def optionalE_def defense_view_def Let_def numeral_2_eq_2)
       (simp_all add: sample_world_def returnE_def)
  have q: "rq_workload ?q = ''w''" "\<not> rq_require_approval ?q" "rq_qos ?q = None"
    and ids: "new_run (sv_ids sample_null 0 0) (sv_clock sample_null 0 0) (sv_trace_id sample_null 0) ?q 1 acme = r"
    by (simp_all add: sample_request_def r_def null_service_def sample_service_config_def)
  have "\<exists>w'. submit sample_null ?q acme sample_world = (Inl (RunAdmissionRefusedError res), w')"
    unfolding submit_def
    using e q ids rec(2,3) f(3) res by (simp add: thenE_def bindE_def raiseE_def)
  then obtain w' where w': "submit sample_null ?q acme sample_world = (Inl (RunAdmissionRefusedError res), w')" by blast
  from submit_refused_traceless [OF this q(3)] w' show ?thesis using sample_world_empty by auto
qed

end
