(* ===== verification/Recovery.thy ===== *)
theory Recovery
  imports Run_Lifecycle
begin

text \<open>
  Startup recovery of interrupted runs (\<open>execution/recovery.py\<close>): paused runs are re-attached to
  their adapter, running runs are failed, and a run whose workload is gone is skipped. Only
  that error is caught; any other aborts the pass.
\<close>

section \<open>The recovery pass\<close>

definition INTERRUPTED_REASON :: string where
  "INTERRUPTED_REASON = ''interrupted by control-plane restart''"

record recovery_report =
  rp_reattached :: "string list"
  rp_failed :: "string list"
  rp_skipped :: "string list"



definition workload_gone :: "run_error \<Rightarrow> bool" where
  "workload_gone e = (case e of RunRegistryFailure (WorkloadNotFoundError _) \<Rightarrow> True | _ \<Rightarrow> False)"




section \<open>What a pass leaves behind\<close>

definition interrupted :: "run_store \<Rightarrow> string \<Rightarrow> bool" where
  "interrupted st run_id \<longleftrightarrow> (\<exists>k b. dict_get st k = Some b \<and> snd k = run_id \<and> r_state (rb_run b) = FAILED \<and>
     r_failure_reason (rb_run b) = Some INTERRUPTED_REASON)"


text \<open>The report grows, and a run it lists as failed is failed.\<close>

definition report_ok :: "run_store \<Rightarrow> recovery_report \<Rightarrow> bool" where
  "report_ok st report \<longleftrightarrow> (\<forall>i \<in> set (rp_failed report). interrupted st i)"

definition handled :: "recovery_report \<Rightarrow> string \<Rightarrow> bool" where
  "handled report run_id \<longleftrightarrow> run_id \<in> set (rp_failed report) \<or> run_id \<in> set (rp_skipped report)"

definition report_grows :: "recovery_report \<Rightarrow> recovery_report \<Rightarrow> bool" where
  "report_grows report report' \<longleftrightarrow> prefix (rp_reattached report) (rp_reattached report') \<and>
     prefix (rp_failed report) (rp_failed report') \<and> prefix (rp_skipped report) (rp_skipped report')"

lemma report_grows_refl [simp]: "report_grows report report"
  by (simp add: report_grows_def)




lemma report_changes [simp]:
  "report_ok st (report\<lparr>rp_skipped := x\<rparr>) = report_ok st report" "report_ok st (report\<lparr>rp_reattached := x\<rparr>) = report_ok st report"
  "report_ok st (report\<lparr>rp_failed := rp_failed report @ [i]\<rparr>) \<longleftrightarrow> report_ok st report \<and> interrupted st i"
  "report_grows report (report\<lparr>rp_skipped := rp_skipped report @ [i]\<rparr>)" "report_grows report (report\<lparr>rp_reattached := rp_reattached report @ [i]\<rparr>)"
  "report_grows report (report\<lparr>rp_failed := rp_failed report @ [i]\<rparr>)"
  "handled (report\<lparr>rp_skipped := rp_skipped report @ [i]\<rparr>) i" "handled (report\<lparr>rp_failed := rp_failed report @ [i]\<rparr>) i"
  by (auto simp: report_ok_def report_grows_def handled_def)


section \<open>A pass with the default executor returns\<close>



















lemma gone_errors [simp]: "workload_gone (RunRegistryFailure (WorkloadNotFoundError n))"
  by (simp add: workload_gone_def)

















lemma null_hooks [simp]: "sv_terminal_hook (null_service c) = None" "sv_eval_hook (null_service c) = None"
  "ex_reattach (sv_executor (null_service c)) = None"
  by (simp_all add: null_service_def NullRunExecutor_def)













section \<open>Properties\<close>




text \<open>
  The application keeps its sandbox instances in memory, so after a restart they are gone. Ending a run
  that has one then raises an error the pass does not catch, and the runs after it are not
  reconciled.
\<close>

lemma lost_sandbox_aborts:
  assumes "r_sandbox_id u = Some sid" "rw_sandboxes w = Some sb" "dict_get sb sid = None"
  shows "\<exists>e. fst (release_sandbox cfg actor u w) = Inl (RunSandboxFailure e) \<and> \<not> workload_gone (RunSandboxFailure e)"
  using assms
  by (simp add: release_sandbox_def bindE_def thenE_def getE_def run_now optionalE_def destroy_def sandbox_get_def raiseE_def workload_gone_def)

end
