(* ===== verification/Spec2Isabelle.thy ===== *)
theory Spec2Isabelle
  imports Recovery
begin

text \<open>
  A verification development for hiveplane, a control plane that admits, runs, meters and governs
  agent workloads. The sources are the Python package \<open>src/src/hiveplane\<close>; paths below are relative
  to it.

  \<^bold>\<open>The parts of the program and how they interact.\<close> A workload is a manifest (\<open>core/\<close>) that is
  registered (\<open>registry/\<close>), certified by signed attestations (\<open>certification/\<close>) and run. The run
  service (\<open>execution/service.py\<close>) takes a submission through the admission pipeline
  (\<open>execution/admission.py\<close>), which asks the incident gate (\<open>incident/\<close>), the registry, the budget
  (\<open>budget/\<close>, over the cost service \<open>cost/\<close>) and the policy engine (\<open>policy/\<close>). It stores the run in
  the run store (\<open>execution/store.py\<close>), queues it with the scheduler (\<open>scheduler/\<close>), routes it to the
  arm of a canary (\<open>progressive/\<close>), provisions its sandbox (\<open>sandbox/\<close>), hands it to a runtime
  adapter and, at its end, notifies the destinations of its outcome (\<open>execution/fanout.py\<close>). While a
  run is going, usage is priced and checked by the guards (\<open>guards/\<close>), tool calls pass the policy
  engine with approvals and the kill switch, tool output passes the shaping pipeline (\<open>shaping/\<close>)
  and the defense guard (\<open>defense/\<close>). Every store is scoped by a tenant context (\<open>tenancy/\<close>), and
  operators' actions are written to a hash-chained audit log (\<open>persistence/audit.py\<close>).

  \<^bold>\<open>Conventions.\<close> A class or pydantic model is a \<open>record\<close> whose fields carry a two-letter prefix, an
  enumeration is a \<open>datatype\<close>. A method that may raise returns a sum (\<open>Inl\<close> is the exception) or, if
  it changes state, is a computation \<open>('s, 'e, 'a) exec\<close> of \<open>HP_Prelude\<close>: it maps a state to a result
  and the state it leaves, also when it raises, because Python keeps the effects before a
  \<open>raise\<close>. A dictionary is an association list with insertion order and overwriting in place. Times
  are integers of microseconds in UTC, so the time zone a datetime carries is not represented: the
  day of an instant is its UTC day, and the text of an instant is the text of its UTC form. Floats
  are rationals, so rounding is not represented. Clock readings, random numbers and fresh ids are
  arguments. Code that is not in the repository is a parameter: SHA-256, Ed25519, the Unicode
  tables behind \<open>str.lower\<close> and \<open>re\<close>, the time-zone database, runtime adapters, transports.

  \<^bold>\<open>The theories.\<close>
  \<^item> \<open>HP_Prelude\<close>: scalar types, dictionaries, string functions, the computation type and its
    calculus (\<open>wp\<close> for a result or an exception, \<open>steps R\<close> for a relation between the states before
    and after, kept by every branch).
  \<^item> \<open>Tenancy\<close> (\<open>tenancy/\<close>): contexts and the tenant administration. Its locale \<open>scoped_store\<close> is
    interpreted on the tenant, pack and run stores and gives their isolation; the registry, whose
    records have several stores, has its isolation proved over its own calls.
  \<^item> \<open>Core_Model\<close> (\<open>core/\<close>): runs and their state machine, the manifest with its validators.
  \<^item> \<open>Policy_Packs\<close>, \<open>Policy_Engine\<close> (\<open>policy/\<close>): inheritance and linting of packs, the ordered
    rules and the blast-radius score. \<open>Approvals\<close> (\<open>policy/approvals.py\<close>, \<open>policy/kill_switch.py\<close>).
  \<^item> \<open>Calendar\<close>, \<open>Cost\<close>, \<open>Budget\<close> (\<open>cost/\<close>, \<open>budget/\<close>): periods, metering, alerts, caps, rollover,
    showback, pricing and the three budget limits.
  \<^item> \<open>Scheduler\<close> (\<open>scheduler/\<close>), with an abstract task lifecycle it refines; \<open>Guards\<close> (\<open>guards/\<close>).
  \<^item> \<open>Audit_Log\<close> (\<open>persistence/audit.py\<close>), whose locale \<open>audit_backend\<close> of an append-only log is what
    the kill switch relies on; it is interpreted on the in-memory log and on the scrubbing one.
  \<^item> \<open>Unicode_Text\<close>, \<open>Shaping\<close>, \<open>Defense\<close> (\<open>shaping/\<close>, \<open>defense/\<close>): UTF-8, a backtracking regular
    expression matcher, truncation and filtering, the detectors, taint marks, egress rules and the
    defense guard.
  \<^item> \<open>Signing\<close>, \<open>Registry\<close> (\<open>certification/binding.py\<close>, \<open>certification/signing.py\<close>,
    \<open>transparency/provenance.py\<close>, \<open>registry/\<close>): canonical JSON, artifact hashes, attestations, bundles,
    and every operation of the registry.
  \<^item> \<open>Incident\<close> (\<open>incident/\<close>), \<open>Sandboxes\<close> (\<open>sandbox/\<close>), \<open>Fanout\<close> (\<open>execution/fanout.py\<close>),
    \<open>Progressive\<close> (\<open>progressive/\<close>): halts, sandbox bookkeeping, deliveries, canaries, shadow runs and
    experiments.
  \<^item> \<open>Run_Store\<close> (\<open>execution/models.py\<close>, \<open>execution/store.py\<close>), \<open>Admission\<close> (\<open>execution/gates.py\<close>,
    \<open>execution/admission.py\<close>), \<open>Run_Service\<close> (\<open>execution/service.py\<close>), \<open>Recovery\<close>
    (\<open>execution/recovery.py\<close>). The state is the record \<open>run_world\<close> of all the stores above, so a
    transition of a run changes the same registry, budget, scheduler, guards and log the other
    theories are about. \<open>Run_Guarantee\<close> states the relation \<open>run_rely\<close> between the stored runs before
    and after, and \<open>Run_Lifecycle\<close> proves it of every operation.
\<close>

text \<open>
  \<^bold>\<open>What is shown.\<close>
  \<^item> Runs: the event log of every run is a legal history that ends in the stored state; runs only
    progress along the state machine, keep their identity and never change once they have ended; the
    outcome of a run is stored before its side effects and survives a side effect that raises;
    nothing is submitted past the gates; recovery fails the interrupted runs, and with the default
    executor it returns (\<open>recovery_returns\<close>, when the sandbox instances are still known).
  \<^item> Decisions: admission to a run, admission to production, allowing a tool call, allowing an
    egress destination, halting, promoting and aborting a canary are each characterised by a condition
    written over the state, in both directions where the code decides both ways.
  \<^item> Money: a usage report is added to exactly the totals it belongs to, the totals agree with the
    attributions, budget periods are charged exactly, alerts fire once.
  \<^item> Scheduling: the scheduler refines a task lifecycle, preemption takes only checkpointed work that
    is not guaranteed, and every queued task is started when no more come.
  \<^item> Integrity: the audit chain verifies after any calls, binds its history and locates edits of hashed
    fields; artifact hashes, attestations and bundles bind what they cover, up to a collision of the
    hash, which appears as a disjunct and not as a hypothesis.
  \<^item> Isolation: calls by other tenants change nothing a tenant reads of its runs or workloads.
  \<^item> Untrusted input: marks equal the lineage of the values, a tainted run cannot call destructive tools,
    injection verdicts are recorded, the override phrases are found in any spelling of case and space.
  \<^item> Bounds and loops: shaped output fits its limit in bytes, retries end after the configured number
    of calls, the breaker and the velocity guard agree with references on the unbounded history, linted
    packs resolve.

  Where the sources differ from their documents or from what they set out to do, a lemma shows the
  behaviour next to the definitions: among others a production workload of another tenant than the
  default one is never admitted, a higher blast radius is allowed more, an abort does not bring the
  baseline manifest back, a canary aborts below its minimum sample and is promoted after its baseline
  changed, recovery stops at a run whose sandbox instance is gone.

  \<^bold>\<open>Contracts.\<close> The locale \<open>run_ports\<close> states what the run service relies on from a runtime adapter
  and the hooks: run ids are fresh, and a call changes the stored runs only in ways the service's own
  operations do, which lets an adapter call the service back. It is interpreted on
  \<open>NullRunExecutor\<close>, the executor of the sources. The cryptographic functions are assumed only to
  verify their own signatures, and the concrete instances use simple functions with that property.

  \<^bold>\<open>Bounds.\<close> The loops of the model are structural recursions or recursions with a proved measure
  (\<open>has_cycle\<close>, \<open>sub_from\<close>, \<open>json_eq\<close>). The one loop of the sources that may not end is the resolution
  of a pack's parents on a cyclic catalog: \<open>resolve_parents\<close> is a partial function whose value
  \<open>None\<close> stands for not returning, and for packs that lint it is proved to return. The retry loop of
  the fan-out counts down the attempts that are left.

  \<^bold>\<open>What is not modelled.\<close> Thread locks (every method is one atomic step), telemetry and metrics,
  the Postgres stores (each store is its in-memory implementation), file writes, HTTP routes,
  rendering, the runtime adapters and the packages above the run service (pipelines, triggers,
  reconciliation, fleet reports). Field constraints of a model are checked where a computed value can
  violate them, and left out where the value comes from a model that was validated already.
\<close>

end
